theory Spec2Isabelle
  imports Complex_Main
begin

section \<open>Values\<close>

text \<open>
  A JavaScript number is modelled as an exact rational (rounding of IEEE doubles is not
  modelled); \<open>number | null\<close> is \<open>rat option\<close>, \<open>string | null\<close> is \<open>string option\<close>.
  Arithmetic on a nullable number coerces \<open>null\<close> to \<open>0\<close>, as JavaScript does.
\<close>

definition toNum :: "rat option \<Rightarrow> rat" where
  "toNum v = (case v of None \<Rightarrow> 0 | Some r \<Rightarrow> r)"

text \<open>A position object \<open>{x, y}\<close>; a coordinate may itself be \<open>null\<close>.\<close>

record point =
  px :: "rat option"
  py :: "rat option"

text \<open>A bounding box \<open>{x, y, width, height}\<close>.\<close>

record bbox =
  bbox_x :: "rat option"
  bbox_y :: "rat option"
  bbox_width :: "rat option"
  bbox_height :: "rat option"

text \<open>An untyped attribute value of a Konva shape.\<close>

datatype jsval = Null | Str string | Num rat

definition ofColor :: "string option \<Rightarrow> jsval" where
  "ofColor c = (case c of None \<Rightarrow> Null | Some s \<Rightarrow> Str s)"

definition ofNumber :: "rat option \<Rightarrow> jsval" where
  "ofNumber n = (case n of None \<Rightarrow> Null | Some r \<Rightarrow> Num r)"

text \<open>\<open>String.prototype.startsWith\<close>.\<close>

definition startsWith :: "string \<Rightarrow> string \<Rightarrow> bool" where
  "startsWith s p = (take (length p) s = p)"

text \<open>
  The test \<open>['Face', 'LHand', 'RHand'].some(partName => name.startsWith(partName + '_'))\<close>
  of \<open>buildSkeleton\<close> and \<open>createBODY18\<close>.
\<close>

definition isDetailName :: "string \<Rightarrow> bool" where
  "isDetailName n = list_ex (\<lambda>partName. startsWith n (partName @ ''_'')) [''Face'', ''LHand'', ''RHand'']"

text \<open>Decimal rendering of a non-negative integer, for template strings.\<close>

fun showNat :: "nat \<Rightarrow> string" where
  "showNat n = (if n < 10 then [char_of (48 + n)] else showNat (n div 10) @ [char_of (48 + n mod 10)])"

declare showNat.simps [simp del]

text \<open>\<open>Array.prototype.join\<close> on strings.\<close>

fun join :: "string \<Rightarrow> string list \<Rightarrow> string" where
  "join sep [] = []"
| "join sep [s] = s"
| "join sep (s # t # ts) = s @ sep @ join sep (t # ts)"

section \<open>Shapes and layers of the rendering surface\<close>

text \<open>
  Konva is outside the repository. A shape is modelled as its attribute record: a setter
  such as \<open>shape.fill(v)\<close> writes the attribute. Events that Konva emits in response to an
  attribute write are not modelled; a drag by the user is the explicit operation
  \<open>dragKeypoint\<close> below.
\<close>

datatype shapeClass = PointShape | LineShape

record shape =
  className :: shapeClass
  shapeName :: string
  attr_x :: "rat option"
  attr_y :: "rat option"
  attr_points :: "rat option list"
  attr_fill :: jsval
  attr_stroke :: jsval
  attr_strokeWidth :: jsval
  attr_radius :: jsval
  attr_visible :: bool
  attr_layer :: "nat option"

record konvaLayer =
  layer_id :: string
  layer_name :: string
  layer_visible :: bool
  layer_opacity :: rat

text \<open>\<open>PoseLayer\<close>: a Konva layer (by reference) and the drawables rendered on it.\<close>

record poseLayer =
  pl_layer :: nat
  pl_drawables :: "nat list"

section \<open>Entities\<close>

text \<open>
  Object references are indices into the store \<open>ents\<close>, in allocation order. The classes
  \<open>Entity\<close> and \<open>Drawable\<close> are abstract in the application (only their subclasses are
  instantiated), so \<open>kind\<close> ranges over the concrete classes. One record holds the fields
  of every class, as one JavaScript object would; a field a class does not have is never
  read for it. The field \<open>_x\<close> of the source is named \<open>x\<close>.
\<close>

datatype kind = Keypoint | Bone | Limb | Person | DistortableImage | Scene

record entity =
  kind :: kind
  name :: string
  uuid :: nat
  parent :: "nat option"
  stateChanged :: bool
  visible :: "bool option"
  children :: "nat list"
  strokeColor :: "string option"
  fillColor :: "string option"
  strokeWidth :: "rat option"
  alpha :: "rat option"
  shape :: "shape option"
  isDestroyed :: bool
  stateChangeLock :: nat
  layer :: "nat option"
  position :: "point option"
  radius :: rat
  startKp :: nat
  endKp :: nat
  keypointsDict :: "(string \<times> nat) list"
  limbs :: "nat list"
  format :: string
  originalBBox :: bbox
  imagePath :: "string option"
  image :: bool
  imageNaturalSize :: "(rat \<times> rat) option"
  constrainedImageSize :: "(rat \<times> rat) option"
  poseLayers :: "poseLayer list"

definition isDrawable :: "entity \<Rightarrow> bool" where
  "isDrawable en = (kind en = Person \<or> kind en = DistortableImage)"

text \<open>The fields of an object as the constructor of \<open>Entity\<close> leaves them.\<close>

definition initialEntity :: "kind \<Rightarrow> string \<Rightarrow> nat \<Rightarrow> nat option \<Rightarrow> nat \<Rightarrow> entity" where
  "initialEntity k nm u par lockRef =
     \<lparr>kind = k, name = nm, uuid = u, parent = par, stateChanged = True,
      visible = Some True, children = [], strokeColor = None, fillColor = None,
      strokeWidth = Some 4, alpha = None, shape = None, isDestroyed = False,
      stateChangeLock = lockRef, layer = None, position = None,
      radius = 0, startKp = 0, endKp = 0, keypointsDict = [], limbs = [],
      format = [], originalBBox = \<lparr>bbox_x = None, bbox_y = None, bbox_width = None, bbox_height = None\<rparr>,
      imagePath = None, image = False, imageNaturalSize = None,
      constrainedImageSize = None, poseLayers = []\<rparr>"



section \<open>State of the revision manager\<close>

text \<open>A \<open>{from, to}\<close> pair of a diff.\<close>

datatype 'a delta = Delta (dfrom: 'a) (dto: 'a)

record childState =
  cs_position :: "point option"
  cs_visible :: "bool option"
  cs_strokeColor :: "string option"
  cs_fillColor :: "string option"

record constructionArgs =
  ca_name :: string
  ca_originalBBox :: bbox
  ca_format :: "string option"
  ca_imagePath :: "string option"
  ca_constrainedImageSize :: "(rat \<times> rat) option"

record attributes =
  a_visible :: "bool option"
  a_alpha :: "rat option"
  a_fillColor :: "string option"
  a_strokeColor :: "string option"
  a_layer :: "string option"

text \<open>
  A snapshot entry. \<open>st_children\<close> is the object \<open>children\<close> keyed by entity name, in
  insertion order.
\<close>

record drawableState =
  st_type :: kind
  st_uuid :: nat
  st_constructionArgs :: constructionArgs
  st_attributes :: attributes
  st_children :: "(string \<times> childState) list"

text \<open>A diff holds a \<open>{from, to}\<close> pair for each key that changed; an absent key is \<open>None\<close>.\<close>

record attributesDiff =
  ad_visible :: "bool option delta option"
  ad_alpha :: "rat option delta option"
  ad_fillColor :: "string option delta option"
  ad_strokeColor :: "string option delta option"
  ad_layer :: "string option delta option"

record childDiff =
  cd_position :: "point option delta option"
  cd_visible :: "bool option delta option"
  cd_strokeColor :: "string option delta option"
  cd_fillColor :: "string option delta option"

record diff =
  d_attributes :: attributesDiff
  d_children :: "(string \<times> childDiff) list"

text \<open>
  A layer state object is mutated in place (\<open>layerState.drawables.push\<close>) while both the
  layer snapshot and a history record refer to it, so layer states live in a store and
  are referred to by index.
\<close>

record layerState =
  ls_layerId :: string
  ls_layerName :: string
  ls_layerIndex :: nat
  ls_visible :: bool
  ls_opacity :: rat
  ls_drawables :: "nat list"

datatype change =
    Create nat drawableState
  | Destroy nat drawableState
  | Modify nat diff
  | LayerCreate string nat
  | LayerDestroy string nat

text \<open>
  The manager is modelled as constructed without a canvas manager
  (\<open>canvasManager = null\<close>, the constructor's default): every \<open>if (this.canvasManager)\<close>
  and \<open>cm?.\<close> of the source takes its null path. \<open>snapshot\<close> and \<open>layerSnapshot\<close> are
  the two \<open>Map\<close>s, in insertion order.
\<close>

record revisionManager =
  rm_scene :: nat
  max_history :: int
  history :: "change list list"
  redoStack :: "change list list"
  snapshot :: "(nat \<times> drawableState) list"
  layerSnapshot :: "(string \<times> nat) list"
  isUndoing :: bool

section \<open>The world\<close>

text \<open>
  \<open>locks\<close> is the store of lock cells \<open>{value: n}\<close>; \<open>nextUuid\<close> stands for
  \<open>crypto.randomUUID()\<close>, which returns a value never returned before; \<open>notified\<close> is an
  instrumentation field: the Scenes whose \<open>onStateChanged\<close> callback was invoked, in order.
\<close>

record world =
  ents :: "entity list"
  locks :: "int list"
  konvaLayers :: "konvaLayer list"
  layerStates :: "layerState list"
  nextUuid :: nat
  notified :: "nat list"
  rm :: revisionManager

text \<open>The callback registered in the field \<open>onStateChanged\<close> of each Scene, if any.\<close>

type_synonym hooks = "nat \<Rightarrow> (world \<Rightarrow> world) option"

text \<open>
  Every reference the program holds is to an allocated object. The model reads a
  reference past the end of the store as an inert placeholder, and a write through it
  changes nothing.
\<close>

definition ent :: "world \<Rightarrow> nat \<Rightarrow> entity" where
  "ent w e = (if e < length (ents w) then ents w ! e else initialEntity Keypoint [] 0 None 0)"

definition upd :: "nat \<Rightarrow> (entity \<Rightarrow> entity) \<Rightarrow> world \<Rightarrow> world" where
  "upd e f w = w\<lparr>ents := (ents w)[e := f (ent w e)]\<rparr>"

definition updShape :: "nat \<Rightarrow> (shape \<Rightarrow> shape) \<Rightarrow> world \<Rightarrow> world" where
  "updShape e f w = upd e (\<lambda>en. en\<lparr>shape := map_option f (shape en)\<rparr>) w"

subsection \<open>Attribute inheritance\<close>

text \<open>
  The getters \<open>getVisible\<close>, \<open>getAlpha\<close>, \<open>getStrokeColor\<close>, \<open>getFillColor\<close> and
  \<open>getStrokeWidth\<close> share one body, parameterised here by the field they read:

  \<^verbatim>\<open>if (v === null) v = this._field;
  if (v === null && this.parent !== null) v = this.parent.getField();
  return v;\<close>

  A parent is always allocated before its child (the constructor receives it), so the
  recursion follows \<open>parent\<close> only towards a smaller index.
\<close>

function inherited :: "(entity \<Rightarrow> 'a option) \<Rightarrow> world \<Rightarrow> nat \<Rightarrow> 'a option \<Rightarrow> 'a option" where
  "inherited field w e v =
     (case (if v = None then field (ent w e) else v) of
        Some a \<Rightarrow> Some a
      | None \<Rightarrow>
          (case parent (ent w e) of
             None \<Rightarrow> None
           | Some p \<Rightarrow> if p < e then inherited field w p None else None))"
  by pat_completeness auto
termination
  by (relation "measure (\<lambda>(field, w, e, v). e)") auto

declare inherited.simps [simp del]

definition getVisible :: "world \<Rightarrow> nat \<Rightarrow> bool option \<Rightarrow> bool option" where
  "getVisible = inherited visible"

definition getAlpha :: "world \<Rightarrow> nat \<Rightarrow> rat option \<Rightarrow> rat option" where
  "getAlpha = inherited alpha"

definition getStrokeColor :: "world \<Rightarrow> nat \<Rightarrow> string option \<Rightarrow> string option" where
  "getStrokeColor = inherited strokeColor"

definition getFillColor :: "world \<Rightarrow> nat \<Rightarrow> string option \<Rightarrow> string option" where
  "getFillColor = inherited fillColor"

definition getStrokeWidth :: "world \<Rightarrow> nat \<Rightarrow> rat option \<Rightarrow> rat option" where
  "getStrokeWidth = inherited strokeWidth"

text \<open>\<open>getParents\<close>: the ancestor chain, nearest first.\<close>

function getParents :: "world \<Rightarrow> nat \<Rightarrow> nat list" where
  "getParents w e =
     (case parent (ent w e) of
        None \<Rightarrow> []
      | Some p \<Rightarrow> if p < e then p # getParents w p else [])"
  by pat_completeness auto
termination
  by (relation "measure (\<lambda>(w, e). e)") auto

declare getParents.simps [simp del]

subsection \<open>The state-change lock and dirty propagation\<close>

definition lockStateChange :: "nat \<Rightarrow> world \<Rightarrow> world" where
  "lockStateChange e w =
     (let l = stateChangeLock (ent w e) in w\<lparr>locks := (locks w)[l := locks w ! l + 1]\<rparr>)"

definition unlockStateChange :: "nat \<Rightarrow> world \<Rightarrow> world" where
  "unlockStateChange e w =
     (let l = stateChangeLock (ent w e) in w\<lparr>locks := (locks w)[l := locks w ! l - 1]\<rparr>)"

definition isStateChangeLock :: "world \<Rightarrow> nat \<Rightarrow> bool" where
  "isStateChangeLock w e = (locks w ! stateChangeLock (ent w e) > 0)"

text \<open>
  \<open>Entity.changeState\<close>, with the override of \<open>Scene\<close>, which runs the base method and then
  invokes the registered callback unless the Scene's lock is held.
\<close>

function changeState :: "hooks \<Rightarrow> bool \<Rightarrow> nat \<Rightarrow> world \<Rightarrow> world" where
  "changeState hk statusChanged e w =
     (let w1 = upd e (\<lambda>en. en\<lparr>stateChanged := statusChanged\<rparr>) w;
          w2 = (case parent (ent w e) of
                  None \<Rightarrow> w1
                | Some p \<Rightarrow> if p < e then changeState hk statusChanged p w1 else w1)
      in if kind (ent w e) = Scene
         then (case hk e of
                 None \<Rightarrow> w2
               | Some callback \<Rightarrow>
                   if isStateChangeLock w2 e then w2
                   else callback (w2\<lparr>notified := notified w2 @ [e]\<rparr>))
         else w2)"
  by pat_completeness auto
termination
  by (relation "measure (\<lambda>(hk, s, e, w). e)") auto

declare changeState.simps [simp del]

definition stateChangedOf :: "world \<Rightarrow> nat \<Rightarrow> bool" where
  "stateChangedOf w e = stateChanged (ent w e)"

subsection \<open>Traversal\<close>

text \<open>
  Recursion down the ownership tree carries a depth budget; the entry points pass the
  number of allocated objects, which the depth of a tree of distinct objects cannot
  exceed. \<open>traverseChildren\<close> returns the entities in the order in which the source
  hands them to its callback.
\<close>

fun traverseChildrenRec :: "nat \<Rightarrow> world \<Rightarrow> nat \<Rightarrow> nat list" where
  "traverseChildrenRec 0 w e = []"
| "traverseChildrenRec (Suc n) w e =
     e # concat (map (traverseChildrenRec n w) (children (ent w e)))"

definition traverseChildren :: "world \<Rightarrow> nat \<Rightarrow> nat list" where
  "traverseChildren w e = traverseChildrenRec (length (ents w)) w e"

text \<open>\<open>Entity.getAllKeypoints\<close>, with the override of \<open>Bone\<close>.\<close>

fun getAllKeypointsRec :: "nat \<Rightarrow> world \<Rightarrow> nat \<Rightarrow> nat list" where
  "getAllKeypointsRec 0 w e = []"
| "getAllKeypointsRec (Suc n) w e =
     (if kind (ent w e) = Bone then [startKp (ent w e), endKp (ent w e)]
      else fold (\<lambda>child keypoints.
                   fold (\<lambda>kp ks. if kp \<in> set ks then ks else ks @ [kp])
                     (getAllKeypointsRec n w child) keypoints)
             (children (ent w e))
             (if kind (ent w e) = Keypoint then [e] else []))"

definition getAllKeypoints :: "world \<Rightarrow> nat \<Rightarrow> nat list" where
  "getAllKeypoints w e = getAllKeypointsRec (length (ents w)) w e"

subsection \<open>Positions\<close>

text \<open>
  A Bone is constructed between two Keypoints (\<open>buildSkeleton\<close> takes them from
  \<open>keypointsDict\<close>), and \<open>getAllKeypoints\<close> yields Keypoints and Bone endpoints only, so
  \<open>getPosition\<close> of such an entity is \<open>Keypoint.getPosition\<close>: the field \<open>_position\<close>.
\<close>

definition Keypoint_getPosition :: "world \<Rightarrow> nat \<Rightarrow> point option" where
  "Keypoint_getPosition w e = position (ent w e)"

definition Bone_getPosition :: "world \<Rightarrow> nat \<Rightarrow> point option" where
  "Bone_getPosition w e =
     (case Keypoint_getPosition w (startKp (ent w e)) of
        None \<Rightarrow> None
      | Some startPos \<Rightarrow>
          (case Keypoint_getPosition w (endKp (ent w e)) of
             None \<Rightarrow> None
           | Some endPos \<Rightarrow>
               Some \<lparr>px = Some ((toNum (px startPos) + toNum (px endPos)) / 2),
                     py = Some ((toNum (py startPos) + toNum (py endPos)) / 2)\<rparr>))"

definition Limb_getPosition :: "world \<Rightarrow> nat \<Rightarrow> point option" where
  "Limb_getPosition w e =
     (let keypoints = getAllKeypoints w e in
      if keypoints = [] then None
      else (case those (map (Keypoint_getPosition w) keypoints) of
              None \<Rightarrow> None
            | Some positions \<Rightarrow>
                Some \<lparr>px = Some (sum_list (map (\<lambda>p. toNum (px p)) positions) / of_nat (length positions)),
                      py = Some (sum_list (map (\<lambda>p. toNum (py p)) positions) / of_nat (length positions))\<rparr>))"

definition keypointNamed :: "world \<Rightarrow> nat \<Rightarrow> string \<Rightarrow> nat option" where
  "keypointNamed w e nm = map_of (keypointsDict (ent w e)) nm"

definition getPosition :: "world \<Rightarrow> nat \<Rightarrow> point option" where
  "getPosition w e =
     (case kind (ent w e) of
        Keypoint \<Rightarrow> Keypoint_getPosition w e
      | Bone \<Rightarrow> Bone_getPosition w e
      | Limb \<Rightarrow> Limb_getPosition w e
      | Person \<Rightarrow> (case keypointNamed w e ''Neck'' of None \<Rightarrow> None | Some kp \<Rightarrow> Keypoint_getPosition w kp)
      | DistortableImage \<Rightarrow> (case keypointNamed w e ''TopLeft'' of None \<Rightarrow> None | Some kp \<Rightarrow> Keypoint_getPosition w kp)
      | Scene \<Rightarrow> Some \<lparr>px = Some 0, py = Some 0\<rparr>)"

definition offsetBetween :: "point \<Rightarrow> point \<Rightarrow> point" where
  "offsetBetween pos currentPos =
     \<lparr>px = Some (toNum (px pos) - toNum (px currentPos)),
      py = Some (toNum (py pos) - toNum (py currentPos))\<rparr>"

definition translated :: "point \<Rightarrow> point \<Rightarrow> point" where
  "translated pos offset =
     \<lparr>px = Some (toNum (px pos) + toNum (px offset)),
      py = Some (toNum (py pos) + toNum (py offset))\<rparr>"

subsection \<open>Visibility and colours\<close>

text \<open>The attribute \<open>visible\<close> of a shape holds the truthiness of the value written.\<close>

definition truthy :: "bool option \<Rightarrow> bool" where
  "truthy v = (v = Some True)"

definition updateVisibility :: "nat \<Rightarrow> world \<Rightarrow> world" where
  "updateVisibility e w =
     (case kind (ent w e) of
        Keypoint \<Rightarrow>
          updShape e (\<lambda>sh. sh\<lparr>attr_visible := truthy (getVisible w e None) \<and> position (ent w e) \<noteq> None\<rparr>) w
      | Bone \<Rightarrow>
          updShape e (\<lambda>sh. sh\<lparr>attr_visible := truthy (getVisible w e None)
                \<and> Keypoint_getPosition w (startKp (ent w e)) \<noteq> None
                \<and> Keypoint_getPosition w (endKp (ent w e)) \<noteq> None\<rparr>) w
      | _ \<Rightarrow> w)"

definition setVisible :: "nat \<Rightarrow> bool option \<Rightarrow> world \<Rightarrow> world" where
  "setVisible e v w = updateVisibility e (upd e (\<lambda>en. en\<lparr>visible := v\<rparr>) w)"

fun setStrokeColorRec :: "nat \<Rightarrow> nat \<Rightarrow> string option \<Rightarrow> world \<Rightarrow> world" where
  "setStrokeColorRec 0 e color w = w"
| "setStrokeColorRec (Suc n) e color w =
     (let w1 = (if color \<noteq> None then upd e (\<lambda>en. en\<lparr>strokeColor := color\<rparr>) w else w);
          w2 = updShape e (\<lambda>sh. sh\<lparr>attr_stroke := ofColor (getStrokeColor w1 e None)\<rparr>) w1
      in fold (\<lambda>ch. setStrokeColorRec n ch None) (children (ent w2 e)) w2)"

definition setStrokeColor :: "nat \<Rightarrow> string option \<Rightarrow> world \<Rightarrow> world" where
  "setStrokeColor e color w = setStrokeColorRec (length (ents w)) e color w"

fun setFillColorRec :: "nat \<Rightarrow> nat \<Rightarrow> string option \<Rightarrow> world \<Rightarrow> world" where
  "setFillColorRec 0 e color w = w"
| "setFillColorRec (Suc n) e color w =
     (let w1 = (if color \<noteq> None then upd e (\<lambda>en. en\<lparr>fillColor := color\<rparr>) w else w);
          w2 = updShape e (\<lambda>sh. sh\<lparr>attr_fill := ofColor (getFillColor w1 e None)\<rparr>) w1
      in fold (\<lambda>ch. setFillColorRec n ch None) (children (ent w2 e)) w2)"

definition setFillColor :: "nat \<Rightarrow> string option \<Rightarrow> world \<Rightarrow> world" where
  "setFillColor e color w = setFillColorRec (length (ents w)) e color w"

text \<open>
  \<open>setStrokeWidth\<close> as written: the resolved width goes to \<open>shape.fill\<close>, and the loop over
  the children calls the getter \<open>getStrokeWidth(null)\<close>, whose results are dropped.
\<close>

definition setStrokeWidth :: "nat \<Rightarrow> rat option \<Rightarrow> world \<Rightarrow> world" where
  "setStrokeWidth e width w =
     (let w1 = (if width \<noteq> None then upd e (\<lambda>en. en\<lparr>strokeWidth := width\<rparr>) w else w);
          w2 = updShape e (\<lambda>sh. sh\<lparr>attr_fill := ofNumber (getStrokeWidth w1 e None)\<rparr>) w1;
          dropped = map (\<lambda>ch. getStrokeWidth w2 ch None) (children (ent w2 e))
      in w2)"

definition setRadius :: "nat \<Rightarrow> rat \<Rightarrow> bool \<Rightarrow> world \<Rightarrow> world" where
  "setRadius e r updateShape w =
     (let w1 = upd e (\<lambda>en. en\<lparr>radius := r\<rparr>) w
      in if updateShape then updShape e (\<lambda>sh. sh\<lparr>attr_radius := Num r\<rparr>) w1 else w1)"

subsection \<open>Rendering of keypoints and bones\<close>

text \<open>
  \<open>render\<close> returns the list of shapes it drew; no modelled caller reads it, so the
  model keeps the effect on the world only. \<open>new Point(config)\<close> and \<open>new Line(config)\<close>
  are the defaults of \<open>shapes.js\<close> overridden by the configuration.
\<close>

definition Keypoint_render :: "nat \<Rightarrow> nat \<Rightarrow> world \<Rightarrow> world" where
  "Keypoint_render lay e w =
     (case (if truthy (getVisible w e None) then position (ent w e) else None) of
        None \<Rightarrow> updShape e (\<lambda>sh. sh\<lparr>attr_visible := False\<rparr>) w
      | Some pos \<Rightarrow>
          (case shape (ent w e) of
             None \<Rightarrow>
               upd e (\<lambda>en. en\<lparr>shape := Some
                 \<lparr>className = PointShape, shapeName = name en,
                  attr_x = px pos, attr_y = py pos, attr_points = [],
                  attr_fill = ofColor (getFillColor w e None),
                  attr_stroke = ofColor (getStrokeColor w e None),
                  attr_strokeWidth = Num 2, attr_radius = Num (radius en),
                  attr_visible = True, attr_layer = Some lay\<rparr>\<rparr>) w
           | Some sh0 \<Rightarrow>
               updShape e (\<lambda>sh. sh\<lparr>attr_layer := Some lay, attr_x := px pos, attr_y := py pos,
                                     attr_visible := True\<rparr>) w))"

definition Bone_render :: "nat \<Rightarrow> nat \<Rightarrow> world \<Rightarrow> world" where
  "Bone_render lay e w =
     (if isDestroyed (ent w e) then w
      else
        let w1 = upd e (\<lambda>en. en\<lparr>layer := Some lay\<rparr>) w;
            s = startKp (ent w1 e);
            t = endKp (ent w1 e)
        in
        if \<not> truthy (getVisible w1 e None) then updShape e (\<lambda>sh. sh\<lparr>attr_visible := False\<rparr>) w1
        else
          (case (Keypoint_getPosition w1 s, Keypoint_getPosition w1 t) of
             (Some startPos, Some endPos) \<Rightarrow>
               (let w2 = setFillColor s None (upd s (\<lambda>en. en\<lparr>fillColor := None\<rparr>) w1);
                    w3 = setFillColor t None (upd t (\<lambda>en. en\<lparr>fillColor := None\<rparr>) w2)
                in
                (case shape (ent w3 e) of
                   None \<Rightarrow>
                     (let w4 = (if shape (ent w3 s) = None \<and> \<not> isDestroyed (ent w3 s)
                                then Keypoint_render lay s w3 else w3);
                          w5 = (if shape (ent w4 t) = None \<and> \<not> isDestroyed (ent w4 t)
                                then Keypoint_render lay t w4 else w4)
                      in
                      (case (shape (ent w5 s), shape (ent w5 t)) of
                         (Some ss, Some ts) \<Rightarrow>
                           upd e (\<lambda>en. en\<lparr>shape := Some
                             \<lparr>className = LineShape, shapeName = name en,
                              attr_x = None, attr_y = None,
                              attr_points = [attr_x ss, attr_y ss, attr_x ts, attr_y ts],
                              attr_fill = ofColor (getFillColor w5 e None),
                              attr_stroke = ofColor (getStrokeColor w5 e None),
                              attr_strokeWidth = ofNumber (getStrokeWidth w5 e None),
                              attr_radius = Null,
                              attr_visible = True, attr_layer = Some lay\<rparr>\<rparr>) w5
                       | _ \<Rightarrow> w5))
                 | Some sh0 \<Rightarrow>
                     updShape e (\<lambda>sh. sh\<lparr>attr_layer := Some lay,
                        attr_points := [px startPos, py startPos, px endPos, py endPos],
                        attr_visible := True\<rparr>) w3))
           | (startPos, endPos) \<Rightarrow>
               (let w2 = updShape e (\<lambda>sh. sh\<lparr>attr_visible := False\<rparr>) w1;
                    w3 = (if endPos \<noteq> None then setFillColor t (Some ''yellow'') w2 else w2)
                in if startPos \<noteq> None then setFillColor s (Some ''yellow'') w3 else w3)))"

text \<open>The loop of \<open>_updateConnectedBones\<close> that finds the enclosing Drawable.\<close>

function enclosingDrawable :: "world \<Rightarrow> nat \<Rightarrow> nat option" where
  "enclosingDrawable w d =
     (if isDrawable (ent w d) then Some d
      else (case parent (ent w d) of
              None \<Rightarrow> None
            | Some p \<Rightarrow> if p < d then enclosingDrawable w p else None))"
  by pat_completeness auto
termination
  by (relation "measure (\<lambda>(w, d). d)") auto

declare enclosingDrawable.simps [simp del]

definition updateConnectedBones :: "nat \<Rightarrow> world \<Rightarrow> world" where
  "updateConnectedBones e w =
     (case (case parent (ent w e) of None \<Rightarrow> None | Some p \<Rightarrow> enclosingDrawable w p) of
        None \<Rightarrow> w
      | Some drawable \<Rightarrow>
          (case layer (ent w drawable) of
             None \<Rightarrow> w
           | Some lay \<Rightarrow>
               fold (\<lambda>limb w1.
                       fold (\<lambda>bone w2.
                               if kind (ent w2 bone) = Bone
                                  \<and> (startKp (ent w2 bone) = e \<or> endKp (ent w2 bone) = e)
                               then Bone_render lay bone w2 else w2)
                         (children (ent w1 limb)) w1)
                 (limbs (ent w drawable)) w))"

subsection \<open>Moving entities\<close>

definition Keypoint__setPosition :: "nat \<Rightarrow> point option \<Rightarrow> bool \<Rightarrow> world \<Rightarrow> world" where
  "Keypoint__setPosition e pos updateShape w =
     (let w1 = upd e (\<lambda>en. en\<lparr>position := pos\<rparr>) w
      in if updateShape
         then (case pos of
                 Some p \<Rightarrow> updShape e (\<lambda>sh. sh\<lparr>attr_x := px p, attr_y := py p, attr_visible := True\<rparr>) w1
               | None \<Rightarrow> updShape e (\<lambda>sh. sh\<lparr>attr_visible := False\<rparr>) w1)
         else w1)"

text \<open>
  \<open>Keypoint.setPosition\<close>: the base \<open>setPosition\<close> (mark dirty, then \<open>_setPosition\<close>)
  followed by the re-rendering of the connected bones.
\<close>

definition Keypoint_setPosition :: "hooks \<Rightarrow> nat \<Rightarrow> point option \<Rightarrow> bool \<Rightarrow> world \<Rightarrow> world" where
  "Keypoint_setPosition hk e pos updateShape w =
     (let w1 = Keypoint__setPosition e pos updateShape (changeState hk True e w)
      in if updateShape then updateConnectedBones e w1 else w1)"

text \<open>\<open>Entity.setOffset\<close> on a Keypoint (\<open>keypoints = [this]\<close>).\<close>

definition Keypoint_setOffset :: "hooks \<Rightarrow> nat \<Rightarrow> point \<Rightarrow> bool \<Rightarrow> world \<Rightarrow> world" where
  "Keypoint_setOffset hk e offset updateShape w =
     (let w1 = changeState hk True e w
      in case Keypoint_getPosition w1 e of
           None \<Rightarrow> w1
         | Some pos \<Rightarrow> Keypoint_setPosition hk e (Some (translated pos offset)) updateShape w1)"

text \<open>\<open>Entity.setOffset\<close>, with the override of \<open>Bone\<close>.\<close>

definition setOffset :: "hooks \<Rightarrow> nat \<Rightarrow> point \<Rightarrow> bool \<Rightarrow> world \<Rightarrow> world" where
  "setOffset hk e offset updateShape w =
     (case kind (ent w e) of
        Keypoint \<Rightarrow> Keypoint_setOffset hk e offset updateShape w
      | Bone \<Rightarrow>
          Keypoint_setOffset hk (endKp (ent w e)) offset updateShape
            (Keypoint_setOffset hk (startKp (ent w e)) offset updateShape w)
      | _ \<Rightarrow>
          (let w1 = changeState hk True e w
           in fold (\<lambda>kp w2. case Keypoint_getPosition w2 kp of
                               None \<Rightarrow> w2
                             | Some pos \<Rightarrow> Keypoint_setPosition hk kp (Some (translated pos offset)) updateShape w2)
                (getAllKeypoints w1 e) w1))"

definition Bone__setPosition :: "hooks \<Rightarrow> nat \<Rightarrow> point option \<Rightarrow> bool \<Rightarrow> world \<Rightarrow> world" where
  "Bone__setPosition hk e pos updateShape w =
     (case pos of
        None \<Rightarrow> w
      | Some p \<Rightarrow>
          (case Bone_getPosition w e of
             None \<Rightarrow> w
           | Some currentPos \<Rightarrow>
               Keypoint_setOffset hk (endKp (ent w e)) (offsetBetween p currentPos) updateShape
                 (Keypoint_setOffset hk (startKp (ent w e)) (offsetBetween p currentPos) updateShape w)))"

definition Limb__setPosition :: "hooks \<Rightarrow> nat \<Rightarrow> point option \<Rightarrow> bool \<Rightarrow> world \<Rightarrow> world" where
  "Limb__setPosition hk e pos updateShape w =
     (case pos of
        None \<Rightarrow> w
      | Some p \<Rightarrow>
          (case Limb_getPosition w e of
             None \<Rightarrow> w
           | Some currentPos \<Rightarrow>
               fold (\<lambda>kp. Keypoint_setOffset hk kp (offsetBetween p currentPos) updateShape)
                 (getAllKeypoints w e) w))"

text \<open>
  A call that ends in an exception leaves the world as it was at the throw; the
  functions that can throw return an \<open>outcome\<close>.
\<close>

datatype outcome = Returned world | Threw string world

definition andThen :: "outcome \<Rightarrow> (world \<Rightarrow> outcome) \<Rightarrow> outcome" where
  "andThen r f = (case r of Returned w \<Rightarrow> f w | Threw msg w \<Rightarrow> Threw msg w)"

fun forEach :: "('a \<Rightarrow> world \<Rightarrow> outcome) \<Rightarrow> 'a list \<Rightarrow> world \<Rightarrow> outcome" where
  "forEach f [] w = Returned w"
| "forEach f (a # as) w = (case f a w of Returned w1 \<Rightarrow> forEach f as w1 | Threw msg w1 \<Rightarrow> Threw msg w1)"

text \<open>
  \<open>overStateChange(callable)\<close>: lock, run \<open>callable\<close>, unlock, mark dirty. There is
  no \<open>finally\<close>: when \<open>callable\<close> throws, the lock stays held.
\<close>

definition overStateChange :: "hooks \<Rightarrow> nat \<Rightarrow> (world \<Rightarrow> outcome) \<Rightarrow> world \<Rightarrow> outcome" where
  "overStateChange hk e callable w =
     andThen (callable (lockStateChange e w))
       (\<lambda>w1. Returned (changeState hk True e (unlockStateChange e w1)))"

text \<open>
  \<open>Drawable._setPosition(pos)\<close> reads \<open>pos.x\<close> once the drawable has a current position:
  with \<open>pos = null\<close> that is a \<open>TypeError\<close>.
\<close>

definition Drawable__setPosition :: "nat \<Rightarrow> point option \<Rightarrow> world \<Rightarrow> outcome" where
  "Drawable__setPosition e pos w =
     (case getPosition w e of
        None \<Rightarrow> Returned w
      | Some currentPos \<Rightarrow>
          (case pos of
             None \<Rightarrow> Threw ''TypeError'' w
           | Some p \<Rightarrow>
               Returned
                 (fold (\<lambda>kp w1. case Keypoint_getPosition w1 kp of
                                   None \<Rightarrow> w1
                                 | Some kpPos \<Rightarrow>
                                     Keypoint__setPosition kp (Some (translated kpPos (offsetBetween p currentPos))) True w1)
                    (getAllKeypoints w e) w)))"

text \<open>\<open>setPosition\<close>, dispatched on the class of the receiver.\<close>

definition setPosition :: "hooks \<Rightarrow> nat \<Rightarrow> point option \<Rightarrow> bool \<Rightarrow> world \<Rightarrow> outcome" where
  "setPosition hk e pos updateShape w =
     (case kind (ent w e) of
        Keypoint \<Rightarrow> Returned (Keypoint_setPosition hk e pos updateShape w)
      | Bone \<Rightarrow> Returned (Bone__setPosition hk e pos updateShape (changeState hk True e w))
      | Limb \<Rightarrow> Returned (Limb__setPosition hk e pos updateShape (changeState hk True e w))
      | Person \<Rightarrow> Drawable__setPosition e pos (changeState hk True e w)
      | DistortableImage \<Rightarrow> Drawable__setPosition e pos (changeState hk True e w)
      | Scene \<Rightarrow> Returned (changeState hk True e w))"

text \<open>The drag listener of a Keypoint: Konva has moved the shape to \<open>pos\<close>.\<close>

definition dragKeypoint :: "hooks \<Rightarrow> nat \<Rightarrow> point \<Rightarrow> world \<Rightarrow> world" where
  "dragKeypoint hk e pos w =
     changeState hk True e
       (upd e (\<lambda>en. en\<lparr>position := Some pos\<rparr>)
          (updShape e (\<lambda>sh. sh\<lparr>attr_x := px pos, attr_y := py pos\<rparr>) w))"

subsection \<open>Construction, attachment and destruction\<close>

text \<open>
  \<open>new Entity(name, parent, withLock)\<close>. The source calls \<open>parent.addChild(this)\<close> before
  it initialises the remaining fields; the model initialises the object first. The two
  orders differ only for a change callback that runs during \<open>addChild\<close>, that is, when an
  entity is constructed under a Scene whose lock is not held. The fresh lock cell is
  created when \<open>!withLock || parent === null\<close>; otherwise \<open>addChild\<close> assigns the
  parent's cell. Fields of other classes start at a placeholder.
\<close>

definition addChild :: "hooks \<Rightarrow> nat \<Rightarrow> nat \<Rightarrow> bool \<Rightarrow> world \<Rightarrow> world" where
  "addChild hk e child withLock w =
     (let w1 = upd e (\<lambda>en. en\<lparr>children := children en @ [child]\<rparr>) w;
          w2 = (if withLock
                then upd child (\<lambda>en. en\<lparr>stateChangeLock := stateChangeLock (ent w1 e)\<rparr>) w1
                else w1)
      in changeState hk True e w2)"

definition newEntity :: "hooks \<Rightarrow> kind \<Rightarrow> string \<Rightarrow> nat option \<Rightarrow> bool \<Rightarrow> world \<Rightarrow> nat \<times> world" where
  "newEntity hk k nm par withLock w =
     (let e = length (ents w);
          fresh = (\<not> withLock \<or> par = None);
          w1 = (if fresh then w\<lparr>locks := locks w @ [0]\<rparr> else w);
          w2 = w1\<lparr>ents := ents w1 @
                 [initialEntity k nm (nextUuid w1) par (if fresh then length (locks w) else 0)],
                 nextUuid := Suc (nextUuid w1)\<rparr>
      in (e, case par of None \<Rightarrow> w2 | Some p \<Rightarrow> addChild hk p e withLock w2))"

definition removeChild :: "hooks \<Rightarrow> nat \<Rightarrow> nat \<Rightarrow> world \<Rightarrow> world" where
  "removeChild hk e child w =
     (if child \<in> set (children (ent w e))
      then
        let w1 = changeState hk True e (upd e (\<lambda>en. en\<lparr>children := remove1 child (children en)\<rparr>) w)
        in if stateChangeLock (ent w1 e) = stateChangeLock (ent w1 child)
           then (upd child (\<lambda>en. en\<lparr>stateChangeLock := length (locks w1)\<rparr>) w1)\<lparr>locks := locks w1 @ [0]\<rparr>
           else w1
      else w)"

definition newKeypoint :: "hooks \<Rightarrow> string \<Rightarrow> rat option \<Rightarrow> rat option \<Rightarrow> nat option \<Rightarrow> world \<Rightarrow> nat \<times> world" where
  "newKeypoint hk nm x y par w =
     (case newEntity hk Keypoint nm par True w of
        (e, w1) \<Rightarrow>
          (e, upd e (\<lambda>en. en\<lparr>position := (if x \<noteq> None \<and> y \<noteq> None then Some \<lparr>px = x, py = y\<rparr> else None),
                              radius := 5, shape := None\<rparr>) w1))"

definition newBone :: "hooks \<Rightarrow> string \<Rightarrow> nat \<Rightarrow> nat \<Rightarrow> nat option \<Rightarrow> world \<Rightarrow> nat \<times> world" where
  "newBone hk nm startKeypoint endKeypoint par w =
     (case newEntity hk Bone nm par True w of
        (e, w1) \<Rightarrow> (e, upd e (\<lambda>en. en\<lparr>startKp := startKeypoint, endKp := endKeypoint, shape := None\<rparr>) w1))"

definition newLimb :: "hooks \<Rightarrow> string \<Rightarrow> nat option \<Rightarrow> world \<Rightarrow> nat \<times> world" where
  "newLimb hk nm par w = newEntity hk Limb nm par True w"

text \<open>The constructor of \<open>Drawable\<close>, which takes the lock that \<open>create\<close> releases.\<close>

definition newDrawable ::
  "hooks \<Rightarrow> kind \<Rightarrow> string \<Rightarrow> rat option \<Rightarrow> rat option \<Rightarrow> rat option \<Rightarrow> rat option \<Rightarrow> nat option \<Rightarrow> string \<Rightarrow> bool
     \<Rightarrow> world \<Rightarrow> nat \<times> world" where
  "newDrawable hk k nm cx cy width height par fmt withLock w =
     (case newEntity hk k nm par withLock w of
        (e, w1) \<Rightarrow>
          (e, upd e (\<lambda>en. en\<lparr>keypointsDict := [], limbs := [], alpha := Some 1, format := fmt,
                              originalBBox := \<lparr>bbox_x = cx, bbox_y = cy, bbox_width = width, bbox_height = height\<rparr>\<rparr>)
                (lockStateChange e w1)))"

definition newScene :: "hooks \<Rightarrow> string \<Rightarrow> world \<Rightarrow> nat \<times> world" where
  "newScene hk nm w =
     (case newEntity hk Scene nm None True w of
        (e, w1) \<Rightarrow> (e, upd e (\<lambda>en. en\<lparr>poseLayers := []\<rparr>) w1))"

text \<open>
  \<open>destroy\<close>, with the overrides of \<open>Keypoint\<close>, \<open>Bone\<close> and \<open>DistortableImage\<close>. The
  last one starts with \<open>kp.shape.off(...)\<close> for each of its keypoints, a \<open>TypeError\<close> when
  a keypoint has no shape.
\<close>

fun destroyRec :: "nat \<Rightarrow> nat \<Rightarrow> world \<Rightarrow> outcome" where
  "destroyRec 0 e w = Returned w"
| "destroyRec (Suc n) e w =
     (if kind (ent w e) = DistortableImage \<and> list_ex (\<lambda>kp. shape (ent w kp) = None) (getAllKeypoints w e)
      then Threw ''TypeError'' w
      else
        let w1 = (if kind (ent w e) = Keypoint \<or> kind (ent w e) = Bone
                  then upd e (\<lambda>en. en\<lparr>shape := None\<rparr>) w
                  else if kind (ent w e) = DistortableImage
                  then upd e (\<lambda>en. en\<lparr>image := False\<rparr>) w
                  else w);
            w2 = upd e (\<lambda>en. en\<lparr>isDestroyed := True\<rparr>) w1
        in andThen (forEach (destroyRec n) (children (ent w2 e)) w2)
             (\<lambda>w3. Returned (upd e (\<lambda>en. en\<lparr>children := []\<rparr>) w3)))"

definition destroy :: "nat \<Rightarrow> world \<Rightarrow> outcome" where
  "destroy e w = destroyRec (length (ents w)) e w"

subsection \<open>Scene\<close>

definition drawables :: "world \<Rightarrow> nat \<Rightarrow> nat list" where
  "drawables w scene = filter (\<lambda>child. isDrawable (ent w child)) (children (ent w scene))"

definition persons :: "world \<Rightarrow> nat \<Rightarrow> nat list" where
  "persons w scene = filter (\<lambda>d. kind (ent w d) = Person) (drawables w scene)"

definition images :: "world \<Rightarrow> nat \<Rightarrow> nat list" where
  "images w scene = filter (\<lambda>d. kind (ent w d) = DistortableImage) (drawables w scene)"

definition PoseLayer_removeDrawable :: "nat \<Rightarrow> poseLayer \<Rightarrow> poseLayer" where
  "PoseLayer_removeDrawable drawable pl = pl\<lparr>pl_drawables := remove1 drawable (pl_drawables pl)\<rparr>"

definition removeDrawable :: "hooks \<Rightarrow> nat \<Rightarrow> nat \<Rightarrow> world \<Rightarrow> outcome" where
  "removeDrawable hk scene drawable w =
     (if drawable \<in> set (drawables w scene)
      then
        let w1 = removeChild hk scene drawable w;
            w2 = upd scene (\<lambda>en. en\<lparr>poseLayers := map (PoseLayer_removeDrawable drawable) (poseLayers en)\<rparr>) w1
        in destroy drawable w2
      else Returned w)"

section \<open>Skeleton templates\<close>

text \<open>
  The processed skeleton data of \<open>SkeletonDataAccess\<close>: flat \<open>positions\<close> and \<open>edges\<close>
  arrays, vertex \<open>names\<close>, \<open>limbs\<close> as vertex-index arrays with their \<open>limbNames\<close>, and
  the natural bounds. An index past the end of an array reads \<open>undefined\<close>, which the
  source treats like \<open>null\<close> for a position and prints as \<open>undefined\<close> for a name.
\<close>

record naturalBounds =
  nb_minX :: rat
  nb_minY :: rat
  nb_width :: rat
  nb_height :: rat

record skeletonData =
  sk_positions :: "rat option list"
  sk_edges :: "nat list"
  sk_names :: "string list"
  sk_limbs :: "nat list list"
  sk_limbNames :: "string list"
  sk_naturalBounds :: "naturalBounds option"
  sk_format :: "string option"

definition rawPosition :: "skeletonData \<Rightarrow> nat \<Rightarrow> rat option" where
  "rawPosition sd i = (if i < length (sk_positions sd) then sk_positions sd ! i else None)"

definition vertexName :: "skeletonData \<Rightarrow> nat \<Rightarrow> string" where
  "vertexName sd i = (if i < length (sk_names sd) then sk_names sd ! i else ''undefined'')"

definition nonZero :: "rat option \<Rightarrow> bool" where
  "nonZero v = (v \<noteq> None \<and> v \<noteq> Some 0)"

definition getVertexPosition :: "skeletonData \<Rightarrow> nat \<Rightarrow> bbox \<Rightarrow> point" where
  "getVertexPosition sd index box =
     (let rawX = rawPosition sd (index * 2);
          rawY = rawPosition sd (index * 2 + 1)
      in if rawX = None \<and> rawY = None then \<lparr>px = None, py = None\<rparr>
         else
           (case (if nonZero (bbox_width box) \<and> nonZero (bbox_height box) then sk_naturalBounds sd else None) of
              Some nb \<Rightarrow>
                (let scaleX = (if nb_width nb \<noteq> 0 then toNum (bbox_width box) / nb_width nb else 1);
                     scaleY = (if nb_height nb \<noteq> 0 then toNum (bbox_height box) / nb_height nb else 1)
                 in \<lparr>px = Some (toNum (bbox_x box) + (toNum rawX - nb_minX nb) * scaleX),
                     py = Some (toNum (bbox_y box) + (toNum rawY - nb_minY nb) * scaleY)\<rparr>)
            | None \<Rightarrow>
                \<lparr>px = Some (toNum rawX + toNum (bbox_x box)),
                 py = Some (toNum rawY + toNum (bbox_y box))\<rparr>))"

definition getEdge :: "skeletonData \<Rightarrow> nat \<Rightarrow> nat \<times> nat" where
  "getEdge sd edgeIndex = (sk_edges sd ! (edgeIndex * 2), sk_edges sd ! (edgeIndex * 2 + 1))"

record boneSpec =
  bs_name :: string
  bs_start :: string
  bs_end :: string

record limbSpec =
  lm_name :: string
  lm_bones :: "boneSpec list"

record skeleton =
  s_names :: "string list"
  s_positions :: "point list"
  s_limbs :: "limbSpec list"

text \<open>
  \<open>Drawable.buildStructure\<close>. \<open>None\<close> stands for the exceptions it can end in: the
  template failed to load (\<open>loadSkeletonData\<close> returned \<open>undefined\<close>), or a limb name has
  no vertex set while there is a bone to test against it. \<open>templates\<close> is the content of
  the data files, by format identifier.
\<close>

definition allBones :: "skeletonData \<Rightarrow> (boneSpec \<times> nat \<times> nat) list" where
  "allBones sd =
     map (\<lambda>i. case getEdge sd i of
                 (startIdx, endIdx) \<Rightarrow>
                   (\<lparr>bs_name = vertexName sd startIdx @ ''To'' @ vertexName sd endIdx,
                     bs_start = vertexName sd startIdx, bs_end = vertexName sd endIdx\<rparr>,
                    startIdx, endIdx))
       [0 ..< length (sk_edges sd) div 2]"

definition inLimb :: "nat list \<Rightarrow> boneSpec \<times> nat \<times> nat \<Rightarrow> bool" where
  "inLimb vertexSet b = (fst (snd b) \<in> set vertexSet \<and> snd (snd b) \<in> set vertexSet)"

definition vertexSetAt :: "skeletonData \<Rightarrow> nat \<Rightarrow> nat list" where
  "vertexSetAt sd limbIndex = (if limbIndex < length (sk_limbs sd) then sk_limbs sd ! limbIndex else [])"

definition buildStructure ::
  "(string \<Rightarrow> skeletonData option) \<Rightarrow> string \<Rightarrow> rat option \<Rightarrow> rat option \<Rightarrow> rat option \<Rightarrow> rat option
     \<Rightarrow> skeletonData option \<Rightarrow> skeleton option" where
  "buildStructure templates fmt cx cy width height personData =
     (case (if personData = None then templates fmt else personData) of
        None \<Rightarrow> None
      | Some sd \<Rightarrow>
          (let bones = allBones sd
           in if bones \<noteq> [] \<and> length (sk_limbs sd) < length (sk_limbNames sd) then None
              else
                let named = map (\<lambda>limbIndex.
                                   \<lparr>lm_name = sk_limbNames sd ! limbIndex,
                                    lm_bones = map fst (filter (inLimb (vertexSetAt sd limbIndex)) bones)\<rparr>)
                              [0 ..< length (sk_limbNames sd)];
                    assigned = (\<lambda>b. list_ex (\<lambda>vertexSet. inLimb vertexSet b)
                                        (take (length (sk_limbNames sd)) (sk_limbs sd)));
                    othersBones = map fst (filter (\<lambda>b. \<not> assigned b) bones)
                in Some
                     \<lparr>s_names = sk_names sd,
                      s_positions = map (\<lambda>i. getVertexPosition sd i
                                           \<lparr>bbox_x = cx, bbox_y = cy, bbox_width = width, bbox_height = height\<rparr>)
                                      [0 ..< length (sk_names sd)],
                      s_limbs = (if othersBones \<noteq> [] then named @ [\<lparr>lm_name = ''Others'', lm_bones = othersBones\<rparr>]
                                 else named)\<rparr>))"

section \<open>Building a Drawable\<close>

definition markDetail :: "string \<Rightarrow> nat \<Rightarrow> world \<Rightarrow> world" where
  "markDetail nm kp w =
     (if isDetailName nm
      then setFillColor kp (Some ''gray'') (setStrokeColor kp (Some ''gray'') (setRadius kp 1 True w))
      else w)"

text \<open>
  The loop over the vertex names of \<open>buildSkeleton\<close>; the flag is \<open>skeletonExists\<close>.
  \<open>name in this.keypointsDict\<close> is read as a lookup of the dictionary's own keys.
\<close>

definition buildKeypoint :: "hooks \<Rightarrow> nat \<Rightarrow> string \<times> point \<Rightarrow> world \<times> bool \<Rightarrow> world \<times> bool" where
  "buildKeypoint hk e np st =
     (case np of
        (nm, pos) \<Rightarrow>
          (case st of
             (w, skeletonExists) \<Rightarrow>
               (case map_of (keypointsDict (ent w e)) nm of
                  None \<Rightarrow>
                    (case newKeypoint hk nm (px pos) (py pos) (Some e) w of
                       (kp, w1) \<Rightarrow>
                         (markDetail nm kp
                            (upd e (\<lambda>en. en\<lparr>keypointsDict := keypointsDict en @ [(nm, kp)]\<rparr>) w1),
                          skeletonExists))
                | Some kp \<Rightarrow>
                    (markDetail nm kp (Keypoint__setPosition kp (Some pos) True w), True))))"

definition buildBone :: "hooks \<Rightarrow> nat \<Rightarrow> nat \<Rightarrow> boneSpec \<Rightarrow> world \<Rightarrow> world" where
  "buildBone hk e limbObj b w =
     (case (map_of (keypointsDict (ent w e)) (bs_start b), map_of (keypointsDict (ent w e)) (bs_end b)) of
        (Some startKeypoint, Some endKeypoint) \<Rightarrow>
          (case newBone hk (bs_name b) startKeypoint endKeypoint (Some limbObj) w of
             (boneEn, w1) \<Rightarrow>
               if isDetailName (bs_name b)
               then setStrokeWidth boneEn (Some 1) (setStrokeColor boneEn (Some ''gray'') w1)
               else w1)
      | _ \<Rightarrow> w)"

definition buildLimb :: "hooks \<Rightarrow> nat \<Rightarrow> limbSpec \<Rightarrow> world \<Rightarrow> world" where
  "buildLimb hk e lm w =
     (case newLimb hk (lm_name lm) (Some e) w of
        (limbObj, w1) \<Rightarrow>
          fold (buildBone hk e limbObj) (lm_bones lm)
            (upd e (\<lambda>en. en\<lparr>limbs := limbs en @ [limbObj]\<rparr>) w1))"

text \<open>
  \<open>Drawable.buildSkeleton\<close>. An exception of \<open>buildStructure\<close> is caught and logged, and
  the drawable is left as it was.
\<close>

definition buildSkeleton ::
  "hooks \<Rightarrow> (string \<Rightarrow> skeletonData option) \<Rightarrow> nat \<Rightarrow> rat option \<Rightarrow> rat option \<Rightarrow> rat option \<Rightarrow> rat option
     \<Rightarrow> skeletonData option \<Rightarrow> world \<Rightarrow> world" where
  "buildSkeleton hk templates e cx cy width height personData w =
     (case buildStructure templates (format (ent w e)) cx cy width height personData of
        None \<Rightarrow> w
      | Some skeleton \<Rightarrow>
          (case fold (buildKeypoint hk e) (zip (s_names skeleton) (s_positions skeleton)) (w, False) of
             (w1, skeletonExists) \<Rightarrow>
               changeState hk True e
                 (if skeletonExists then w1 else fold (buildLimb hk e) (s_limbs skeleton) w1)))"

definition resetPose ::
  "hooks \<Rightarrow> (string \<Rightarrow> skeletonData option) \<Rightarrow> nat \<Rightarrow> rat option \<Rightarrow> rat option \<Rightarrow> rat option \<Rightarrow> rat option
     \<Rightarrow> world \<Rightarrow> world" where
  "resetPose hk templates e x y width height w =
     (let box = originalBBox (ent w e)
      in buildSkeleton hk templates e
           (if x \<noteq> None then x else bbox_x box) (if y \<noteq> None then y else bbox_y box)
           (if width \<noteq> None then width else bbox_width box)
           (if height \<noteq> None then height else bbox_height box) None w)"

text \<open>\<open>Person.create\<close> (the static \<open>Drawable.create\<close>).\<close>

definition Person_create ::
  "hooks \<Rightarrow> (string \<Rightarrow> skeletonData option) \<Rightarrow> string \<Rightarrow> rat option \<Rightarrow> rat option \<Rightarrow> rat option \<Rightarrow> rat option
     \<Rightarrow> nat option \<Rightarrow> string \<Rightarrow> skeletonData option \<Rightarrow> world \<Rightarrow> nat \<times> world" where
  "Person_create hk templates nm cx cy width height par fmt personData w =
     (case newDrawable hk Person nm cx cy width height par fmt True w of
        (obj, w1) \<Rightarrow>
          (obj, unlockStateChange obj (buildSkeleton hk templates obj cx cy width height personData w1)))"

text \<open>
  \<open>DistortableImage.loadImage()\<close> as \<open>create\<close> calls it, without arguments. \<open>imageSizes\<close>
  gives the natural size of the image at a path, \<open>None\<close> when it fails to load; \<open>create\<close>
  catches that failure. The source starts \<open>resetPose\<close> in the \<open>onload\<close> handler without
  awaiting it; the model runs it there to completion.
\<close>

definition loadImage ::
  "hooks \<Rightarrow> (string \<Rightarrow> skeletonData option) \<Rightarrow> (string \<Rightarrow> (rat \<times> rat) option) \<Rightarrow> nat \<Rightarrow> world \<Rightarrow> world" where
  "loadImage hk templates imageSizes e w =
     (case imagePath (ent w e) of
        None \<Rightarrow> upd e (\<lambda>en. en\<lparr>image := False, imageNaturalSize := None\<rparr>) w
      | Some path \<Rightarrow>
          (let w1 = upd e (\<lambda>en. en\<lparr>image := True\<rparr>) w
           in case imageSizes path of
                None \<Rightarrow> w1
              | Some natural \<Rightarrow>
                  (let w2 = upd e (\<lambda>en. en\<lparr>imageNaturalSize := Some natural\<rparr>) w1;
                       imageSize = (case constrainedImageSize (ent w2 e) of Some c \<Rightarrow> c | None \<Rightarrow> natural)
                   in resetPose hk templates e None None (Some (fst imageSize)) (Some (snd imageSize)) w2)))"

definition DistortableImage_create ::
  "hooks \<Rightarrow> (string \<Rightarrow> skeletonData option) \<Rightarrow> (string \<Rightarrow> (rat \<times> rat) option) \<Rightarrow> string
     \<Rightarrow> rat option \<Rightarrow> rat option \<Rightarrow> rat option \<Rightarrow> rat option \<Rightarrow> string option \<Rightarrow> nat option \<Rightarrow> world \<Rightarrow> nat \<times> world" where
  "DistortableImage_create hk templates imageSizes nm cx cy width height path par w =
     (case newDrawable hk DistortableImage nm cx cy width height par ''IMAGE'' True w of
        (obj, w1) \<Rightarrow>
          (let w2 = upd obj (\<lambda>en. en\<lparr>imagePath := path, image := False,
                                      constrainedImageSize := None, imageNaturalSize := None\<rparr>) w1;
               w3 = buildSkeleton hk templates obj cx cy width height None w2
           in (obj, unlockStateChange obj (loadImage hk templates imageSizes obj w3))))"

definition COLORS :: "string list" where
  "COLORS = [''black'', ''blue'', ''green'', ''red'', ''purple'', ''orange'', ''cyan'', ''magenta'', ''brown'']"

definition falsy :: "string option \<Rightarrow> bool" where
  "falsy s = (s = None \<or> s = Some [])"

text \<open>\<open>Scene.addPerson(bbox, personData, {strokeColor, fillColor, format})\<close>.\<close>

definition addPerson ::
  "hooks \<Rightarrow> (string \<Rightarrow> skeletonData option) \<Rightarrow> nat \<Rightarrow> bbox \<Rightarrow> skeletonData option
     \<Rightarrow> string option \<Rightarrow> string option \<Rightarrow> string \<Rightarrow> world \<Rightarrow> nat \<times> world" where
  "addPerson hk templates scene box personData strokeCol fillCol fmt w =
     (let personNum = length (persons w scene) + 1
      in case Person_create hk templates (''Person'' @ showNat personNum)
                (bbox_x box) (bbox_y box) (bbox_width box) (bbox_height box) (Some scene) fmt personData
                (lockStateChange scene w) of
           (person, w1) \<Rightarrow>
             (let colorArr = filter (\<lambda>color. Some color \<noteq> fillCol) COLORS;
                  col = (if falsy strokeCol then Some (colorArr ! ((personNum - 1) mod length colorArr))
                         else strokeCol);
                  w2 = setFillColor person fillCol (setStrokeColor person col w1)
              in (person, changeState hk True person (unlockStateChange scene w2))))"

text \<open>\<open>Scene.addImage(bbox, imagePath, {strokeColor, fillColor})\<close>.\<close>

definition addImage ::
  "hooks \<Rightarrow> (string \<Rightarrow> skeletonData option) \<Rightarrow> (string \<Rightarrow> (rat \<times> rat) option) \<Rightarrow> nat \<Rightarrow> bbox \<Rightarrow> string option
     \<Rightarrow> string option \<Rightarrow> string option \<Rightarrow> world \<Rightarrow> nat \<times> world" where
  "addImage hk templates imageSizes scene box path strokeCol fillCol w =
     (let imageNum = length (images w scene) + 1
      in case DistortableImage_create hk templates imageSizes (''Image'' @ showNat imageNum)
                (bbox_x box) (bbox_y box) (bbox_width box) (bbox_height box) path (Some scene)
                (lockStateChange scene w) of
           (img, w1) \<Rightarrow>
             (let w2 = (case (bbox_width box, bbox_height box) of
                          (Some bw, Some bh) \<Rightarrow> upd img (\<lambda>en. en\<lparr>constrainedImageSize := Some (bw, bh)\<rparr>) w1
                        | _ \<Rightarrow> w1);
                  col = (if falsy strokeCol then Some (COLORS ! ((imageNum - 1) mod length COLORS))
                         else strokeCol);
                  w3 = setFillColor img fillCol (setStrokeColor img col w2)
              in (img, changeState hk True img (unlockStateChange scene w3))))"

section \<open>The revision manager\<close>

subsection \<open>Capturing state\<close>

text \<open>Assignment \<open>obj[key] = value\<close> and \<open>Map.set\<close>: a present key keeps its place.\<close>

fun setKey :: "'k \<Rightarrow> 'v \<Rightarrow> ('k \<times> 'v) list \<Rightarrow> ('k \<times> 'v) list" where
  "setKey k v [] = [(k, v)]"
| "setKey k v (kv # kvs) = (if fst kv = k then (k, v) # kvs else kv # setKey k v kvs)"

definition deleteKey :: "'k \<Rightarrow> ('k \<times> 'v) list \<Rightarrow> ('k \<times> 'v) list" where
  "deleteKey k kvs = filter (\<lambda>kv. fst kv \<noteq> k) kvs"

definition getConstructionArgs :: "world \<Rightarrow> nat \<Rightarrow> constructionArgs" where
  "getConstructionArgs w drawable =
     (let en = ent w drawable
      in \<lparr>ca_name = name en, ca_originalBBox = originalBBox en,
          ca_format = (if kind en = Person then Some (format en) else None),
          ca_imagePath = (if kind en = DistortableImage then imagePath en else None),
          ca_constrainedImageSize = (if kind en = DistortableImage then constrainedImageSize en else None)\<rparr>)"

definition captureChild :: "world \<Rightarrow> nat \<Rightarrow> childState" where
  "captureChild w child =
     \<lparr>cs_position = (if kind (ent w child) = Keypoint then Keypoint_getPosition w child else None),
      cs_visible = getVisible w child None,
      cs_strokeColor = strokeColor (ent w child),
      cs_fillColor = fillColor (ent w child)\<rparr>"

definition layerIdOf :: "world \<Rightarrow> nat \<Rightarrow> string" where
  "layerIdOf w lay = layer_id (konvaLayers w ! lay)"

definition captureDrawableState :: "world \<Rightarrow> nat \<Rightarrow> drawableState" where
  "captureDrawableState w drawable =
     \<lparr>st_type = kind (ent w drawable),
      st_uuid = uuid (ent w drawable),
      st_constructionArgs = getConstructionArgs w drawable,
      st_attributes =
        \<lparr>a_visible = getVisible w drawable None,
         a_alpha = alpha (ent w drawable),
         a_fillColor = fillColor (ent w drawable),
         a_strokeColor = strokeColor (ent w drawable),
         a_layer = map_option (layerIdOf w) (layer (ent w drawable))\<rparr>,
      st_children =
        fold (\<lambda>child acc. if child = drawable then acc
                           else setKey (name (ent w child)) (captureChild w child) acc)
          (traverseChildren w drawable) []\<rparr>"

text \<open>\<open>captureLayerState\<close> of the pose layer at \<open>index\<close> of \<open>scene.poseLayers\<close>.\<close>

definition captureLayerState :: "world \<Rightarrow> nat \<Rightarrow> nat \<Rightarrow> layerState" where
  "captureLayerState w scene index =
     (let pl = poseLayers (ent w scene) ! index;
          lay = konvaLayers w ! pl_layer pl
      in \<lparr>ls_layerId = layer_id lay, ls_layerName = layer_name lay, ls_layerIndex = index,
          ls_visible = layer_visible lay, ls_opacity = layer_opacity lay,
          ls_drawables = map (\<lambda>d. uuid (ent w d)) (pl_drawables pl)\<rparr>)"

definition updRm :: "(revisionManager \<Rightarrow> revisionManager) \<Rightarrow> world \<Rightarrow> world" where
  "updRm f w = w\<lparr>rm := f (rm w)\<rparr>"

text \<open>Storing a freshly captured layer state and entering it in the layer snapshot.\<close>

definition snapshotLayer :: "nat \<Rightarrow> world \<Rightarrow> world" where
  "snapshotLayer index w =
     (let state = captureLayerState w (rm_scene (rm w)) index;
          ref = length (layerStates w)
      in updRm (\<lambda>r. r\<lparr>layerSnapshot := setKey (ls_layerId state) ref (layerSnapshot r)\<rparr>)
           (w\<lparr>layerStates := layerStates w @ [state]\<rparr>))"

definition initializeSnapshot :: "world \<Rightarrow> world" where
  "initializeSnapshot w =
     (let scene = rm_scene (rm w);
          w1 = updRm (\<lambda>r. r\<lparr>snapshot :=
                 fold (\<lambda>d acc. setKey (uuid (ent w d)) (captureDrawableState w d) acc) (drawables w scene) []\<rparr>) w;
          w2 = updRm (\<lambda>r. r\<lparr>layerSnapshot := []\<rparr>) w1
      in fold snapshotLayer [0 ..< length (poseLayers (ent w2 scene))] w2)"

subsection \<open>Diffing\<close>

definition deltaOf :: "'a \<Rightarrow> 'a \<Rightarrow> 'a delta option" where
  "deltaOf a b = (if a \<noteq> b then Some (Delta a b) else None)"

definition attributesChanged :: "attributesDiff \<Rightarrow> bool" where
  "attributesChanged ad =
     (ad_visible ad \<noteq> None \<or> ad_alpha ad \<noteq> None \<or> ad_fillColor ad \<noteq> None
      \<or> ad_strokeColor ad \<noteq> None \<or> ad_layer ad \<noteq> None)"

definition childChanged :: "childDiff \<Rightarrow> bool" where
  "childChanged cd =
     (cd_position cd \<noteq> None \<or> cd_visible cd \<noteq> None \<or> cd_strokeColor cd \<noteq> None \<or> cd_fillColor cd \<noteq> None)"

definition diffChild :: "childState \<Rightarrow> childState \<Rightarrow> childDiff" where
  "diffChild oldChild newChild =
     \<lparr>cd_position = deltaOf (cs_position oldChild) (cs_position newChild),
      cd_visible = deltaOf (cs_visible oldChild) (cs_visible newChild),
      cd_strokeColor = deltaOf (cs_strokeColor oldChild) (cs_strokeColor newChild),
      cd_fillColor = deltaOf (cs_fillColor oldChild) (cs_fillColor newChild)\<rparr>"

text \<open>
  \<open>diffStates\<close>. The comparison of \<open>JSON.stringify\<close> renderings is equality of the values:
  both sides are booleans, strings, exact numbers, \<open>null\<close> or \<open>{x, y}\<close> objects.
\<close>

definition diffStates :: "drawableState \<Rightarrow> drawableState \<Rightarrow> diff option" where
  "diffStates oldState newState =
     (let old = st_attributes oldState;
          new = st_attributes newState;
          ad = \<lparr>ad_visible = deltaOf (a_visible old) (a_visible new),
                ad_alpha = deltaOf (a_alpha old) (a_alpha new),
                ad_fillColor = deltaOf (a_fillColor old) (a_fillColor new),
                ad_strokeColor = deltaOf (a_strokeColor old) (a_strokeColor new),
                ad_layer = deltaOf (a_layer old) (a_layer new)\<rparr>;
          cds = List.map_filter
                  (\<lambda>entry. case map_of (st_children oldState) (fst entry) of
                              None \<Rightarrow> None
                            | Some oldChild \<Rightarrow>
                                (let cd = diffChild oldChild (snd entry)
                                 in if childChanged cd then Some (fst entry, cd) else None))
                  (st_children newState)
      in if attributesChanged ad \<or> cds \<noteq> [] then Some \<lparr>d_attributes = ad, d_children = cds\<rparr> else None)"

subsection \<open>Capture on a change notification\<close>

definition layerStateRemove :: "string \<Rightarrow> nat \<Rightarrow> world \<Rightarrow> world" where
  "layerStateRemove layerId u w =
     (case map_of (layerSnapshot (rm w)) layerId of
        None \<Rightarrow> w
      | Some ref \<Rightarrow>
          w\<lparr>layerStates := (layerStates w)[ref :=
               (layerStates w ! ref)\<lparr>ls_drawables := remove1 u (ls_drawables (layerStates w ! ref))\<rparr>]\<rparr>)"

definition layerStateInclude :: "string \<Rightarrow> nat \<Rightarrow> world \<Rightarrow> world" where
  "layerStateInclude layerId u w =
     (case map_of (layerSnapshot (rm w)) layerId of
        None \<Rightarrow> w
      | Some ref \<Rightarrow>
          if u \<in> set (ls_drawables (layerStates w ! ref)) then w
          else w\<lparr>layerStates := (layerStates w)[ref :=
                 (layerStates w ! ref)\<lparr>ls_drawables := ls_drawables (layerStates w ! ref) @ [u]\<rparr>]\<rparr>)"

definition layerStatePush :: "string \<Rightarrow> nat \<Rightarrow> world \<Rightarrow> world" where
  "layerStatePush layerId u w =
     (case map_of (layerSnapshot (rm w)) layerId of
        None \<Rightarrow> w
      | Some ref \<Rightarrow>
          w\<lparr>layerStates := (layerStates w)[ref :=
               (layerStates w ! ref)\<lparr>ls_drawables := ls_drawables (layerStates w ! ref) @ [u]\<rparr>]\<rparr>)"

text \<open>
  \<open>detectLayerChanges\<close>; like the steps of \<open>handleStateChange\<close> below it threads the world
  and the list \<open>changes\<close>.
\<close>

definition detectLayerDestruction :: "string list \<Rightarrow> string \<Rightarrow> world \<times> change list \<Rightarrow> world \<times> change list" where
  "detectLayerDestruction currentLayerIds layerId st =
     (case st of
        (w, changes) \<Rightarrow>
          if layerId \<in> set currentLayerIds then (w, changes)
          else (case map_of (layerSnapshot (rm w)) layerId of
                  None \<Rightarrow> (w, changes)
                | Some oldState \<Rightarrow>
                    (updRm (\<lambda>r. r\<lparr>layerSnapshot := deleteKey layerId (layerSnapshot r)\<rparr>) w,
                     changes @ [LayerDestroy layerId oldState])))"

definition detectLayerCreation :: "string list \<Rightarrow> nat \<Rightarrow> world \<times> change list \<Rightarrow> world \<times> change list" where
  "detectLayerCreation snapshotLayerIds index st =
     (case st of
        (w, changes) \<Rightarrow>
          if layerIdOf w (pl_layer (poseLayers (ent w (rm_scene (rm w))) ! index)) \<in> set snapshotLayerIds
          then (w, changes)
          else (snapshotLayer index w,
                changes @ [LayerCreate (ls_layerId (captureLayerState w (rm_scene (rm w)) index))
                                       (length (layerStates w))]))"

definition detectLayerChanges :: "world \<Rightarrow> world \<times> change list" where
  "detectLayerChanges w =
     (let scene = rm_scene (rm w);
          currentLayerIds = map (\<lambda>pl. layerIdOf w (pl_layer pl)) (poseLayers (ent w scene));
          snapshotLayerIds = map fst (layerSnapshot (rm w))
      in fold (detectLayerCreation snapshotLayerIds) [0 ..< length (poseLayers (ent w scene))]
           (fold (detectLayerDestruction currentLayerIds) snapshotLayerIds (w, [])))"

definition detectDestruction :: "nat list \<Rightarrow> nat \<Rightarrow> world \<times> change list \<Rightarrow> world \<times> change list" where
  "detectDestruction currentUUIDs u st =
     (case st of
        (w, changes) \<Rightarrow>
          if u \<in> set currentUUIDs then (w, changes)
          else (case map_of (snapshot (rm w)) u of
                  None \<Rightarrow> (w, changes)
                | Some oldState \<Rightarrow>
                    (let w1 = updRm (\<lambda>r. r\<lparr>snapshot := deleteKey u (snapshot r)\<rparr>) w
                     in ((case a_layer (st_attributes oldState) of
                            None \<Rightarrow> w1
                          | Some layerId \<Rightarrow> if layerId = [] then w1 else layerStateRemove layerId u w1),
                         changes @ [Destroy u oldState]))))"

definition detectDrawable :: "nat list \<Rightarrow> nat \<Rightarrow> world \<times> change list \<Rightarrow> world \<times> change list" where
  "detectDrawable snapshotUUIDs d st =
     (case st of
        (w, changes) \<Rightarrow>
          (let u = uuid (ent w d)
           in if u \<notin> set snapshotUUIDs
              then
                (let state = captureDrawableState w d;
                     w1 = updRm (\<lambda>r. r\<lparr>snapshot := setKey u state (snapshot r)\<rparr>) w
                 in ((case layer (ent w1 d) of
                        None \<Rightarrow> w1
                      | Some lay \<Rightarrow> layerStatePush (layerIdOf w1 lay) u w1),
                     changes @ [Create u state]))
              else if stateChangedOf w d
              then
                (case map_of (snapshot (rm w)) u of
                   None \<Rightarrow> (w, changes)
                 | Some oldState \<Rightarrow>
                     (let newState = captureDrawableState w d
                      in case diffStates oldState newState of
                           None \<Rightarrow> (w, changes)
                         | Some df \<Rightarrow>
                             (updRm (\<lambda>r. r\<lparr>snapshot := setKey u newState (snapshot r)\<rparr>) w,
                              changes @ [Modify u df])))
              else (w, changes)))"

fun resetStateFlagsRec :: "nat \<Rightarrow> nat \<Rightarrow> world \<Rightarrow> world" where
  "resetStateFlagsRec 0 e w = w"
| "resetStateFlagsRec (Suc n) e w =
     (let w1 = upd e (\<lambda>en. en\<lparr>stateChanged := False\<rparr>) w
      in fold (resetStateFlagsRec n) (children (ent w1 e)) w1)"

definition resetStateFlags :: "nat \<Rightarrow> world \<Rightarrow> world" where
  "resetStateFlags e w = resetStateFlagsRec (length (ents w)) e w"

text \<open>The push of a transaction: clear the redo stack and enforce \<open>max_history\<close>.\<close>

definition pushTransaction :: "change list \<Rightarrow> revisionManager \<Rightarrow> revisionManager" where
  "pushTransaction changes r =
     (let pushed = history r @ [changes]
      in r\<lparr>history := (if max_history r \<noteq> 0 \<and> int (length pushed) > max_history r
                         then drop (nat (int (length pushed) - max_history r)) pushed
                         else pushed),
            redoStack := []\<rparr>)"

text \<open>
  \<open>handleStateChange\<close>: \<open>detectChanges\<close> is its steps 1 to 4, which fill the list
  \<open>changes\<close>. A snapshot entry for the identifier of a current drawable that
  was in the snapshot at the start is still there at step 4; the \<open>None\<close> branches of
  \<open>detectDrawable\<close> and \<open>detectDestruction\<close> are not reached.
\<close>

definition detectChanges :: "world \<Rightarrow> world \<times> change list" where
  "detectChanges w =
     (let scene = rm_scene (rm w);
          currentDrawables = drawables w scene;
          currentUUIDs = map (\<lambda>d. uuid (ent w d)) currentDrawables;
          snapshotUUIDs = map fst (snapshot (rm w));
          st1 = detectLayerChanges w;
          st2 = fold (detectDestruction currentUUIDs) snapshotUUIDs st1
      in fold (detectDrawable snapshotUUIDs) currentDrawables st2)"

definition handleStateChange :: "world \<Rightarrow> world" where
  "handleStateChange w =
     (if isUndoing (rm w) then w
      else
        let st = detectChanges w;
            changes = snd st;
            w1 = (if changes \<noteq> [] then updRm (pushTransaction changes) (fst st) else fst st)
        in resetStateFlags (rm_scene (rm w)) w1)"

text \<open>The hook that \<open>init\<close> installs: \<open>scene.onStateChanged = () => this.handleStateChange()\<close>.\<close>

definition installed :: "nat \<Rightarrow> hooks" where
  "installed scene = (\<lambda>s. if s = scene then Some handleStateChange else None)"

subsection \<open>Restoring and replaying\<close>

text \<open>
  \<open>childrenMap\<close>: the traversal assigns \<open>childrenMap[c.name] = c\<close>, so a name maps to the
  last entity of the traversal that bears it.
\<close>

definition childrenMap :: "world \<Rightarrow> nat \<Rightarrow> string \<Rightarrow> nat option" where
  "childrenMap w drawable = map_of (rev (map (\<lambda>c. (name (ent w c), c)) (traverseChildren w drawable)))"

definition applyChildState :: "hooks \<Rightarrow> (string \<Rightarrow> nat option) \<Rightarrow> string \<times> childState \<Rightarrow> world \<Rightarrow> outcome" where
  "applyChildState hk cmap entry w =
     (case cmap (fst entry) of
        None \<Rightarrow> Returned w
      | Some child \<Rightarrow>
          andThen
            (case cs_position (snd entry) of
               None \<Rightarrow> Returned w
             | Some pos \<Rightarrow> setPosition hk child (Some pos) False w)
            (\<lambda>w1.
               let w2 = setVisible child (cs_visible (snd entry)) w1;
                   w3 = (if falsy (cs_strokeColor (snd entry)) then w2
                         else upd child (\<lambda>en. en\<lparr>strokeColor := cs_strokeColor (snd entry)\<rparr>) w2)
               in Returned
                    (if falsy (cs_fillColor (snd entry)) then w3
                     else upd child (\<lambda>en. en\<lparr>fillColor := cs_fillColor (snd entry)\<rparr>) w3)))"

definition applyState :: "hooks \<Rightarrow> nat \<Rightarrow> drawableState \<Rightarrow> world \<Rightarrow> outcome" where
  "applyState hk drawable state w =
     (let a = st_attributes state;
          w1 = (if falsy (a_strokeColor a) then w else setStrokeColor drawable (a_strokeColor a) w);
          w2 = (if falsy (a_fillColor a) then w1 else setFillColor drawable (a_fillColor a) w1);
          w3 = setVisible drawable (a_visible a) w2
      in forEach (applyChildState hk (childrenMap w3 drawable)) (st_children state) w3)"

text \<open>
  \<open>restoreDrawable\<close>. Without a canvas manager the final re-attachment to the target
  layer is skipped.
\<close>

definition restoreDrawable ::
  "hooks \<Rightarrow> (string \<Rightarrow> skeletonData option) \<Rightarrow> (string \<Rightarrow> (rat \<times> rat) option) \<Rightarrow> drawableState \<Rightarrow> world \<Rightarrow> outcome" where
  "restoreDrawable hk templates imageSizes state w =
     (let args = st_constructionArgs state;
          scene = rm_scene (rm w);
          built =
            (if st_type state = Person
             then (case addPerson hk templates scene (ca_originalBBox args) None None (Some ''white'')
                          (case ca_format args of None \<Rightarrow> ''BODY18'' | Some fmt \<Rightarrow> fmt) w of
                     (drawable, w1) \<Rightarrow> (Some drawable, w1))
             else if st_type state = DistortableImage
             then (case addImage hk templates imageSizes scene (ca_originalBBox args) (ca_imagePath args)
                          None (Some ''white'') w of
                     (drawable, w1) \<Rightarrow> (Some drawable, w1))
             else (None, w))
      in case built of
           (None, w1) \<Rightarrow> Returned w1
         | (Some drawable, w1) \<Rightarrow>
             applyState hk drawable state
               (upd drawable (\<lambda>en. en\<lparr>uuid := st_uuid state, name := ca_name args\<rparr>) w1))"

datatype mode = UndoMode | RedoMode

definition pick :: "mode \<Rightarrow> 'a delta \<Rightarrow> 'a" where
  "pick m dl = (if m = UndoMode then dfrom dl else dto dl)"

definition applyChildDiff :: "hooks \<Rightarrow> mode \<Rightarrow> (string \<Rightarrow> nat option) \<Rightarrow> string \<times> childDiff \<Rightarrow> world \<Rightarrow> outcome" where
  "applyChildDiff hk m cmap entry w =
     (case cmap (fst entry) of
        None \<Rightarrow> Returned w
      | Some child \<Rightarrow>
          andThen
            (case cd_position (snd entry) of
               None \<Rightarrow> Returned w
             | Some dl \<Rightarrow> setPosition hk child (pick m dl) True w)
            (\<lambda>w1.
               let w2 = (case cd_visible (snd entry) of
                           None \<Rightarrow> w1
                         | Some dl \<Rightarrow> setVisible child (pick m dl) w1);
                   w3 = (case cd_fillColor (snd entry) of
                           None \<Rightarrow> w2
                         | Some dl \<Rightarrow> upd child (\<lambda>en. en\<lparr>fillColor := pick m dl\<rparr>) w2)
               in Returned
                    (case cd_strokeColor (snd entry) of
                       None \<Rightarrow> w3
                     | Some dl \<Rightarrow> upd child (\<lambda>en. en\<lparr>strokeColor := pick m dl\<rparr>) w3)))"

text \<open>
  \<open>applyDiff\<close>. The keys of \<open>diff.attributes\<close> come in the order \<open>visible\<close>, \<open>alpha\<close>,
  \<open>fillColor\<close>, \<open>strokeColor\<close>, \<open>layer\<close>; \<open>alpha\<close> has no handler, and without a canvas
  manager \<open>layer\<close> ends in the warning branch.
\<close>

definition applyDiff :: "hooks \<Rightarrow> nat \<Rightarrow> diff \<Rightarrow> mode \<Rightarrow> world \<Rightarrow> outcome" where
  "applyDiff hk drawable df m w =
     (let ad = d_attributes df;
          w1 = (case ad_visible ad of None \<Rightarrow> w | Some dl \<Rightarrow> setVisible drawable (pick m dl) w);
          w2 = (case ad_fillColor ad of None \<Rightarrow> w1 | Some dl \<Rightarrow> setFillColor drawable (pick m dl) w1);
          w3 = (case ad_strokeColor ad of None \<Rightarrow> w2 | Some dl \<Rightarrow> setStrokeColor drawable (pick m dl) w2)
      in forEach (applyChildDiff hk m (childrenMap w3 drawable)) (d_children df) w3)"

definition findDrawable :: "world \<Rightarrow> nat \<Rightarrow> nat option" where
  "findDrawable w u = find (\<lambda>d. uuid (ent w d) = u) (drawables w (rm_scene (rm w)))"

definition truthyId :: "string option \<Rightarrow> string option" where
  "truthyId s = (if falsy s then None else s)"

text \<open>The removal of a live drawable, shared by the undo of a creation and the redo of a destruction.\<close>

definition removeLive :: "hooks \<Rightarrow> nat \<Rightarrow> world \<Rightarrow> outcome" where
  "removeLive hk u w =
     (case findDrawable w u of
        None \<Rightarrow> Returned w
      | Some d \<Rightarrow>
          removeDrawable hk (rm_scene (rm w)) d
            (case layer (ent w d) of
               None \<Rightarrow> w
             | Some lay \<Rightarrow> layerStateRemove (layerIdOf w lay) (uuid (ent w d)) w))"

text \<open>The reconstruction of a drawable, shared by the undo of a destruction and the redo of a creation.\<close>

definition restoreLive ::
  "hooks \<Rightarrow> (string \<Rightarrow> skeletonData option) \<Rightarrow> (string \<Rightarrow> (rat \<times> rat) option) \<Rightarrow> drawableState \<Rightarrow> world \<Rightarrow> outcome" where
  "restoreLive hk templates imageSizes state w =
     andThen (restoreDrawable hk templates imageSizes state w)
       (\<lambda>w1. Returned
                (case truthyId (a_layer (st_attributes state)) of
                   None \<Rightarrow> w1
                 | Some targetLayerId \<Rightarrow> layerStateInclude targetLayerId (st_uuid state) w1))"

definition undoChange ::
  "hooks \<Rightarrow> (string \<Rightarrow> skeletonData option) \<Rightarrow> (string \<Rightarrow> (rat \<times> rat) option) \<Rightarrow> change \<Rightarrow> world \<Rightarrow> outcome" where
  "undoChange hk templates imageSizes c w =
     (case c of
        Create u state \<Rightarrow> removeLive hk u w
      | Destroy u state \<Rightarrow> restoreLive hk templates imageSizes state w
      | Modify u df \<Rightarrow>
          (case findDrawable w u of None \<Rightarrow> Returned w | Some d \<Rightarrow> applyDiff hk d df UndoMode w)
      | LayerCreate layerId state \<Rightarrow> Returned w
      | LayerDestroy layerId state \<Rightarrow> Returned w)"

definition redoChange ::
  "hooks \<Rightarrow> (string \<Rightarrow> skeletonData option) \<Rightarrow> (string \<Rightarrow> (rat \<times> rat) option) \<Rightarrow> change \<Rightarrow> world \<Rightarrow> outcome" where
  "redoChange hk templates imageSizes c w =
     (case c of
        Create u state \<Rightarrow> restoreLive hk templates imageSizes state w
      | Destroy u state \<Rightarrow> removeLive hk u w
      | Modify u df \<Rightarrow>
          (case findDrawable w u of None \<Rightarrow> Returned w | Some d \<Rightarrow> applyDiff hk d df RedoMode w)
      | LayerCreate layerId state \<Rightarrow> Returned w
      | LayerDestroy layerId state \<Rightarrow> Returned w)"

text \<open>
  \<open>undo\<close> and \<open>redo\<close>, run to completion. An exception in a step leaves the manager where
  the step left it, the guard \<open>isUndoing\<close> still set.
\<close>

definition finishReplay :: "world \<Rightarrow> outcome" where
  "finishReplay w =
     Returned (updRm (\<lambda>r. r\<lparr>isUndoing := False\<rparr>)
                 (initializeSnapshot (updateVisibility (rm_scene (rm w)) w)))"

definition undo ::
  "hooks \<Rightarrow> (string \<Rightarrow> skeletonData option) \<Rightarrow> (string \<Rightarrow> (rat \<times> rat) option) \<Rightarrow> world \<Rightarrow> outcome" where
  "undo hk templates imageSizes w =
     (if history (rm w) = [] then Returned w
      else
        let transaction = last (history (rm w));
            w1 = updRm (\<lambda>r. r\<lparr>isUndoing := True, history := butlast (history r),
                                redoStack := redoStack r @ [transaction]\<rparr>) w
        in andThen (forEach (undoChange hk templates imageSizes) (rev transaction) w1) finishReplay)"

definition redo ::
  "hooks \<Rightarrow> (string \<Rightarrow> skeletonData option) \<Rightarrow> (string \<Rightarrow> (rat \<times> rat) option) \<Rightarrow> world \<Rightarrow> outcome" where
  "redo hk templates imageSizes w =
     (if redoStack (rm w) = [] then Returned w
      else
        let transaction = last (redoStack (rm w));
            w1 = updRm (\<lambda>r. r\<lparr>isUndoing := True, redoStack := butlast (redoStack r),
                                history := history r @ [transaction]\<rparr>) w
        in andThen (forEach (redoChange hk templates imageSizes) transaction w1) finishReplay)"

section \<open>Export to OpenPose JSON\<close>

text \<open>
  One exported person, and the two shapes of the result: the object \<open>{people: [...]}\<close> of
  the BODY18 and BODY25 formats, and the array of frames
  \<open>{people, canvas_width, canvas_height}\<close> of BODY18COMFYUI. An \<open>Error\<close> is its message; the
  message of an engine \<open>TypeError\<close> is the placeholder \<open>typeError\<close>.
\<close>

record personJson =
  pose_keypoints_2d :: "rat option list"
  face_keypoints_2d :: "rat option list"
  hand_left_keypoints_2d :: "rat option list"
  hand_right_keypoints_2d :: "rat option list"

datatype exportJson =
    Standard "personJson list"
  | Comfy "(personJson list \<times> rat \<times> rat) list"

definition typeError :: string where
  "typeError = ''TypeError''"

definition confidence :: "world \<Rightarrow> nat \<Rightarrow> rat option" where
  "confidence w kp = (if truthy (getVisible w kp None) then Some 1 else Some 0)"

definition exportKeypoints :: "world \<Rightarrow> nat \<Rightarrow> string \<Rightarrow> rat option list" where
  "exportKeypoints w person keypointType =
     (let selected = filter (\<lambda>entry. startsWith (fst entry) (keypointType @ ''_'')) (keypointsDict (ent w person));
          keypoints = concat (map (\<lambda>entry. case Keypoint_getPosition w (snd entry) of
                                              Some pos \<Rightarrow> [px pos, py pos, confidence w (snd entry)]
                                            | None \<Rightarrow> [Some 0, Some 0, Some 0]) selected);
          hasValidKeypoints = list_ex (\<lambda>entry. Keypoint_getPosition w (snd entry) \<noteq> None) selected
      in if hasValidKeypoints then keypoints else [])"

text \<open>The person object that \<open>createBODY18\<close> pushes; \<open>None\<close> when a listed name has no keypoint.\<close>

definition personEntry :: "world \<Rightarrow> nat \<Rightarrow> skeletonData \<Rightarrow> personJson option" where
  "personEntry w person sd =
     map_option
       (\<lambda>triples.
          \<lparr>pose_keypoints_2d = concat triples,
           face_keypoints_2d = exportKeypoints w person ''Face'',
           hand_left_keypoints_2d = exportKeypoints w person ''LHand'',
           hand_right_keypoints_2d = exportKeypoints w person ''RHand''\<rparr>)
       (those (map (\<lambda>nm. case keypointNamed w person nm of
                            None \<Rightarrow> None
                          | Some kp \<Rightarrow>
                              Some (case Keypoint_getPosition w kp of
                                      Some pos \<Rightarrow> [px pos, py pos, confidence w kp]
                                    | None \<Rightarrow> [Some 0, Some 0, Some 0]))
                 (filter (\<lambda>nm. \<not> isDetailName nm) (sk_names sd))))"

definition createBODY18 :: "world \<Rightarrow> nat \<Rightarrow> skeletonData \<Rightarrow> exportJson option \<Rightarrow> string + exportJson" where
  "createBODY18 w person sd toJson =
     (case personEntry w person sd of
        None \<Rightarrow> Inl typeError
      | Some entry \<Rightarrow>
          (case toJson of
             None \<Rightarrow> Inr (Standard [entry])
           | Some (Standard people) \<Rightarrow> Inr (Standard (people @ [entry]))
           | Some (Comfy frames) \<Rightarrow> Inl typeError))"

definition mathRound :: "rat \<Rightarrow> rat" where
  "mathRound r = of_int \<lfloor>r + 1 / 2\<rfloor>"

definition createBODY18COMFYUI :: "world \<Rightarrow> nat \<Rightarrow> skeletonData \<Rightarrow> exportJson option \<Rightarrow> string + exportJson" where
  "createBODY18COMFYUI w person sd toJson =
     (case (case toJson of None \<Rightarrow> Some [([], 0, 0)] | Some (Comfy frames) \<Rightarrow> Some frames | Some (Standard people) \<Rightarrow> None) of
        None \<Rightarrow> Inl typeError
      | Some frames \<Rightarrow>
          if frames = [] then Inl typeError
          else
            (case last frames of
               (people, canvas_width, canvas_height) \<Rightarrow>
                 (case personEntry w person sd of
                    None \<Rightarrow> Inl typeError
                  | Some entry \<Rightarrow>
                      (case those (map (keypointNamed w person) (sk_names sd)) of
                         None \<Rightarrow> Inl typeError
                       | Some kps \<Rightarrow>
                           (let positions = List.map_filter (Keypoint_getPosition w) kps;
                                xs = map (\<lambda>p. toNum (px p)) positions;
                                ys = map (\<lambda>p. toNum (py p)) positions
                            in Inr (Comfy (butlast frames @
                                 [(if positions = [] then (people @ [entry], canvas_width, canvas_height)
                                   else (people @ [entry],
                                         max (mathRound (Max (set xs) - Min (set xs) + 100)) canvas_width,
                                         max (mathRound (Max (set ys) - Min (set ys) + 100)) canvas_height))])))))))"

definition showFormat :: "string option \<Rightarrow> string" where
  "showFormat f = (case f of None \<Rightarrow> ''undefined'' | Some s \<Rightarrow> s)"

text \<open>\<open>validatePersonFormatCompatibility\<close>: \<open>Inl\<close> is the message of the \<open>Error\<close> it throws.\<close>

definition missingKeypoints :: "world \<Rightarrow> nat \<Rightarrow> skeletonData \<Rightarrow> string list" where
  "missingKeypoints w person sd = filter (\<lambda>nm. keypointNamed w person nm = None) (sk_names sd)"

definition validatePersonFormatCompatibility :: "world \<Rightarrow> nat \<Rightarrow> skeletonData \<Rightarrow> string + bool" where
  "validatePersonFormatCompatibility w person sd =
     (let currentFormat = (if format (ent w person) = [] then ''UNKNOWN'' else format (ent w person));
          currentKeypoints = map fst (keypointsDict (ent w person));
          targetFormat = sk_format sd;
          missing = missingKeypoints w person sd
      in if missing \<noteq> []
         then
           (if currentFormat = ''BODY18'' \<and> targetFormat = Some ''BODY25''
            then Inl (''Cannot export BODY18 pose (18 keypoints) to BODY25 format (25 keypoints). BODY25 requires additional foot/toe keypoints that are not present: ''
                      @ join '', '' missing @ ''. Use ControlNet Standard format instead.'')
            else if currentFormat = ''BODY25'' \<and> targetFormat = Some ''BODY18''
            then Inl (''Exporting BODY25 pose (25 keypoints) to ControlNet format (18 keypoints) will lose foot/toe detail: ''
                      @ join '', '' missing @ ''. This is allowed but some pose precision will be lost.'')
            else Inl (''Format incompatibility: Current pose ('' @ currentFormat @ '', ''
                      @ showNat (length currentKeypoints) @ '' keypoints) cannot be converted to ''
                      @ showFormat targetFormat @ '' ('' @ showNat (length (sk_names sd))
                      @ '' keypoints). Missing: '' @ join '', '' missing))
         else Inr True)"

text \<open>
  \<open>exportPersonAsOpenPoseJson\<close>: every error of the body is caught and thrown again with
  the prefix \<open>Failed to generate OpenPose JSON data for <format>: \<close>.
\<close>

definition exportBody ::
  "(string \<Rightarrow> skeletonData option) \<Rightarrow> world \<Rightarrow> nat \<Rightarrow> string \<Rightarrow> exportJson option \<Rightarrow> string + exportJson" where
  "exportBody templates w person targetFormat toJson =
     (case templates targetFormat of
        None \<Rightarrow> Inl typeError
      | Some sd \<Rightarrow>
          (case validatePersonFormatCompatibility w person sd of
             Inl msg \<Rightarrow> Inl msg
           | Inr ok \<Rightarrow>
               if \<not> ok then Inl (''Cannot convert to '' @ targetFormat @ '': incompatible keypoint structure'')
               else if targetFormat = ''BODY18'' then createBODY18 w person sd toJson
               else if targetFormat = ''BODY18COMFYUI'' then createBODY18COMFYUI w person sd toJson
               else if targetFormat = ''BODY25'' then createBODY18 w person sd toJson
               else Inl (''Unsupported format: '' @ targetFormat @ ''. Supported formats: ''
                         @ join '', '' [''BODY18'', ''BODY18COMFYUI'', ''BODY25''])))"

definition exportPersonAsOpenPoseJson ::
  "(string \<Rightarrow> skeletonData option) \<Rightarrow> world \<Rightarrow> nat \<Rightarrow> string option \<Rightarrow> exportJson option \<Rightarrow> string + exportJson" where
  "exportPersonAsOpenPoseJson templates w person fmt toJson =
     (let targetFormat = (if falsy fmt then format (ent w person) else showFormat fmt)
      in case exportBody templates w person targetFormat toJson of
           Inl msg \<Rightarrow> Inl (''Failed to generate OpenPose JSON data for '' @ targetFormat @ '': '' @ msg)
         | Inr json \<Rightarrow> Inr json)"

section \<open>Callables and replays\<close>

text \<open>
  The entity mutations a callable of \<open>overStateChange\<close> performs: the calls of the
  application that mark state as changed.
\<close>

datatype mutation =
    SetPosition nat "point option" bool
  | SetOffset nat point bool
  | Drag nat point
  | MarkChanged nat

definition applyMutation :: "hooks \<Rightarrow> mutation \<Rightarrow> world \<Rightarrow> outcome" where
  "applyMutation hk m w =
     (case m of
        SetPosition e pos updateShape \<Rightarrow> setPosition hk e pos updateShape w
      | SetOffset e offset updateShape \<Rightarrow> Returned (setOffset hk e offset updateShape w)
      | Drag e pos \<Rightarrow> Returned (dragKeypoint hk e pos w)
      | MarkChanged e \<Rightarrow> Returned (changeState hk True e w))"

definition runMutations :: "hooks \<Rightarrow> mutation list \<Rightarrow> world \<Rightarrow> outcome" where
  "runMutations hk ms w = forEach (applyMutation hk) ms w"

text \<open>
  The entities whose state a mutation writes: the receiver of the call, except that
  \<open>Bone.setOffset\<close> hands the offset to the two endpoint keypoints and writes nothing of
  the bone.
\<close>

definition mutated :: "world \<Rightarrow> mutation \<Rightarrow> nat list" where
  "mutated w m =
     (case m of
        SetPosition e pos updateShape \<Rightarrow> [e]
      | SetOffset e offset updateShape \<Rightarrow>
          (if kind (ent w e) = Bone then [startKp (ent w e), endKp (ent w e)] else [e])
      | Drag e pos \<Rightarrow> [e]
      | MarkChanged e \<Rightarrow> [e])"

text \<open>An undo of a diff followed by the redo of the same diff.\<close>

definition roundTrip :: "hooks \<Rightarrow> nat \<Rightarrow> diff \<Rightarrow> world \<Rightarrow> outcome" where
  "roundTrip hk drawable df w =
     andThen (applyDiff hk drawable df UndoMode w) (applyDiff hk drawable df RedoMode)"

section \<open>Example worlds\<close>

text \<open>Small concrete worlds on which the properties below are exercised.\<close>

definition emptyWorld :: world where
  "emptyWorld =
     \<lparr>ents = [], locks = [], konvaLayers = [], layerStates = [], nextUuid = 0, notified = [],
      rm = \<lparr>rm_scene = 0, max_history = 100, history = [], redoStack = [], snapshot = [],
            layerSnapshot = [], isUndoing = False\<rparr>\<rparr>"

text \<open>A Scene (0) owning a Person (1) with keypoints A (2) and B (3), a limb (4) and the bone AToB (5).\<close>

definition boneWorld :: world where
  "boneWorld =
     emptyWorld\<lparr>ents :=
       [(initialEntity Scene ''Scene'' 0 None 0)\<lparr>children := [1]\<rparr>,
        (initialEntity Person ''Person1'' 1 (Some 0) 0)\<lparr>children := [2, 3, 4],
           keypointsDict := [(''A'', 2), (''B'', 3)], limbs := [4], format := ''BODY18'',
           strokeColor := Some ''black'', fillColor := Some ''white'', alpha := Some 1\<rparr>,
        (initialEntity Keypoint ''A'' 2 (Some 1) 0)\<lparr>position := Some \<lparr>px = Some 1, py = Some 2\<rparr>, radius := 5\<rparr>,
        (initialEntity Keypoint ''B'' 3 (Some 1) 0)\<lparr>position := Some \<lparr>px = Some 3, py = Some 4\<rparr>, radius := 5\<rparr>,
        (initialEntity Limb ''Body'' 4 (Some 1) 0)\<lparr>children := [5]\<rparr>,
        (initialEntity Bone ''AToB'' 5 (Some 4) 0)\<lparr>startKp := 2, endKp := 3\<rparr>],
       locks := [0], nextUuid := 6\<rparr>"

text \<open>\<open>boneWorld\<close> under a manager whose \<open>max_history\<close> is \<open>0\<close>, with an empty snapshot.\<close>

definition capWorld :: world where
  "capWorld = updRm (\<lambda>r. r\<lparr>max_history := 0\<rparr>) boneWorld"

text \<open>\<open>boneWorld\<close> under a manager with \<open>max_history = 1\<close>, one transaction in the history and one on the redo stack.\<close>

definition cappedWorld :: world where
  "cappedWorld =
     updRm (\<lambda>r. r\<lparr>max_history := 1, history := [[LayerDestroy ''old'' 0]],
                      redoStack := [[LayerDestroy ''undone'' 0]]\<rparr>) boneWorld"

text \<open>
  \<open>boneWorld\<close> after rendering: the bone AToB (5) has a Line shape of stroke width \<open>4\<close>; its
  own \<open>_strokeWidth\<close> is \<open>null\<close>, so that it resolves through the limb (4).
\<close>

definition lineShape :: shape where
  "lineShape =
     \<lparr>className = LineShape, shapeName = ''AToB'', attr_x = None, attr_y = None,
      attr_points = [Some 1, Some 2, Some 3, Some 4], attr_fill = Str ''white'',
      attr_stroke = Str ''black'', attr_strokeWidth = Num 4, attr_radius = Null,
      attr_visible = True, attr_layer = Some 0\<rparr>"

definition shapedWorld :: world where
  "shapedWorld = upd 5 (\<lambda>en. en\<lparr>shape := Some lineShape, strokeWidth := None\<rparr>) boneWorld"

text \<open>A template that requires the keypoints A, B and C.\<close>

definition abcTemplate :: skeletonData where
  "abcTemplate =
     \<lparr>sk_positions = [Some 0, Some 0, Some 1, Some 1, Some 2, Some 0], sk_edges = [0, 1, 0, 2],
      sk_names = [''A'', ''B'', ''C''], sk_limbs = [[0, 1, 2]], sk_limbNames = [''Body''],
      sk_naturalBounds = Some \<lparr>nb_minX = 0, nb_minY = 0, nb_width = 2, nb_height = 1\<rparr>,
      sk_format = None\<rparr>"

definition abcTemplates :: "string \<Rightarrow> skeletonData option" where
  "abcTemplates fmt = (if fmt = ''BODY18'' then Some abcTemplate else None)"

text \<open>A template that requires the keypoints A and B only.\<close>

definition abTemplates :: "string \<Rightarrow> skeletonData option" where
  "abTemplates fmt =
     (if fmt = ''BODY18''
      then Some (abcTemplate\<lparr>sk_positions := [Some 0, Some 0, Some 1, Some 1], sk_edges := [0, 1],
                               sk_names := [''A'', ''B''], sk_limbs := [[0, 1]]\<rparr>)
      else None)"

text \<open>
  A callable for \<open>boneWorld\<close>: move keypoint A (2), shift the bone AToB (5), drag keypoint
  B (3), and mark the limb (4).
\<close>

definition exampleMutations :: "mutation list" where
  "exampleMutations =
     [SetPosition 2 (Some \<lparr>px = Some 10, py = Some 20\<rparr>) True,
      SetOffset 5 \<lparr>px = Some 1, py = Some 1\<rparr> True,
      Drag 3 \<lparr>px = Some 7, py = Some 8\<rparr>,
      MarkChanged 4]"

text \<open>A Scene (0) alone, with its lock cell, and a bounding box.\<close>

definition sceneWorld :: world where
  "sceneWorld = emptyWorld\<lparr>ents := [initialEntity Scene ''Scene'' 0 None 0], locks := [0], nextUuid := 1\<rparr>"

definition unitBox :: bbox where
  "unitBox = \<lparr>bbox_x = Some 0, bbox_y = Some 0, bbox_width = Some 10, bbox_height = Some 10\<rparr>"

text \<open>A template with a single face keypoint.\<close>

definition faceTemplates :: "string \<Rightarrow> skeletonData option" where
  "faceTemplates fmt =
     (if fmt = ''BODY18''
      then Some \<lparr>sk_positions = [Some 1, Some 1], sk_edges = [],
                 sk_names = [''Face_0''], sk_limbs = [], sk_limbNames = [],
                 sk_naturalBounds = Some \<lparr>nb_minX = 0, nb_minY = 0, nb_width = 1, nb_height = 1\<rparr>,
                 sk_format = None\<rparr>
      else None)"

text \<open>
  The Scene (0) with the Person (1) that \<open>addPerson\<close> builds from \<open>faceTemplates\<close> in
  \<open>unitBox\<close>, with the keypoint Face_0 (2); the stroke colour of Face_0 has since been set
  to red.
\<close>

definition faceWorld :: world where
  "faceWorld =
     emptyWorld\<lparr>ents :=
       [(initialEntity Scene ''Scene'' 0 None 0)\<lparr>children := [1]\<rparr>,
        (initialEntity Person ''Person1'' 1 (Some 0) 0)\<lparr>children := [2],
           keypointsDict := [(''Face_0'', 2)], format := ''BODY18'',
           strokeColor := Some ''black'', alpha := Some 1, originalBBox := unitBox\<rparr>,
        (initialEntity Keypoint ''Face_0'' 2 (Some 1) 0)\<lparr>position := Some \<lparr>px = Some 10, py = Some 10\<rparr>,
           radius := 1, strokeColor := Some ''red'', fillColor := Some ''gray''\<rparr>],
       locks := [0], nextUuid := 3\<rparr>"

text \<open>A template with a limb and no keypoint.\<close>

definition limbOnlyTemplates :: "string \<Rightarrow> skeletonData option" where
  "limbOnlyTemplates fmt =
     (if fmt = ''BODY18''
      then Some \<lparr>sk_positions = [], sk_edges = [], sk_names = [], sk_limbs = [[]],
                 sk_limbNames = [''Head''], sk_naturalBounds = None, sk_format = None\<rparr>
      else None)"

text \<open>
  The Scene (0) with the Person (1) that \<open>addPerson\<close> builds from \<open>limbOnlyTemplates\<close>: no
  keypoint, and the limb Head (2).
\<close>

definition limbOnlyWorld :: world where
  "limbOnlyWorld =
     emptyWorld\<lparr>ents :=
       [(initialEntity Scene ''Scene'' 0 None 0)\<lparr>children := [1]\<rparr>,
        (initialEntity Person ''Person1'' 1 (Some 0) 0)\<lparr>children := [2], limbs := [2],
           format := ''BODY18'', strokeColor := Some ''black'', alpha := Some 1,
           originalBBox := unitBox\<rparr>,
        initialEntity Limb ''Head'' 2 (Some 1) 0],
       locks := [0], nextUuid := 3\<rparr>"

text \<open>The second \<open>buildSkeleton\<close> of the person (1), in the same box.\<close>

definition rebuilt :: "hooks \<Rightarrow> (string \<Rightarrow> skeletonData option) \<Rightarrow> world \<Rightarrow> world" where
  "rebuilt hk templates w = buildSkeleton hk templates 1 (Some 0) (Some 0) (Some 10) (Some 10) None w"

text \<open>
  \<open>boneWorld\<close> with the person placed on a layer, during a replay (state A), and the
  same world after keypoint B (3) has been moved and the fill of keypoint A (2) has been
  set to red (state B).
\<close>

definition paintedBefore :: world where
  "paintedBefore =
     updRm (\<lambda>r. r\<lparr>isUndoing := True\<rparr>)
       (upd 1 (\<lambda>en. en\<lparr>layer := Some 0\<rparr>)
          (boneWorld\<lparr>konvaLayers := [\<lparr>layer_id = ''layer1'', layer_name = ''Layer 1'',
                                       layer_visible = True, layer_opacity = 1\<rparr>]\<rparr>))"

definition paintedAfter :: world where
  "paintedAfter =
     upd 2 (\<lambda>en. en\<lparr>fillColor := Some ''red''\<rparr>)
       (upd 3 (\<lambda>en. en\<lparr>position := Some \<lparr>px = Some 5, py = Some 6\<rparr>\<rparr>) paintedBefore)"

definition paintDiff :: diff where
  "paintDiff =
     \<lparr>d_attributes = \<lparr>ad_visible = None, ad_alpha = None, ad_fillColor = None,
                        ad_strokeColor = None, ad_layer = None\<rparr>,
      d_children =
        [(''A'', \<lparr>cd_position = None, cd_visible = None, cd_strokeColor = None,
                   cd_fillColor = Some (Delta None (Some ''red''))\<rparr>),
         (''B'', \<lparr>cd_position = Some (Delta (Some \<lparr>px = Some 3, py = Some 4\<rparr>)
                                               (Some \<lparr>px = Some 5, py = Some 6\<rparr>)),
                   cd_visible = None, cd_strokeColor = None, cd_fillColor = None\<rparr>)]\<rparr>"

text \<open>\<open>boneWorld\<close> in the middle of an undo or redo: the guard \<open>isUndoing\<close> is set.\<close>

definition replayWorld :: world where
  "replayWorld = updRm (\<lambda>r. r\<lparr>isUndoing := True\<rparr>) boneWorld"

section \<open>Auxiliary notions for the proofs\<close>

text \<open>Two worlds whose managers agree on everything but the snapshots.\<close>

definition sameLog :: "world \<Rightarrow> world \<Rightarrow> bool" where
  "sameLog w w' =
     (history (rm w') = history (rm w) \<and> redoStack (rm w') = redoStack (rm w)
      \<and> max_history (rm w') = max_history (rm w) \<and> isUndoing (rm w') = isUndoing (rm w)
      \<and> rm_scene (rm w') = rm_scene (rm w))"

text \<open>Two worlds that differ at most in the shapes of their entities.\<close>

definition unshaped :: "entity \<Rightarrow> entity" where
  "unshaped en = en\<lparr>shape := None\<rparr>"

definition sameButShapes :: "world \<Rightarrow> world \<Rightarrow> bool" where
  "sameButShapes w w' =
     (length (ents w') = length (ents w) \<and> (\<forall>x. unshaped (ent w' x) = unshaped (ent w x))
      \<and> locks w' = locks w \<and> konvaLayers w' = konvaLayers w \<and> layerStates w' = layerStates w
      \<and> nextUuid w' = nextUuid w \<and> notified w' = notified w \<and> rm w' = rm w)"

text \<open>
  The part of an entity that no setter, renderer or move touches: everything but the
  dirty flag and the appearance fields.
\<close>

definition anatomy :: "entity \<Rightarrow> entity" where
  "anatomy en =
     en\<lparr>stateChanged := False, visible := None, strokeColor := None, fillColor := None,
        strokeWidth := None, shape := None, layer := None, position := None, radius := 0\<rparr>"

definition cosmetic :: "(entity \<Rightarrow> entity) \<Rightarrow> bool" where
  "cosmetic f = (\<forall>en. anatomy (f en) = anatomy en \<and> stateChanged (f en) = stateChanged en)"

text \<open>
  The worlds reachable from \<open>w\<close> by writes to appearance fields, by setting a dirty
  flag, and by change notifications of a Scene that was a Scene when the notifying call
  started and whose lock is not held.
\<close>

inductive steps :: "hooks \<Rightarrow> world \<Rightarrow> world \<Rightarrow> bool" for hk :: hooks and w :: world where
  steps_refl: "steps hk w w"
| steps_upd: "steps hk w w0 \<Longrightarrow> cosmetic f \<Longrightarrow> steps hk w (upd e f w0)"
| steps_mark: "steps hk w w0 \<Longrightarrow> steps hk w (upd e (\<lambda>en. en\<lparr>stateChanged := True\<rparr>) w0)"
| steps_notify:
    "steps hk w w1 \<Longrightarrow> steps hk w w0 \<Longrightarrow> hk s = Some callback \<Longrightarrow> kind (ent w1 s) = Scene
       \<Longrightarrow> \<not> isStateChangeLock w0 s \<Longrightarrow> steps hk w (callback (w0\<lparr>notified := notified w0 @ [s]\<rparr>))"

named_theorems steps_intros

definition bookkeeping :: "world \<Rightarrow> world \<Rightarrow> bool" where
  "bookkeeping w w' =
     (ents w' = ents w \<and> locks w' = locks w \<and> konvaLayers w' = konvaLayers w
      \<and> nextUuid w' = nextUuid w \<and> notified w' = notified w)"

definition flagless :: "entity \<Rightarrow> entity" where
  "flagless en = en\<lparr>stateChanged := False\<rparr>"

definition sameButFlags :: "world \<Rightarrow> world \<Rightarrow> bool" where
  "sameButFlags w w' =
     (length (ents w') = length (ents w) \<and> (\<forall>x. flagless (ent w' x) = flagless (ent w x))
      \<and> locks w' = locks w \<and> konvaLayers w' = konvaLayers w
      \<and> nextUuid w' = nextUuid w \<and> notified w' = notified w)"

definition returns :: "outcome \<Rightarrow> bool" where
  "returns r = (case r of Returned w \<Rightarrow> True | Threw msg w \<Rightarrow> False)"

definition worldOf :: "outcome \<Rightarrow> world" where
  "worldOf r = (case r of Returned w \<Rightarrow> w | Threw msg w \<Rightarrow> w)"

definition sameAnatomy :: "world \<Rightarrow> world \<Rightarrow> bool" where
  "sameAnatomy w w' =
     (length (ents w') = length (ents w) \<and> (\<forall>x. anatomy (ent w' x) = anatomy (ent w x))
      \<and> locks w' = locks w)"

definition allLocked :: "hooks \<Rightarrow> world \<Rightarrow> bool" where
  "allLocked hk w = (\<forall>x. kind (ent w x) = Scene \<longrightarrow> hk x = None \<or> isStateChangeLock w x)"

definition quiet :: "world \<Rightarrow> world \<Rightarrow> bool" where
  "quiet w w' =
     (sameAnatomy w w' \<and> notified w' = notified w \<and> rm w' = rm w
      \<and> (\<forall>x. stateChanged (ent w x) \<longrightarrow> stateChanged (ent w' x)))"

definition mark :: "bool \<Rightarrow> nat \<Rightarrow> world \<Rightarrow> world" where
  "mark b x w = upd x (\<lambda>en. en\<lparr>stateChanged := b\<rparr>) w"

definition marked :: "world \<Rightarrow> nat \<Rightarrow> bool" where
  "marked w e = (\<forall>x \<in> set (e # getParents w e). stateChanged (ent w x))"

text \<open>Callbacks that leave the anatomy of every entity, and the locks, as they are.\<close>

definition tame :: "hooks \<Rightarrow> bool" where
  "tame hk = (\<forall>s callback w. hk s = Some callback \<longrightarrow> sameAnatomy w (callback w))"

text \<open>
  What a construction during a replay keeps: the manager, and the existing entities with
  their kinds.
\<close>

definition kept :: "world \<Rightarrow> world \<Rightarrow> bool" where
  "kept w w' =
     (rm w' = rm w \<and> length (ents w) \<le> length (ents w')
      \<and> (\<forall>x < length (ents w). kind (ent w' x) = kind (ent w x)))"

definition replay :: "world \<Rightarrow> world \<Rightarrow> bool" where
  "replay w w' = (isUndoing (rm w) \<longrightarrow> kept w w')"

definition allocated :: "kind \<Rightarrow> nat \<Rightarrow> world \<Rightarrow> bool" where
  "allocated k d w = (d < length (ents w) \<and> kind (ent w d) = k)"

named_theorems replay_intros

definition restored :: "world \<Rightarrow> drawableState \<Rightarrow> world \<Rightarrow> bool" where
  "restored w state w' =
     (length (ents w) < length (ents w')
      \<and> kind (ent w' (length (ents w))) = st_type state
      \<and> uuid (ent w' (length (ents w))) = st_uuid state
      \<and> rm w' = rm w)"

section \<open>Properties\<close>

subsection \<open>Bone position\<close>

lemma toNum_Some [simp]: "toNum (Some r) = r"
  by (simp add: toNum_def)

lemma toNum_None [simp]: "toNum None = 0"
  by (simp add: toNum_def)

text \<open>
  C7. For a Bone, \<open>getPosition()\<close> is the midpoint of the positions of its two endpoint
  keypoints when both are non-null, computed coordinate by coordinate as
  \<open>(start + end) / 2\<close> (a \<open>null\<close> coordinate counting as \<open>0\<close>, as JavaScript adds it), and it
  is \<open>null\<close> when either endpoint's position is \<open>null\<close>.
\<close>

theorem Bone_getPosition_midpoint:
  assumes "kind (ent w b) = Bone"
  shows "(position (ent w (startKp (ent w b))) = Some s \<and> position (ent w (endKp (ent w b))) = Some t
            \<longrightarrow> getPosition w b = Some \<lparr>px = Some ((toNum (px s) + toNum (px t)) / 2),
                                            py = Some ((toNum (py s) + toNum (py t)) / 2)\<rparr>)
       \<and> (position (ent w (startKp (ent w b))) = None \<or> position (ent w (endKp (ent w b))) = None
            \<longrightarrow> getPosition w b = None)"
  using assms
  by (auto simp: getPosition_def Bone_getPosition_def Keypoint_getPosition_def split: option.splits)

theorem Bone_getPosition_midpoint_witness:
  "kind (ent boneWorld 5) = Bone
   \<and> position (ent boneWorld (startKp (ent boneWorld 5))) = Some \<lparr>px = Some 1, py = Some 2\<rparr>
   \<and> position (ent boneWorld (endKp (ent boneWorld 5))) = Some \<lparr>px = Some 3, py = Some 4\<rparr>
   \<and> getPosition boneWorld 5 = Some \<lparr>px = Some 2, py = Some 3\<rparr>"
proof -
  have k: "kind (ent boneWorld 5) = Bone"
    by (simp add: boneWorld_def ent_def initialEntity_def)
  have s: "position (ent boneWorld (startKp (ent boneWorld 5))) = Some \<lparr>px = Some 1, py = Some 2\<rparr>"
    by (simp add: boneWorld_def ent_def initialEntity_def)
  have t: "position (ent boneWorld (endKp (ent boneWorld 5))) = Some \<lparr>px = Some 3, py = Some 4\<rparr>"
    by (simp add: boneWorld_def ent_def initialEntity_def)
  from Bone_getPosition_midpoint [OF k, of "\<lparr>px = Some 1, py = Some 2\<rparr>" "\<lparr>px = Some 3, py = Some 4\<rparr>"] s t
  have "getPosition boneWorld 5 = Some \<lparr>px = Some 2, py = Some 3\<rparr>"
    by simp
  with k s t show ?thesis by simp
qed

subsection \<open>General lemmas\<close>

lemma fold_preserves:
  assumes "\<And>x s. P s \<Longrightarrow> P (f x s)" and "P s"
  shows "P (fold f xs s)"
  using assms(2) by (induction xs arbitrary: s) (auto intro: assms(1))

lemma rm_upd [simp]: "rm (upd e f w) = rm w"
  by (simp add: upd_def)

lemma rm_updShape [simp]: "rm (updShape e f w) = rm w"
  by (simp add: updShape_def)

lemma rm_resetStateFlagsRec: "rm (resetStateFlagsRec n e w) = rm w"
proof (induction n arbitrary: e w)
  case 0
  then show ?case by simp
next
  case (Suc n)
  have "rm (fold (resetStateFlagsRec n) cs w') = rm w'" for cs w'
    by (induction cs arbitrary: w') (simp_all add: Suc.IH)
  then show ?case by (simp add: Let_def)
qed

lemma rm_resetStateFlags [simp]: "rm (resetStateFlags e w) = rm w"
  by (simp add: resetStateFlags_def rm_resetStateFlagsRec)

subsection \<open>The capture leaves the transaction log to \<open>pushTransaction\<close>\<close>

lemma sameLog_refl [simp]: "sameLog w w"
  by (simp add: sameLog_def)

lemma sameLog_fold:
  assumes "\<And>x st. sameLog w (fst st) \<Longrightarrow> sameLog w (fst (f x st))" and "sameLog w (fst st)"
  shows "sameLog w (fst (fold f xs st))"
  using assms(2) by (induction xs arbitrary: st) (simp_all add: assms(1))

lemma sameLog_snapshotLayer: "sameLog w w' \<Longrightarrow> sameLog w (snapshotLayer i w')"
  by (simp add: sameLog_def snapshotLayer_def updRm_def Let_def)

lemma sameLog_detectLayerDestruction:
  "sameLog w (fst st) \<Longrightarrow> sameLog w (fst (detectLayerDestruction cur layerId st))"
  by (cases st) (auto simp: detectLayerDestruction_def sameLog_def updRm_def split: option.splits)

lemma sameLog_detectLayerCreation:
  "sameLog w (fst st) \<Longrightarrow> sameLog w (fst (detectLayerCreation ids i st))"
  by (cases st) (auto simp: detectLayerCreation_def sameLog_snapshotLayer)

lemma sameLog_detectLayerChanges: "sameLog w (fst (detectLayerChanges w))"
  unfolding detectLayerChanges_def Let_def
  apply (rule sameLog_fold)
   apply (erule sameLog_detectLayerCreation)
  apply (rule sameLog_fold)
   apply (erule sameLog_detectLayerDestruction)
  apply (simp only: fst_conv sameLog_refl)
  done

lemma sameLog_detectDestruction: "sameLog w (fst st) \<Longrightarrow> sameLog w (fst (detectDestruction cur u st))"
  by (cases st)
     (auto simp: detectDestruction_def sameLog_def updRm_def layerStateRemove_def Let_def split: option.splits)

lemma sameLog_detectDrawable: "sameLog w (fst st) \<Longrightarrow> sameLog w (fst (detectDrawable snap d st))"
  by (cases st)
     (auto simp: detectDrawable_def sameLog_def updRm_def layerStatePush_def Let_def split: option.splits)

lemma sameLog_detectChanges: "sameLog w (fst (detectChanges w))"
  unfolding detectChanges_def Let_def
  apply (rule sameLog_fold)
   apply (erule sameLog_detectDrawable)
  apply (rule sameLog_fold)
   apply (erule sameLog_detectDestruction)
  apply (rule sameLog_detectLayerChanges)
  done

subsection \<open>History cap\<close>

text \<open>
  C6, as stated, fails for \<open>max_history = 0\<close>: the guard \<open>this.max_history && ...\<close> of
  \<open>handleStateChange\<close> switches the cap off for a falsy \<open>max_history\<close>. In \<open>capWorld\<close> the
  history holds \<open>N = 0\<close> transactions, a capture pushes the first one, and the history has
  length \<open>1\<close>, not \<open>N\<close>.
\<close>

theorem history_cap_zero_counterexample:
  "max_history (rm capWorld) = 0 \<and> length (history (rm capWorld)) = 0 \<and> \<not> isUndoing (rm capWorld)
   \<and> snd (detectChanges capWorld) \<noteq> [] \<and> length (history (rm (handleStateChange capWorld))) = 1"
  by code_simp

text \<open>
  C6, amended. A capture that emits change records (it is not suppressed by the guard
  \<open>isUndoing\<close>, and \<open>changes\<close> is not empty) empties the redo stack; and when \<open>max_history\<close>
  is \<open>N \<ge> 1\<close> and the history already holds \<open>N\<close> transactions, the history afterwards is the
  old one without its oldest transaction followed by the new transaction, of length \<open>N\<close>.
\<close>

theorem history_cap:
  assumes "\<not> isUndoing (rm w)" and "snd (detectChanges w) \<noteq> []"
  shows "redoStack (rm (handleStateChange w)) = []
       \<and> (0 < max_history (rm w) \<and> int (length (history (rm w))) = max_history (rm w)
            \<longrightarrow> history (rm (handleStateChange w)) = tl (history (rm w)) @ [snd (detectChanges w)]
              \<and> int (length (history (rm (handleStateChange w)))) = max_history (rm w))"
proof -
  have s: "sameLog w (fst (detectChanges w))" by (rule sameLog_detectChanges)
  have r: "rm (handleStateChange w) = pushTransaction (snd (detectChanges w)) (rm (fst (detectChanges w)))"
    using assms by (simp add: handleStateChange_def Let_def updRm_def)
  show ?thesis
    using s unfolding r
    by (cases "history (rm w)") (auto simp: pushTransaction_def sameLog_def Let_def)
qed

theorem history_cap_witness:
  "\<not> isUndoing (rm cappedWorld) \<and> snd (detectChanges cappedWorld) \<noteq> []
   \<and> 0 < max_history (rm cappedWorld)
   \<and> int (length (history (rm cappedWorld))) = max_history (rm cappedWorld)
   \<and> redoStack (rm cappedWorld) \<noteq> []
   \<and> redoStack (rm (handleStateChange cappedWorld)) = []
   \<and> history (rm (handleStateChange cappedWorld)) = [snd (detectChanges cappedWorld)]"
proof -
  have a: "\<not> isUndoing (rm cappedWorld)" by code_simp
  have b: "snd (detectChanges cappedWorld) \<noteq> []" by code_simp
  have c: "0 < max_history (rm cappedWorld)
           \<and> int (length (history (rm cappedWorld))) = max_history (rm cappedWorld)
           \<and> redoStack (rm cappedWorld) \<noteq> [] \<and> tl (history (rm cappedWorld)) = []"
    by code_simp
  from history_cap [OF a b] a b c show ?thesis by simp
qed

subsection \<open>Undo and redo with nothing to replay\<close>

text \<open>
  C10. \<open>undo()\<close> with an empty history, and \<open>redo()\<close> with an empty redo stack, return at
  once: the world (history, redo stack, snapshots, the guard \<open>isUndoing\<close>, every entity)
  is the one they were called in.
\<close>

theorem undo_redo_empty_noop:
  "(history (rm w) = [] \<longrightarrow> undo hk templates imageSizes w = Returned w)
   \<and> (redoStack (rm w) = [] \<longrightarrow> redo hk templates imageSizes w = Returned w)"
  by (simp add: undo_def redo_def)

theorem undo_redo_empty_noop_witness:
  "history (rm boneWorld) = [] \<and> redoStack (rm boneWorld) = []
   \<and> undo (\<lambda>s. None) (\<lambda>f. None) (\<lambda>p. None) boneWorld = Returned boneWorld
   \<and> redo (\<lambda>s. None) (\<lambda>f. None) (\<lambda>p. None) boneWorld = Returned boneWorld"
proof -
  have h: "history (rm boneWorld) = [] \<and> redoStack (rm boneWorld) = []"
    by (simp add: boneWorld_def emptyWorld_def)
  from undo_redo_empty_noop [of boneWorld "\<lambda>s. None" "\<lambda>f. None" "\<lambda>p. None"] h show ?thesis
    by simp
qed

subsection \<open>Attribute inheritance\<close>

lemma ent_upd: "ent (upd e f w) x = (if x = e \<and> e < length (ents w) then f (ent w e) else ent w x)"
  by (auto simp: ent_def upd_def)

lemma length_ents_upd [simp]: "length (ents (upd e f w)) = length (ents w)"
  by (simp add: upd_def)

lemma fields_upd [simp]:
  "locks (upd e f w) = locks w" "konvaLayers (upd e f w) = konvaLayers w"
  "layerStates (upd e f w) = layerStates w" "nextUuid (upd e f w) = nextUuid w"
  "notified (upd e f w) = notified w"
  by (simp_all add: upd_def)

lemma sameButShapes_refl [simp]: "sameButShapes w w"
  by (simp add: sameButShapes_def)

lemma sameButShapes_trans: "sameButShapes w w1 \<Longrightarrow> sameButShapes w1 w2 \<Longrightarrow> sameButShapes w w2"
  by (simp add: sameButShapes_def)

lemma sameButShapes_updShape: "sameButShapes w (updShape e f w)"
  by (simp add: sameButShapes_def updShape_def ent_upd unshaped_def)

lemma sameButShapes_fold:
  assumes "\<And>x w'. sameButShapes w' (f x w')"
  shows "sameButShapes w (fold f xs w)"
proof -
  have "sameButShapes w w' \<Longrightarrow> sameButShapes w (fold f xs w')" for w'
  proof (induction xs arbitrary: w')
    case Nil
    then show ?case by simp
  next
    case (Cons a xs)
    from sameButShapes_trans [OF Cons.prems assms] show ?case
      by (simp add: Cons.IH)
  qed
  then show ?thesis by simp
qed

lemma inherited_sameButShapes:
  assumes "sameButShapes w w'" and "\<And>en. field (unshaped en) = field en"
  shows "inherited field w' e v = inherited field w e v"
proof -
  have f: "field (ent w' x) = field (ent w x)" for x
    using assms by (metis sameButShapes_def)
  have p: "parent (ent w' x) = parent (ent w x)" for x
  proof -
    have "parent (unshaped (ent w' x)) = parent (unshaped (ent w x))"
      using assms(1) by (simp add: sameButShapes_def)
    then show ?thesis by (simp add: unshaped_def)
  qed
  show ?thesis
  proof (induction e arbitrary: v rule: less_induct)
    case (less e)
    show ?case
      by (subst inherited.simps, subst (2) inherited.simps)
         (auto simp: f p less.IH split: option.splits)
  qed
qed

lemma getStrokeColor_sameButShapes:
  "sameButShapes w w' \<Longrightarrow> getStrokeColor w' e v = getStrokeColor w e v"
  by (simp add: getStrokeColor_def inherited_sameButShapes unshaped_def)

lemma sameButShapes_setStrokeColorRec_None: "sameButShapes w (setStrokeColorRec n e None w)"
proof (induction n arbitrary: e w)
  case 0
  then show ?case by simp
next
  case (Suc n)
  show ?case
    by (simp add: Let_def)
       (rule sameButShapes_trans [OF sameButShapes_updShape sameButShapes_fold], rule Suc.IH)
qed

lemma getParents_less: "x \<in> set (getParents w e) \<Longrightarrow> x < e"
proof (induction e arbitrary: x rule: less_induct)
  case (less e)
  from less.prems show ?case
    using less.IH less_trans
    by (subst (asm) getParents.simps) (fastforce split: option.splits if_splits)
qed

lemma inherited_chain:
  "inherited field w e None =
     (case find (\<lambda>a. field (ent w a) \<noteq> None) (e # getParents w e) of
        None \<Rightarrow> None
      | Some a \<Rightarrow> field (ent w a))"
proof (induction e rule: less_induct)
  case (less e)
  show ?case
    by (subst inherited.simps, subst getParents.simps)
       (auto simp: less.IH split: option.splits)
qed

lemma inherited_agree:
  assumes "\<And>x. x \<in> set (e # getParents w e) \<Longrightarrow> field (ent w' x) = field (ent w x) \<and> parent (ent w' x) = parent (ent w x)"
  shows "inherited field w' e v = inherited field w e v"
  using assms
proof (induction e arbitrary: v rule: less_induct)
  case (less e)
  have own: "field (ent w' e) = field (ent w e)" "parent (ent w' e) = parent (ent w e)"
    using less.prems by auto
  have up: "inherited field w' p None = inherited field w p None" if "parent (ent w e) = Some p" "p < e" for p
  proof (rule less.IH [OF that(2)])
    fix x assume "x \<in> set (p # getParents w p)"
    then have "x \<in> set (e # getParents w e)"
      using that by (subst getParents.simps) simp
    then show "field (ent w' x) = field (ent w x) \<and> parent (ent w' x) = parent (ent w x)"
      by (rule less.prems)
  qed
  show ?case
    by (subst inherited.simps, subst (2) inherited.simps)
       (auto simp: own up split: option.splits)
qed

lemma setStrokeColor_Some:
  assumes "e < length (ents w)"
  shows "sameButShapes (upd e (\<lambda>en. en\<lparr>strokeColor := Some c\<rparr>) w) (setStrokeColor e (Some c) w)"
proof -
  obtain n where n: "length (ents w) = Suc n"
    using assms by (cases "length (ents w)") auto
  show ?thesis
    unfolding setStrokeColor_def n
    by (simp add: Let_def)
       (rule sameButShapes_trans [OF sameButShapes_updShape sameButShapes_fold],
        rule sameButShapes_setStrokeColorRec_None)
qed

text \<open>
  C5. Let \<open>E\<close> be an allocated entity whose parent, if any, was allocated before it.
  When \<open>E\<close>'s own stroke colour is unset, \<open>E.getStrokeColor()\<close> is the own stroke colour
  of the nearest ancestor that has one set, and \<open>null\<close> (the value at the root) when none
  has. After \<open>E.setStrokeColor(c)\<close> with a non-null \<open>c\<close>, \<open>E.getStrokeColor()\<close> is \<open>c\<close>,
  and the resolved stroke colour of every sibling of \<open>E\<close> is what it was.
\<close>

theorem strokeColor_inheritance:
  assumes "e < length (ents w)" and "\<forall>p. parent (ent w e) = Some p \<longrightarrow> p < e"
  shows "(strokeColor (ent w e) = None \<longrightarrow>
            getStrokeColor w e None =
              (case find (\<lambda>a. strokeColor (ent w a) \<noteq> None) (getParents w e) of
                 None \<Rightarrow> None
               | Some a \<Rightarrow> strokeColor (ent w a)))
       \<and> getStrokeColor (setStrokeColor e (Some c) w) e None = Some c
       \<and> (s \<noteq> e \<and> parent (ent w s) = parent (ent w e) \<longrightarrow>
            getStrokeColor (setStrokeColor e (Some c) w) s None = getStrokeColor w s None)"
proof (intro conjI impI)
  assume "strokeColor (ent w e) = None"
  then show "getStrokeColor w e None =
      (case find (\<lambda>a. strokeColor (ent w a) \<noteq> None) (getParents w e) of
         None \<Rightarrow> None
       | Some a \<Rightarrow> strokeColor (ent w a))"
    by (simp add: getStrokeColor_def inherited_chain)
next
  let ?w1 = "upd e (\<lambda>en. en\<lparr>strokeColor := Some c\<rparr>) w"
  have "getStrokeColor (setStrokeColor e (Some c) w) e None = getStrokeColor ?w1 e None"
    by (rule getStrokeColor_sameButShapes [OF setStrokeColor_Some [OF assms(1)]])
  also have "\<dots> = Some c"
    using assms(1) by (simp add: getStrokeColor_def inherited.simps [of _ ?w1 e] ent_upd)
  finally show "getStrokeColor (setStrokeColor e (Some c) w) e None = Some c" .
next
  let ?w1 = "upd e (\<lambda>en. en\<lparr>strokeColor := Some c\<rparr>) w"
  assume sib: "s \<noteq> e \<and> parent (ent w s) = parent (ent w e)"
  have notin: "e \<notin> set (getParents w s)"
  proof
    assume "e \<in> set (getParents w s)"
    moreover have "getParents w s =
        (case parent (ent w s) of None \<Rightarrow> [] | Some p \<Rightarrow> if p < s then p # getParents w p else [])"
      by (rule getParents.simps)
    ultimately obtain p where p: "parent (ent w s) = Some p" "p < s" "e \<in> set (p # getParents w p)"
      by (cases "parent (ent w s)") (auto split: if_splits)
    with sib assms(2) have "p < e" by simp
    moreover from p(3) have "e = p \<or> e < p" by (auto dest: getParents_less)
    ultimately show False by auto
  qed
  have "getStrokeColor (setStrokeColor e (Some c) w) s None = getStrokeColor ?w1 s None"
    by (rule getStrokeColor_sameButShapes [OF setStrokeColor_Some [OF assms(1)]])
  also have "\<dots> = getStrokeColor w s None"
    unfolding getStrokeColor_def
    by (rule inherited_agree) (use sib notin in \<open>auto simp: ent_upd\<close>)
  finally show "getStrokeColor (setStrokeColor e (Some c) w) s None = getStrokeColor w s None" .
qed

theorem strokeColor_inheritance_witness:
  "2 < length (ents boneWorld) \<and> parent (ent boneWorld 2) = Some 1
   \<and> strokeColor (ent boneWorld 2) = None
   \<and> getParents boneWorld 2 = [1, 0]
   \<and> strokeColor (ent boneWorld 1) = Some ''black''
   \<and> getStrokeColor boneWorld 2 None = Some ''black''
   \<and> getStrokeColor (setStrokeColor 2 (Some ''red'') boneWorld) 2 None = Some ''red''
   \<and> parent (ent boneWorld 3) = parent (ent boneWorld 2)
   \<and> getStrokeColor (setStrokeColor 2 (Some ''red'') boneWorld) 3 None = Some ''black''"
proof -
  have a: "2 < length (ents boneWorld)" by code_simp
  have b: "parent (ent boneWorld 2) = Some 1" by code_simp
  have b': "\<forall>p. parent (ent boneWorld 2) = Some p \<longrightarrow> p < 2" by (simp add: b)
  have c: "strokeColor (ent boneWorld 2) = None" by code_simp
  have d: "getParents boneWorld 2 = [1, 0]" by code_simp
  have e: "strokeColor (ent boneWorld 1) = Some ''black''" by code_simp
  have f: "parent (ent boneWorld 3) = parent (ent boneWorld 2)" by code_simp
  have g: "getStrokeColor boneWorld 3 None = Some ''black''" by code_simp
  from strokeColor_inheritance [OF a b', of "''red''" 3] a b c d e f g show ?thesis
    by simp
qed

subsection \<open>Stroke width\<close>

text \<open>
  C8 (the code misses the claim). \<open>setStrokeWidth\<close> stores the width, but it writes the
  resolved width into the \<open>fill\<close> attribute of the shape and leaves the shape's stroke
  width alone, and its loop over the children calls the getter, so no child re-resolves.
  On the bone of \<open>shapedWorld\<close>, \<open>setStrokeWidth(1)\<close> leaves the line's stroke width at
  \<open>4\<close> and sets its fill to \<open>1\<close>; on the limb above it, the call leaves the line of the
  bone, which resolves its width through the limb, untouched. The sibling setter
  \<open>setStrokeColor\<close> on the same inputs writes the shape's stroke and reaches the child.
\<close>

theorem setStrokeWidth_writes_fill:
  "strokeWidth (ent (setStrokeWidth 5 (Some 1) shapedWorld) 5) = Some 1
   \<and> map_option attr_strokeWidth (shape (ent (setStrokeWidth 5 (Some 1) shapedWorld) 5)) = Some (Num 4)
   \<and> map_option attr_fill (shape (ent (setStrokeWidth 5 (Some 1) shapedWorld) 5)) = Some (Num 1)
   \<and> getStrokeWidth (setStrokeWidth 4 (Some 1) shapedWorld) 5 None = Some 1
   \<and> shape (ent (setStrokeWidth 4 (Some 1) shapedWorld) 5) = shape (ent shapedWorld 5)
   \<and> map_option attr_stroke (shape (ent (setStrokeColor 5 (Some ''gray'') shapedWorld) 5)) = Some (Str ''gray'')
   \<and> map_option attr_stroke (shape (ent (setStrokeColor 4 (Some ''gray'') shapedWorld) 5)) = Some (Str ''gray'')"
  by code_simp

subsection \<open>Export validation\<close>

lemma mentions_here: "\<exists>pre post. part @ rest = pre @ part @ post"
  by (rule exI [of _ "[]"]) simp

lemma mentions_last: "\<exists>pre post. part = pre @ part @ post"
  by (rule exI [of _ "[]"], rule exI [of _ "[]"]) simp

lemma mentions_later:
  assumes "\<exists>pre post. rest = pre @ part @ post"
  shows "\<exists>pre post. front @ rest = pre @ part @ post"
proof -
  from assms obtain pre post where "rest = pre @ part @ post" by blast
  then have "front @ rest = (front @ pre) @ part @ post" by simp
  then show ?thesis by blast
qed

lemma validate_mentions_missing:
  assumes "missingKeypoints w person sd \<noteq> []"
  shows "\<exists>pre post. validatePersonFormatCompatibility w person sd
           = Inl (pre @ join '', '' (missingKeypoints w person sd) @ post)"
proof -
  have m: "(\<exists>pre post. msg = pre @ part @ post) \<Longrightarrow> \<exists>pre post. (Inl msg :: string + bool) = Inl (pre @ part @ post)"
    for msg part :: string
    by simp
  show ?thesis
    unfolding validatePersonFormatCompatibility_def Let_def if_P [OF assms]
    by (intro m mentions_later mentions_here mentions_last | split if_split, intro conjI impI)+
qed



subsection \<open>What the mutators of the entity graph can reach\<close>

lemma steps_trans:
  assumes "steps hk w w1" and "steps hk w1 w2"
  shows "steps hk w w2"
  using assms(2,1) by (induction rule: steps.induct) (auto intro: steps.intros)

lemma steps_fold:
  assumes "\<And>x w1. steps hk w w1 \<Longrightarrow> steps hk w (f x w1)" and "steps hk w w0"
  shows "steps hk w (fold f xs w0)"
  using assms(2) by (induction xs arbitrary: w0) (simp_all add: assms(1))

lemma cosmetic_simps [simp]:
  "cosmetic (\<lambda>en. en\<lparr>shape := sh en\<rparr>)"
  "cosmetic (\<lambda>en. en\<lparr>position := pos\<rparr>)"
  "cosmetic (\<lambda>en. en\<lparr>fillColor := c\<rparr>)"
  "cosmetic (\<lambda>en. en\<lparr>strokeColor := c\<rparr>)"
  "cosmetic (\<lambda>en. en\<lparr>strokeWidth := sw\<rparr>)"
  "cosmetic (\<lambda>en. en\<lparr>visible := v\<rparr>)"
  "cosmetic (\<lambda>en. en\<lparr>radius := r\<rparr>)"
  "cosmetic (\<lambda>en. en\<lparr>layer := l\<rparr>)"
  by (simp_all add: cosmetic_def anatomy_def)

lemma steps_updShape: "steps hk w w0 \<Longrightarrow> steps hk w (updShape e f w0)"
  unfolding updShape_def by (rule steps_upd) simp_all

lemma steps_changeState: "steps hk w w0 \<Longrightarrow> steps hk w (changeState hk True e w0)"
proof (induction e arbitrary: w0 rule: less_induct)
  case (less e)
  let ?w1 = "upd e (\<lambda>en. en\<lparr>stateChanged := True\<rparr>) w0"
  let ?w2 = "case parent (ent w0 e) of None \<Rightarrow> ?w1
             | Some p \<Rightarrow> if p < e then changeState hk True p ?w1 else ?w1"
  have s1: "steps hk w ?w1" using less.prems by (rule steps_mark)
  have s2: "steps hk w ?w2"
    using s1 by (auto split: option.splits intro: less.IH)
  have eq: "changeState hk True e w0 =
      (if kind (ent w0 e) = Scene
       then (case hk e of
               None \<Rightarrow> ?w2
             | Some callback \<Rightarrow>
                 if isStateChangeLock ?w2 e then ?w2
                 else callback (?w2\<lparr>notified := notified ?w2 @ [e]\<rparr>))
       else ?w2)"
    by (subst changeState.simps) (simp only: Let_def)
  show ?case
  proof (cases "kind (ent w0 e) = Scene")
    case False
    then show ?thesis unfolding eq using s2 by simp
  next
    case True
    show ?thesis
    proof (cases "hk e")
      case None
      then show ?thesis unfolding eq using s2 True by simp
    next
      case (Some callback)
      show ?thesis
      proof (cases "isStateChangeLock ?w2 e")
        case l: True
        then show ?thesis unfolding eq using s2 True Some by simp
      next
        case l: False
        have "steps hk w (callback (?w2\<lparr>notified := notified ?w2 @ [e]\<rparr>))"
          by (rule steps_notify [OF less.prems s2 Some True l])
        then show ?thesis unfolding eq using True Some l by simp
      qed
    qed
  qed
qed

lemmas [steps_intros] = steps_updShape steps_changeState steps_fold steps_mark

lemma steps_cosmetic [steps_intros]:
  "steps hk w w0 \<Longrightarrow> steps hk w (upd e (\<lambda>en. en\<lparr>shape := sh en\<rparr>) w0)"
  "steps hk w w0 \<Longrightarrow> steps hk w (upd e (\<lambda>en. en\<lparr>position := pos\<rparr>) w0)"
  "steps hk w w0 \<Longrightarrow> steps hk w (upd e (\<lambda>en. en\<lparr>fillColor := c\<rparr>) w0)"
  "steps hk w w0 \<Longrightarrow> steps hk w (upd e (\<lambda>en. en\<lparr>strokeColor := c\<rparr>) w0)"
  "steps hk w w0 \<Longrightarrow> steps hk w (upd e (\<lambda>en. en\<lparr>strokeWidth := sw\<rparr>) w0)"
  "steps hk w w0 \<Longrightarrow> steps hk w (upd e (\<lambda>en. en\<lparr>visible := v\<rparr>) w0)"
  "steps hk w w0 \<Longrightarrow> steps hk w (upd e (\<lambda>en. en\<lparr>radius := r\<rparr>) w0)"
  "steps hk w w0 \<Longrightarrow> steps hk w (upd e (\<lambda>en. en\<lparr>layer := l\<rparr>) w0)"
  by (rule steps_upd, assumption, simp)+

lemma steps_setStrokeColorRec [steps_intros]:
  "steps hk w w0 \<Longrightarrow> steps hk w (setStrokeColorRec n e c w0)"
proof (induction n arbitrary: e c w0)
  case 0
  then show ?case by simp
next
  case (Suc n)
  then show ?case
    by (auto simp: Let_def intro!: steps_intros)
qed

lemma steps_setFillColorRec [steps_intros]:
  "steps hk w w0 \<Longrightarrow> steps hk w (setFillColorRec n e c w0)"
proof (induction n arbitrary: e c w0)
  case 0
  then show ?case by simp
next
  case (Suc n)
  then show ?case
    by (auto simp: Let_def intro!: steps_intros)
qed

lemma steps_setters [steps_intros]:
  "steps hk w w0 \<Longrightarrow> steps hk w (setStrokeColor e c w0)"
  "steps hk w w0 \<Longrightarrow> steps hk w (setFillColor e c w0)"
  "steps hk w w0 \<Longrightarrow> steps hk w (setStrokeWidth e sw w0)"
  "steps hk w w0 \<Longrightarrow> steps hk w (setRadius e r us w0)"
  "steps hk w w0 \<Longrightarrow> steps hk w (updateVisibility e w0)"
  by (auto simp: setStrokeColor_def setFillColor_def setStrokeWidth_def setRadius_def
        updateVisibility_def Let_def intro!: steps_intros split: kind.splits)

lemma steps_setVisible [steps_intros]: "steps hk w w0 \<Longrightarrow> steps hk w (setVisible e v w0)"
  by (auto simp: setVisible_def intro!: steps_intros)

lemma steps_Keypoint_render [steps_intros]: "steps hk w w0 \<Longrightarrow> steps hk w (Keypoint_render lay e w0)"
  by (auto simp: Keypoint_render_def intro!: steps_intros split: option.splits)

lemma steps_Bone_render [steps_intros]: "steps hk w w0 \<Longrightarrow> steps hk w (Bone_render lay e w0)"
  unfolding Bone_render_def Let_def prod.case
  by (assumption | rule steps_intros
      | ((split if_split | split option.split), intro conjI impI allI))+

lemma steps_updateConnectedBones [steps_intros]:
  "steps hk w w0 \<Longrightarrow> steps hk w (updateConnectedBones e w0)"
  by (auto simp: updateConnectedBones_def intro!: steps_intros split: option.splits)

lemma steps_Keypoint__setPosition [steps_intros]:
  "steps hk w w0 \<Longrightarrow> steps hk w (Keypoint__setPosition e pos us w0)"
  by (auto simp: Keypoint__setPosition_def Let_def intro!: steps_intros split: option.splits)

lemma steps_Keypoint_setPosition [steps_intros]:
  "steps hk w w0 \<Longrightarrow> steps hk w (Keypoint_setPosition hk e pos us w0)"
  by (auto simp: Keypoint_setPosition_def Let_def intro!: steps_intros)

lemma steps_Keypoint_setOffset [steps_intros]:
  "steps hk w w0 \<Longrightarrow> steps hk w (Keypoint_setOffset hk e off us w0)"
  by (auto simp: Keypoint_setOffset_def Let_def intro!: steps_intros split: option.splits)

lemma steps_setOffset [steps_intros]:
  "steps hk w w0 \<Longrightarrow> steps hk w (setOffset hk e off us w0)"
  by (auto simp: setOffset_def Let_def intro!: steps_intros split: option.splits kind.splits)

lemma steps_Bone__setPosition [steps_intros]:
  "steps hk w w0 \<Longrightarrow> steps hk w (Bone__setPosition hk e pos us w0)"
  by (auto simp: Bone__setPosition_def intro!: steps_intros split: option.splits)

lemma steps_Limb__setPosition [steps_intros]:
  "steps hk w w0 \<Longrightarrow> steps hk w (Limb__setPosition hk e pos us w0)"
  by (auto simp: Limb__setPosition_def intro!: steps_intros split: option.splits)

lemma steps_dragKeypoint [steps_intros]:
  "steps hk w w0 \<Longrightarrow> steps hk w (dragKeypoint hk e pos w0)"
  by (auto simp: dragKeypoint_def intro!: steps_intros)

subsection \<open>The capture writes the manager and the dirty flags only\<close>

lemma bookkeeping_refl [simp]: "bookkeeping w w"
  by (simp add: bookkeeping_def)

lemma bookkeeping_fold:
  assumes "\<And>x st. bookkeeping w (fst st) \<Longrightarrow> bookkeeping w (fst (f x st))" and "bookkeeping w (fst st)"
  shows "bookkeeping w (fst (fold f xs st))"
  using assms(2) by (induction xs arbitrary: st) (simp_all add: assms(1))

lemma bookkeeping_snapshotLayer: "bookkeeping w w' \<Longrightarrow> bookkeeping w (snapshotLayer i w')"
  by (simp add: bookkeeping_def snapshotLayer_def updRm_def Let_def)

lemma bookkeeping_detectLayerDestruction:
  "bookkeeping w (fst st) \<Longrightarrow> bookkeeping w (fst (detectLayerDestruction cur layerId st))"
  by (cases st) (auto simp: detectLayerDestruction_def bookkeeping_def updRm_def split: option.splits)

lemma bookkeeping_detectLayerCreation:
  "bookkeeping w (fst st) \<Longrightarrow> bookkeeping w (fst (detectLayerCreation ids i st))"
  by (cases st) (auto simp: detectLayerCreation_def bookkeeping_snapshotLayer)

lemma bookkeeping_detectLayerChanges: "bookkeeping w (fst (detectLayerChanges w))"
  unfolding detectLayerChanges_def Let_def
  apply (rule bookkeeping_fold)
   apply (erule bookkeeping_detectLayerCreation)
  apply (rule bookkeeping_fold)
   apply (erule bookkeeping_detectLayerDestruction)
  apply (simp only: fst_conv bookkeeping_refl)
  done

lemma bookkeeping_detectDestruction:
  "bookkeeping w (fst st) \<Longrightarrow> bookkeeping w (fst (detectDestruction cur u st))"
  by (cases st)
     (auto simp: detectDestruction_def bookkeeping_def updRm_def layerStateRemove_def Let_def split: option.splits)

lemma bookkeeping_detectDrawable:
  "bookkeeping w (fst st) \<Longrightarrow> bookkeeping w (fst (detectDrawable snap d st))"
  by (cases st)
     (auto simp: detectDrawable_def bookkeeping_def updRm_def layerStatePush_def Let_def split: option.splits)

lemma bookkeeping_detectChanges: "bookkeeping w (fst (detectChanges w))"
  unfolding detectChanges_def Let_def
  apply (rule bookkeeping_fold)
   apply (erule bookkeeping_detectDrawable)
  apply (rule bookkeeping_fold)
   apply (erule bookkeeping_detectDestruction)
  apply (rule bookkeeping_detectLayerChanges)
  done

lemma sameButFlags_refl [simp]: "sameButFlags w w"
  by (simp add: sameButFlags_def)

lemma sameButFlags_trans: "sameButFlags w w1 \<Longrightarrow> sameButFlags w1 w2 \<Longrightarrow> sameButFlags w w2"
  by (simp add: sameButFlags_def)

lemma sameButFlags_bookkeeping: "bookkeeping w w' \<Longrightarrow> sameButFlags w w'"
  by (simp add: sameButFlags_def bookkeeping_def ent_def)

lemma sameButFlags_updRm [simp]: "sameButFlags w (updRm f w') = sameButFlags w w'"
  by (simp add: sameButFlags_def updRm_def ent_def)

lemma sameButFlags_fold:
  assumes "\<And>x w1. sameButFlags w w1 \<Longrightarrow> sameButFlags w (f x w1)" and "sameButFlags w w0"
  shows "sameButFlags w (fold f xs w0)"
  using assms(2) by (induction xs arbitrary: w0) (simp_all add: assms(1))

lemma sameButFlags_unflag:
  "sameButFlags w w0 \<Longrightarrow> sameButFlags w (upd e (\<lambda>en. en\<lparr>stateChanged := b\<rparr>) w0)"
  by (auto simp: sameButFlags_def ent_upd length_ents_upd flagless_def)

lemma sameButFlags_resetStateFlagsRec:
  "sameButFlags w w0 \<Longrightarrow> sameButFlags w (resetStateFlagsRec n e w0)"
proof (induction n arbitrary: e w0)
  case 0
  then show ?case by simp
next
  case (Suc n)
  show ?case
    unfolding resetStateFlagsRec.simps Let_def
    by (rule sameButFlags_fold) (auto intro: Suc.IH sameButFlags_unflag Suc.prems)
qed

lemma sameButFlags_handleStateChange: "sameButFlags w (handleStateChange w)"
  using sameButFlags_bookkeeping [OF bookkeeping_detectChanges [of w]]
  by (simp add: handleStateChange_def Let_def resetStateFlags_def sameButFlags_resetStateFlagsRec)

lemma notified_handleStateChange: "notified (handleStateChange w) = notified w"
  using sameButFlags_handleStateChange [of w] by (simp add: sameButFlags_def)

subsection \<open>Notifications under the state-change lock\<close>

lemma worldOf_simps [simp]: "worldOf (Returned w) = w" "worldOf (Threw msg w) = w"
  by (simp_all add: worldOf_def)

lemma steps_forEach:
  assumes "\<And>x w1. steps hk w w1 \<Longrightarrow> steps hk w (worldOf (f x w1))" and "steps hk w w0"
  shows "steps hk w (worldOf (forEach f xs w0))"
  using assms(2)
proof (induction xs arbitrary: w0)
  case Nil
  then show ?case by simp
next
  case (Cons a xs)
  from assms(1) [OF Cons.prems, of a] show ?case
    by (cases "f a w0") (simp_all add: Cons.IH)
qed

lemma steps_Drawable__setPosition [steps_intros]:
  "steps hk w w0 \<Longrightarrow> steps hk w (worldOf (Drawable__setPosition e pos w0))"
  by (auto simp: Drawable__setPosition_def intro!: steps_intros split: option.splits)

lemma steps_setPosition [steps_intros]:
  "steps hk w w0 \<Longrightarrow> steps hk w (worldOf (setPosition hk e pos us w0))"
  by (auto simp: setPosition_def intro!: steps_intros split: kind.splits)

lemma steps_applyMutation:
  "steps hk w w0 \<Longrightarrow> steps hk w (worldOf (applyMutation hk m w0))"
  by (auto simp: applyMutation_def intro!: steps_intros split: mutation.splits)

lemma steps_runMutations:
  "steps hk w w0 \<Longrightarrow> steps hk w (worldOf (runMutations hk ms w0))"
  unfolding runMutations_def by (rule steps_forEach) (rule steps_applyMutation)

lemma anatomy_fields:
  assumes "anatomy a = anatomy b"
  shows "kind a = kind b" "parent a = parent b" "stateChangeLock a = stateChangeLock b"
    "startKp a = startKp b" "endKp a = endKp b" "children a = children b" "uuid a = uuid b"
    "name a = name b" "keypointsDict a = keypointsDict b" "limbs a = limbs b"
proof -
  have "f (anatomy a) = f (anatomy b)" for f :: "entity \<Rightarrow> 'x" using assms by simp
  from this [of kind] this [of parent] this [of stateChangeLock] this [of startKp] this [of endKp]
    this [of children] this [of uuid] this [of name] this [of keypointsDict] this [of limbs]
  show "kind a = kind b" "parent a = parent b" "stateChangeLock a = stateChangeLock b"
    "startKp a = startKp b" "endKp a = endKp b" "children a = children b" "uuid a = uuid b"
    "name a = name b" "keypointsDict a = keypointsDict b" "limbs a = limbs b"
    by (simp_all add: anatomy_def)
qed

lemma quiet_steps:
  assumes "steps hk w w'" and "allLocked hk w"
  shows "quiet w w'"
  using assms(1)
proof (induction rule: steps.induct)
  case steps_refl
  show ?case by (simp add: quiet_def sameAnatomy_def)
next
  case (steps_upd w0 f e)
  then show ?case
    by (auto simp: quiet_def sameAnatomy_def ent_upd cosmetic_def)
next
  case (steps_mark w0 e)
  then show ?case
    by (auto simp: quiet_def sameAnatomy_def ent_upd anatomy_def)
next
  case (steps_notify w1 w0 s callback)
  have "kind (ent w s) = Scene"
    using steps_notify.IH(1) steps_notify.hyps(4)
    by (metis anatomy_fields(1) quiet_def sameAnatomy_def)
  with assms(2) steps_notify.hyps(3) have "isStateChangeLock w s" by (auto simp: allLocked_def)
  moreover have "stateChangeLock (ent w0 s) = stateChangeLock (ent w s)" "locks w0 = locks w"
    using steps_notify.IH(2) by (metis anatomy_fields(3) quiet_def sameAnatomy_def)+
  ultimately have "isStateChangeLock w0 s" by (simp add: isStateChangeLock_def)
  with steps_notify.hyps(5) show ?case by simp
qed

lemma sameAnatomy_refl [simp]: "sameAnatomy w w"
  by (simp add: sameAnatomy_def)

lemma sameAnatomy_trans: "sameAnatomy w w1 \<Longrightarrow> sameAnatomy w1 w2 \<Longrightarrow> sameAnatomy w w2"
  by (simp add: sameAnatomy_def)

lemma sameAnatomy_sym: "sameAnatomy w w1 \<Longrightarrow> sameAnatomy w1 w"
  by (simp add: sameAnatomy_def)

lemma sameAnatomy_mark [simp]: "sameAnatomy w (mark b x w)"
  by (auto simp: sameAnatomy_def mark_def ent_upd anatomy_def)

lemma sameAnatomy_fold_mark [simp]: "sameAnatomy w (fold (mark b) xs w)"
proof (induction xs arbitrary: w)
  case Nil
  show ?case by simp
next
  case (Cons a xs)
  from sameAnatomy_trans [OF sameAnatomy_mark Cons.IH] show ?case by simp
qed

lemma sameAnatomy_fields:
  assumes "sameAnatomy w w'"
  shows "kind (ent w' x) = kind (ent w x)" "parent (ent w' x) = parent (ent w x)"
    "stateChangeLock (ent w' x) = stateChangeLock (ent w x)"
    "startKp (ent w' x) = startKp (ent w x)" "endKp (ent w' x) = endKp (ent w x)"
    "locks w' = locks w" "length (ents w') = length (ents w)"
  using assms anatomy_fields [of "ent w' x" "ent w x"] by (simp_all add: sameAnatomy_def)

lemma isStateChangeLock_sameAnatomy:
  "sameAnatomy w w' \<Longrightarrow> isStateChangeLock w' x = isStateChangeLock w x"
  by (simp add: isStateChangeLock_def sameAnatomy_fields)

lemma getParents_sameAnatomy:
  assumes "sameAnatomy w w'"
  shows "getParents w' e = getParents w e"
proof (induction e rule: less_induct)
  case (less e)
  show ?case
    by (subst getParents.simps, subst (2) getParents.simps)
      (simp add: sameAnatomy_fields(2) [OF assms] less.IH split: option.split)
qed

lemma getParents_mark [simp]: "getParents (mark b x w) e = getParents w e"
  by (rule getParents_sameAnatomy) simp

lemma length_ents_mark [simp]: "length (ents (mark b x w)) = length (ents w)"
  by (simp add: mark_def length_ents_upd)

lemma stateChanged_mark:
  "stateChanged (ent (mark b a w) y) =
     (if y = a \<and> a < length (ents w) then b else stateChanged (ent w y))"
  by (simp add: mark_def ent_upd)

lemma allLocked_sameAnatomy: "sameAnatomy w w' \<Longrightarrow> allLocked hk w \<Longrightarrow> allLocked hk w'"
  by (simp add: allLocked_def isStateChangeLock_sameAnatomy sameAnatomy_fields(1))

lemma changeState_closed:
  assumes "\<forall>x \<in> set (e # getParents w e).
             kind (ent w x) = Scene \<longrightarrow> hk x = None \<or> isStateChangeLock w x"
  shows "changeState hk b e w = fold (mark b) (e # getParents w e) w"
  using assms
proof (induction e arbitrary: w rule: less_induct)
  case (less e)
  define w1 where "w1 = mark b e w"
  define w2 where "w2 = (case parent (ent w e) of
                  None \<Rightarrow> w1
                | Some p \<Rightarrow> if p < e then changeState hk b p w1 else w1)"
  have sa1: "sameAnatomy w w1" by (simp add: w1_def)
  have w2: "w2 = fold (mark b) (e # getParents w e) w"
  proof (cases "parent (ent w e)")
    case None
    then show ?thesis by (subst getParents.simps) (simp add: w2_def w1_def)
  next
    case (Some p)
    show ?thesis
    proof (cases "p < e")
      case True
      have gp: "getParents w e = p # getParents w p"
        by (subst getParents.simps) (simp add: Some True)
      have "\<forall>x \<in> set (p # getParents w1 p).
              kind (ent w1 x) = Scene \<longrightarrow> hk x = None \<or> isStateChangeLock w1 x"
        using less.prems gp
        by (simp add: getParents_sameAnatomy [OF sa1] sameAnatomy_fields(1) [OF sa1]
            isStateChangeLock_sameAnatomy [OF sa1])
      from less.IH [OF True this] show ?thesis
        by (simp add: w2_def Some True gp w1_def)
    next
      case False
      then show ?thesis by (subst getParents.simps) (simp add: w2_def w1_def Some)
    qed
  qed
  have sa2: "sameAnatomy w w2" unfolding w2 by (rule sameAnatomy_fold_mark)
  have eq: "changeState hk b e w =
     (if kind (ent w e) = Scene
         then (case hk e of
                 None \<Rightarrow> w2
               | Some callback \<Rightarrow>
                   if isStateChangeLock w2 e then w2
                   else callback (w2\<lparr>notified := notified w2 @ [e]\<rparr>))
         else w2)"
    by (subst changeState.simps) (simp only: Let_def w2_def w1_def mark_def)
  from less.prems have "kind (ent w e) = Scene \<longrightarrow> hk e = None \<or> isStateChangeLock w e" by simp
  then have "changeState hk b e w = w2"
    unfolding eq by (auto simp: isStateChangeLock_sameAnatomy [OF sa2] split: option.split)
  with w2 show ?case by simp
qed

lemma stateChanged_fold_mark:
  "stateChanged (ent (fold (mark b) xs w) y) =
     (if y \<in> set xs \<and> y < length (ents w) then b else stateChanged (ent w y))"
proof (induction xs arbitrary: w)
  case Nil
  show ?case by simp
next
  case (Cons a xs)
  show ?case by (auto simp: Cons.IH stateChanged_mark)
qed

lemma changeState_marks:
  assumes "allLocked hk w" and "e < length (ents w)"
  shows "marked (changeState hk True e w) e"
proof -
  have c: "changeState hk True e w = fold (mark True) (e # getParents w e) w"
    by (rule changeState_closed) (use assms(1) in \<open>simp add: allLocked_def\<close>)
  have "x < length (ents w)" if "x \<in> set (getParents w e)" for x
    using getParents_less [OF that] assms(2) by simp
  then show ?thesis
    unfolding marked_def c getParents_sameAnatomy [OF sameAnatomy_fold_mark]
    by (simp only: stateChanged_fold_mark) (auto simp: assms(2))
qed

lemma marked_quiet: "quiet w w' \<Longrightarrow> marked w e \<Longrightarrow> marked w' e"
  by (auto simp: quiet_def marked_def getParents_sameAnatomy)

lemma marks_after:
  assumes "allLocked hk w0" and "e < length (ents w0)" and "steps hk (changeState hk True e w0) w'"
  shows "marked w' e"
proof -
  let ?c = "changeState hk True e w0"
  have "quiet w0 ?c" by (rule quiet_steps [OF steps_changeState [OF steps_refl] assms(1)])
  then have "allLocked hk ?c" using assms(1) by (auto simp: quiet_def intro: allLocked_sameAnatomy)
  from quiet_steps [OF assms(3) this] changeState_marks [OF assms(1,2)]
  show ?thesis by (rule marked_quiet)
qed

lemma marks_kept:
  assumes "allLocked hk w0" and "steps hk w0 w'" and "marked w0 e"
  shows "marked w' e"
  using quiet_steps [OF assms(2,1)] assms(3) by (rule marked_quiet)

lemma allLocked_steps: "allLocked hk w0 \<Longrightarrow> steps hk w0 w' \<Longrightarrow> allLocked hk w'"
  using quiet_steps [of hk w0 w'] by (auto simp: quiet_def intro: allLocked_sameAnatomy)

lemma sameAnatomy_steps: "allLocked hk w0 \<Longrightarrow> steps hk w0 w' \<Longrightarrow> sameAnatomy w0 w'"
  using quiet_steps [of hk w0 w'] by (auto simp: quiet_def)

lemma Keypoint_setPosition_marks:
  assumes "allLocked hk w0" and "e < length (ents w0)"
  shows "marked (Keypoint_setPosition hk e pos us w0) e"
  unfolding Keypoint_setPosition_def Let_def
  by (rule marks_after [OF assms]) (auto intro!: steps_intros steps_refl)

lemma Keypoint_setOffset_marks:
  assumes "allLocked hk w0" and "e < length (ents w0)"
  shows "marked (Keypoint_setOffset hk e offset us w0) e"
  unfolding Keypoint_setOffset_def Let_def
  by (rule marks_after [OF assms]) (auto intro!: steps_intros steps_refl split: option.split)

lemma applyMutation_marks:
  assumes "allLocked hk w0" and "\<forall>e \<in> set (mutated w0 m). e < length (ents w0)"
  shows "\<forall>e \<in> set (mutated w0 m). marked (worldOf (applyMutation hk m w0)) e"
proof (cases m)
  case (SetPosition e pos us)
  with assms(2) have e: "e < length (ents w0)" by (simp add: mutated_def)
  have "marked (worldOf (setPosition hk e pos us w0)) e"
  proof (cases "kind (ent w0 e)")
    case Keypoint
    then show ?thesis by (simp add: setPosition_def Keypoint_setPosition_marks [OF assms(1) e])
  next
    case Bone
    show ?thesis
      by (rule marks_after [OF assms(1) e]) (auto simp: setPosition_def Bone intro!: steps_intros steps_refl)
  next
    case Limb
    show ?thesis
      by (rule marks_after [OF assms(1) e]) (auto simp: setPosition_def Limb intro!: steps_intros steps_refl)
  next
    case Person
    show ?thesis
      by (rule marks_after [OF assms(1) e]) (auto simp: setPosition_def Person intro!: steps_intros steps_refl)
  next
    case DistortableImage
    show ?thesis
      by (rule marks_after [OF assms(1) e])
        (auto simp: setPosition_def DistortableImage intro!: steps_intros steps_refl)
  next
    case Scene
    show ?thesis
      by (rule marks_after [OF assms(1) e]) (auto simp: setPosition_def Scene intro!: steps_intros steps_refl)
  qed
  then show ?thesis by (simp add: SetPosition mutated_def applyMutation_def)
next
  case (SetOffset e offset us)
  show ?thesis
  proof (cases "kind (ent w0 e) = Bone")
    case True
    let ?s = "startKp (ent w0 e)" and ?e = "endKp (ent w0 e)"
    let ?w1 = "Keypoint_setOffset hk ?s offset us w0"
    from assms(2) have r: "?s < length (ents w0)" "?e < length (ents w0)"
      by (simp_all add: SetOffset mutated_def True)
    have st: "steps hk w0 ?w1" by (intro steps_intros steps_refl)
    have al: "allLocked hk ?w1" by (rule allLocked_steps [OF assms(1) st])
    have len: "?e < length (ents ?w1)"
      using sameAnatomy_fields(7) [OF sameAnatomy_steps [OF assms(1) st]] r(2) by simp
    have "marked (Keypoint_setOffset hk ?e offset us ?w1) ?s"
      by (rule marks_kept [OF al steps_Keypoint_setOffset [OF steps_refl]
            Keypoint_setOffset_marks [OF assms(1) r(1)]])
    moreover have "marked (Keypoint_setOffset hk ?e offset us ?w1) ?e"
      by (rule Keypoint_setOffset_marks [OF al len])
    ultimately show ?thesis
      by (simp add: SetOffset mutated_def applyMutation_def setOffset_def True)
  next
    case False
    with assms(2) have e: "e < length (ents w0)" by (simp add: SetOffset mutated_def)
    have "marked (setOffset hk e offset us w0) e"
    proof (cases "kind (ent w0 e) = Keypoint")
      case True
      then show ?thesis by (simp add: setOffset_def Keypoint_setOffset_marks [OF assms(1) e])
    next
      case nk: False
      have eq: "setOffset hk e offset us w0 =
          (let w1 = changeState hk True e w0
           in fold (\<lambda>kp w2. case Keypoint_getPosition w2 kp of
                               None \<Rightarrow> w2
                             | Some pos \<Rightarrow> Keypoint_setPosition hk kp (Some (translated pos offset)) us w2)
                (getAllKeypoints w1 e) w1)"
        using False nk by (cases "kind (ent w0 e)") (simp_all add: setOffset_def)
      show ?thesis
        unfolding eq Let_def
        by (rule marks_after [OF assms(1) e])
          (auto intro!: steps_intros steps_refl split: option.split)
    qed
    then show ?thesis by (simp add: SetOffset mutated_def applyMutation_def False)
  qed
next
  case (Drag e pos)
  with assms(2) have e: "e < length (ents w0)" by (simp add: mutated_def)
  let ?w1 = "upd e (\<lambda>en. en\<lparr>position := Some pos\<rparr>)
          (updShape e (\<lambda>sh. sh\<lparr>attr_x := px pos, attr_y := py pos\<rparr>) w0)"
  have st: "steps hk w0 ?w1" by (intro steps_intros steps_refl)
  have "marked (changeState hk True e ?w1) e"
    by (rule changeState_marks [OF allLocked_steps [OF assms(1) st]])
      (use sameAnatomy_fields(7) [OF sameAnatomy_steps [OF assms(1) st]] e in simp)
  then show ?thesis by (simp add: Drag mutated_def applyMutation_def dragKeypoint_def)
next
  case (MarkChanged e)
  with assms(2) have e: "e < length (ents w0)" by (simp add: mutated_def)
  from changeState_marks [OF assms(1) e] show ?thesis
    by (simp add: MarkChanged mutated_def applyMutation_def)
qed

lemma mutated_sameAnatomy: "sameAnatomy w w' \<Longrightarrow> mutated w' m = mutated w m"
  by (simp add: mutated_def sameAnatomy_fields split: mutation.split)

lemma runMutations_marks:
  assumes "allLocked hk w0" and "\<forall>m \<in> set ms. \<forall>e \<in> set (mutated w0 m). e < length (ents w0)"
    and "runMutations hk ms w0 = Returned w1"
  shows "\<forall>m \<in> set ms. \<forall>e \<in> set (mutated w0 m). marked w1 e"
  using assms
proof (induction ms arbitrary: w0)
  case Nil
  show ?case by simp
next
  case (Cons m ms)
  from Cons.prems(3) obtain wm where
    wm: "applyMutation hk m w0 = Returned wm" and rest: "runMutations hk ms wm = Returned w1"
    by (cases "applyMutation hk m w0") (simp_all add: runMutations_def)
  have st: "steps hk w0 wm" using steps_applyMutation [OF steps_refl, of hk w0 m] by (simp add: wm)
  have al: "allLocked hk wm" by (rule allLocked_steps [OF Cons.prems(1) st])
  have sa: "sameAnatomy w0 wm" by (rule sameAnatomy_steps [OF Cons.prems(1) st])
  have st2: "steps hk wm w1" using steps_runMutations [OF steps_refl, of hk wm ms] by (simp add: rest)
  have "\<forall>e \<in> set (mutated w0 m). marked wm e"
    using applyMutation_marks [OF Cons.prems(1), where m = m] Cons.prems(2) by (simp add: wm)
  then have head: "\<forall>e \<in> set (mutated w0 m). marked w1 e"
    using marks_kept [OF al st2] by blast
  have "\<forall>m \<in> set ms. \<forall>e \<in> set (mutated wm m). marked w1 e"
    by (rule Cons.IH [OF al _ rest])
      (use Cons.prems(2) in \<open>simp add: mutated_sameAnatomy [OF sa] sameAnatomy_fields(7) [OF sa]\<close>)
  with head show ?case by (simp add: mutated_sameAnatomy [OF sa])
qed

lemma notified_fold_mark [simp]: "notified (fold (mark b) xs w) = notified w"
  by (induction xs arbitrary: w) (simp_all add: mark_def)

lemma changeState_notifies:
  assumes "kind (ent w s) = Scene" and "hk s = Some callback" and "\<not> isStateChangeLock w s"
    and "\<forall>x \<in> set (getParents w s). hk x = None"
  shows "changeState hk b s w =
           callback ((fold (mark b) (s # getParents w s) w)\<lparr>notified := notified w @ [s]\<rparr>)"
proof -
  define w1 where "w1 = mark b s w"
  define w2 where "w2 = (case parent (ent w s) of
                  None \<Rightarrow> w1
                | Some p \<Rightarrow> if p < s then changeState hk b p w1 else w1)"
  have w2: "w2 = fold (mark b) (s # getParents w s) w"
  proof (cases "parent (ent w s)")
    case None
    then show ?thesis by (subst getParents.simps) (simp add: w2_def w1_def)
  next
    case (Some p)
    show ?thesis
    proof (cases "p < s")
      case True
      have gp: "getParents w s = p # getParents w p"
        by (subst getParents.simps) (simp add: Some True)
      have "changeState hk b p w1 = fold (mark b) (p # getParents w1 p) w1"
        by (rule changeState_closed) (use assms(4) gp in \<open>simp add: w1_def\<close>)
      then show ?thesis by (simp add: w2_def Some True gp w1_def)
    next
      case False
      then show ?thesis by (subst getParents.simps) (simp add: w2_def w1_def Some)
    qed
  qed
  have sa2: "sameAnatomy w w2" unfolding w2 by (rule sameAnatomy_fold_mark)
  have eq: "changeState hk b s w =
     (if kind (ent w s) = Scene
         then (case hk s of
                 None \<Rightarrow> w2
               | Some callback \<Rightarrow>
                   if isStateChangeLock w2 s then w2
                   else callback (w2\<lparr>notified := notified w2 @ [s]\<rparr>))
         else w2)"
    by (subst changeState.simps) (simp only: Let_def w2_def w1_def mark_def)
  have "notified w2 = notified w" unfolding w2 by (rule notified_fold_mark)
  moreover have "\<not> isStateChangeLock w2 s"
    using assms(3) by (simp add: isStateChangeLock_sameAnatomy [OF sa2])
  ultimately have "changeState hk b s w = callback (w2\<lparr>notified := notified w @ [s]\<rparr>)"
    unfolding eq using assms(1,2) by simp
  then show ?thesis by (simp only: w2)
qed



subsection \<open>Rebuilding a skeleton\<close>

lemma sameAnatomy_steps_tame:
  assumes "steps hk w w'" and "tame hk"
  shows "sameAnatomy w w'"
  using assms(1)
proof (induction rule: steps.induct)
  case steps_refl
  show ?case by simp
next
  case (steps_upd w0 f e)
  then show ?case by (auto simp: sameAnatomy_def ent_upd cosmetic_def)
next
  case (steps_mark w0 e)
  then show ?case by (auto simp: sameAnatomy_def ent_upd anatomy_def)
next
  case (steps_notify w1 w0 s callback)
  have "ent (w0\<lparr>notified := notified w0 @ [s]\<rparr>) = ent w0"
    by (simp add: ent_def fun_eq_iff)
  then have "sameAnatomy w (w0\<lparr>notified := notified w0 @ [s]\<rparr>)"
    using steps_notify.IH(2) by (simp add: sameAnatomy_def)
  moreover have "sameAnatomy (w0\<lparr>notified := notified w0 @ [s]\<rparr>)
                   (callback (w0\<lparr>notified := notified w0 @ [s]\<rparr>))"
    using assms(2) steps_notify.hyps(3) by (simp add: tame_def)
  ultimately show ?case by (rule sameAnatomy_trans)
qed

lemma sameAnatomy_sameButFlags: "sameButFlags w w' \<Longrightarrow> sameAnatomy w w'"
proof -
  assume a: "sameButFlags w w'"
  have "anatomy (ent w' x) = anatomy (ent w x)" for x
  proof -
    from a have "flagless (ent w' x) = flagless (ent w x)" by (simp add: sameButFlags_def)
    then have "anatomy (flagless (ent w' x)) = anatomy (flagless (ent w x))" by simp
    then show ?thesis by (simp add: anatomy_def flagless_def)
  qed
  with a show ?thesis by (simp add: sameAnatomy_def sameButFlags_def)
qed

lemma tame_installed: "tame (installed scene)"
  by (simp add: tame_def installed_def sameAnatomy_sameButFlags sameButFlags_handleStateChange)

lemma steps_markDetail [steps_intros]:
  "steps hk w w0 \<Longrightarrow> steps hk w (markDetail nm kp w0)"
  by (auto simp: markDetail_def intro!: steps_intros)

lemma buildKeypoint_existing:
  assumes "tame hk" and "steps hk w w1" and "map_of (keypointsDict (ent w e)) nm \<noteq> None"
  shows "\<exists>w2. buildKeypoint hk e (nm, pos) (w1, b) = (w2, True) \<and> steps hk w w2"
proof -
  have "sameAnatomy w w1" by (rule sameAnatomy_steps_tame [OF assms(2,1)])
  then have "keypointsDict (ent w1 e) = keypointsDict (ent w e)"
    using anatomy_fields(9) [of "ent w1 e" "ent w e"] by (simp add: sameAnatomy_def)
  with assms(3) obtain kp where kp: "map_of (keypointsDict (ent w1 e)) nm = Some kp" by auto
  have "steps hk w (markDetail nm kp (Keypoint__setPosition kp (Some pos) True w1))"
    by (intro steps_intros assms(2))
  then show ?thesis by (simp add: buildKeypoint_def kp)
qed

lemma fold_buildKeypoint_existing:
  assumes "tame hk" and "steps hk w w1"
    and "\<forall>np \<in> set nps. map_of (keypointsDict (ent w e)) (fst np) \<noteq> None"
  shows "\<exists>w2. fold (buildKeypoint hk e) nps (w1, b) = (w2, b \<or> nps \<noteq> []) \<and> steps hk w w2"
  using assms(2,3)
proof (induction nps arbitrary: w1 b)
  case Nil
  then show ?case by simp
next
  case (Cons np nps)
  obtain nm pos where np: "np = (nm, pos)" by (cases np)
  from Cons.prems(2) have "map_of (keypointsDict (ent w e)) nm \<noteq> None" by (simp add: np)
  from buildKeypoint_existing [OF assms(1) Cons.prems(1) this, of pos b]
  obtain w2 where w2: "buildKeypoint hk e (nm, pos) (w1, b) = (w2, True)" "steps hk w w2" by blast
  from Cons.IH [OF w2(2), of True] Cons.prems(2) show ?case by (simp add: np w2(1))
qed

lemma buildStructure_lengths:
  "buildStructure templates fmt cx cy width height personData = Some sk
     \<Longrightarrow> length (s_positions sk) = length (s_names sk)"
  by (auto simp: buildStructure_def Let_def split: option.splits if_splits)

lemma steps_buildSkeleton_existing:
  assumes "tame hk"
    and "buildStructure templates (format (ent w e)) cx cy width height personData = Some sk"
    and "s_names sk \<noteq> []"
    and "\<forall>nm \<in> set (s_names sk). map_of (keypointsDict (ent w e)) nm \<noteq> None"
  shows "steps hk w (buildSkeleton hk templates e cx cy width height personData w)"
proof -
  let ?nps = "zip (s_names sk) (s_positions sk)"
  have len: "length (s_positions sk) = length (s_names sk)"
    by (rule buildStructure_lengths [OF assms(2)])
  then have ne: "?nps \<noteq> []" using assms(3) by (cases "s_names sk"; cases "s_positions sk") simp_all
  have "\<forall>np \<in> set ?nps. map_of (keypointsDict (ent w e)) (fst np) \<noteq> None"
    using assms(4) by (auto dest: set_zip_leftD)
  from fold_buildKeypoint_existing [OF assms(1) steps_refl this, of False] ne
  obtain w2 where w2: "fold (buildKeypoint hk e) ?nps (w, False) = (w2, True)" "steps hk w w2"
    by auto
  show ?thesis
    by (simp add: buildSkeleton_def assms(2) w2(1)) (intro steps_intros w2(2))
qed

text \<open>
  The two example worlds are what \<open>addPerson\<close>, and with it the first \<open>buildSkeleton\<close>,
  leaves in a fresh scene without a change callback.
\<close>

lemma example_worlds_built:
  "setStrokeColor 2 (Some ''red'')
     (snd (addPerson (\<lambda>s. None) faceTemplates 0 unitBox None None None ''BODY18'' sceneWorld))
     = faceWorld"
  "snd (addPerson (\<lambda>s. None) limbOnlyTemplates 0 unitBox None None None ''BODY18'' sceneWorld)
     = limbOnlyWorld"
  by code_simp+




subsection \<open>Round trip of a diff\<close>

text \<open>
  C4 fails in the code. Between the states A (\<open>paintedBefore\<close>) and B (\<open>paintedAfter\<close>)
  keypoint B was moved and the fill of keypoint A was set to red; \<open>diffStates\<close> yields
  \<open>paintDiff\<close>, which mentions the fill colour of A and the position of B. The replay
  handles the children in the order of the diff: it assigns the fill of A, and then
  \<open>setPosition\<close> on B re-renders the bone AToB, whose \<open>render\<close> resets the fill colour of
  both endpoints to \<open>null\<close>. After undo and redo the fill colour of A is \<open>null\<close>, not the
  red of state B; the position of B is restored.
\<close>

theorem applyDiff_roundTrip_loses_fill:
  "diffStates (captureDrawableState paintedBefore 1) (captureDrawableState paintedAfter 1) = Some paintDiff
   \<and> fillColor (ent paintedAfter 2) = Some ''red''
   \<and> returns (roundTrip (installed 0) 1 paintDiff paintedAfter)
   \<and> fillColor (ent (worldOf (roundTrip (installed 0) 1 paintDiff paintedAfter)) 2) = None
   \<and> position (ent (worldOf (roundTrip (installed 0) 1 paintDiff paintedAfter)) 3)
       = position (ent paintedAfter 3)"
  by code_simp

subsection \<open>Reconstruction during a replay\<close>

lemma replay_refl [simp]: "replay w w"
  by (simp add: replay_def kept_def)

lemma replay_trans: "replay w w1 \<Longrightarrow> replay w1 w2 \<Longrightarrow> replay w w2"
  by (auto simp: replay_def kept_def)

lemma steps_replaying:
  assumes "steps (installed s) w w'" and "isUndoing (rm w)"
  shows "rm w' = rm w \<and> sameAnatomy w w'"
  using assms(1)
proof (induction rule: steps.induct)
  case steps_refl
  show ?case by simp
next
  case (steps_upd w0 f e)
  then show ?case by (auto simp: sameAnatomy_def ent_upd cosmetic_def)
next
  case (steps_mark w0 e)
  then show ?case by (auto simp: sameAnatomy_def ent_upd anatomy_def)
next
  case (steps_notify w1 w0 s' callback)
  let ?w = "w0\<lparr>notified := notified w0 @ [s']\<rparr>"
  from steps_notify.hyps(3) have c: "callback = handleStateChange"
    by (auto simp: installed_def split: if_splits)
  have "isUndoing (rm ?w)" using steps_notify.IH(2) assms(2) by simp
  then have "callback ?w = ?w" by (simp add: c handleStateChange_def)
  moreover have "ent ?w = ent w0" by (simp add: ent_def fun_eq_iff)
  ultimately show ?case using steps_notify.IH(2) by (simp add: sameAnatomy_def)
qed

lemma replay_steps: "replay w w0 \<Longrightarrow> steps (installed s) w0 w1 \<Longrightarrow> replay w w1"
proof (rule replay_trans, assumption)
  assume st: "steps (installed s) w0 w1"
  show "replay w0 w1"
    unfolding replay_def
  proof
    assume "isUndoing (rm w0)"
    from steps_replaying [OF st this] have r: "rm w1 = rm w0" and sa: "sameAnatomy w0 w1" by simp_all
    from r sa sameAnatomy_fields(1) [OF sa] show "kept w0 w1"
      by (simp add: kept_def sameAnatomy_def)
  qed
qed

lemma replay_upd [replay_intros]:
  assumes "replay w w0" and "\<And>en. kind (f en) = kind en"
  shows "replay w (upd e f w0)"
proof (rule replay_trans [OF assms(1)])
  show "replay w0 (upd e f w0)"
    by (simp add: replay_def kept_def ent_upd assms(2))
qed

lemma replay_locks [replay_intros]:
  "replay w w0 \<Longrightarrow> replay w (lockStateChange e w0)"
  "replay w w0 \<Longrightarrow> replay w (unlockStateChange e w0)"
  by (erule replay_trans, simp add: replay_def kept_def lockStateChange_def unlockStateChange_def Let_def ent_def)+

lemma replay_steps_ops [replay_intros]:
  "replay w w0 \<Longrightarrow> replay w (changeState (installed s) True e w0)"
  "replay w w0 \<Longrightarrow> replay w (setStrokeColor e c w0)"
  "replay w w0 \<Longrightarrow> replay w (setFillColor e c w0)"
  "replay w w0 \<Longrightarrow> replay w (setStrokeWidth e sw w0)"
  "replay w w0 \<Longrightarrow> replay w (setRadius e r us w0)"
  "replay w w0 \<Longrightarrow> replay w (setVisible e v w0)"
  "replay w w0 \<Longrightarrow> replay w (markDetail nm e w0)"
  "replay w w0 \<Longrightarrow> replay w (Keypoint__setPosition e pos us w0)"
  by (erule replay_steps [where s = s], intro steps_intros steps_refl)+

lemma replay_fold:
  assumes "\<And>x w1. replay w w1 \<Longrightarrow> replay w (f x w1)" and "replay w w0"
  shows "replay w (fold f xs w0)"
  using assms(2) by (induction xs arbitrary: w0) (simp_all add: assms(1))

lemma replay_fold_fst:
  assumes "\<And>x st. replay w (fst st) \<Longrightarrow> replay w (fst (f x st))" and "replay w (fst st)"
  shows "replay w (fst (fold f xs st))"
  using assms(2) by (induction xs arbitrary: st) (simp_all add: assms(1))

lemma replay_addChild [replay_intros]:
  "replay w w0 \<Longrightarrow> replay w (addChild (installed s) e child wl w0)"
  by (cases wl) (simp_all add: addChild_def Let_def replay_intros)

lemma allocated_replay:
  "allocated k d w0 \<Longrightarrow> replay w0 w1 \<Longrightarrow> isUndoing (rm w0) \<Longrightarrow> allocated k d w1"
  by (auto simp: allocated_def replay_def kept_def)

lemma isUndoing_replay: "replay w0 w1 \<Longrightarrow> isUndoing (rm w0) \<Longrightarrow> isUndoing (rm w1)"
  by (simp add: replay_def kept_def)

lemma fst_newEntity [simp]: "fst (newEntity hk k nm par wl w) = length (ents w)"
  by (simp add: newEntity_def Let_def)

lemma newEntity_replay:
  "replay w0 (snd (newEntity (installed s) k nm par wl w0))"
  "isUndoing (rm w0) \<Longrightarrow> allocated k (length (ents w0)) (snd (newEntity (installed s) k nm par wl w0))"
proof -
  define fresh where "fresh = (\<not> wl \<or> par = None)"
  define w1 where "w1 = (if fresh then w0\<lparr>locks := locks w0 @ [0]\<rparr> else w0)"
  define w2 where "w2 = w1\<lparr>ents := ents w1 @
                 [initialEntity k nm (nextUuid w1) par (if fresh then length (locks w0) else 0)],
                 nextUuid := Suc (nextUuid w1)\<rparr>"
  have e1: "ents w1 = ents w0" "rm w1 = rm w0" by (simp_all add: w1_def)
  have r2: "replay w0 w2"
    by (simp add: replay_def kept_def w2_def e1 ent_def nth_append)
  have a2: "allocated k (length (ents w0)) w2"
    by (simp add: allocated_def w2_def e1 ent_def initialEntity_def)
  have eq: "snd (newEntity (installed s) k nm par wl w0) =
      (case par of None \<Rightarrow> w2 | Some p \<Rightarrow> addChild (installed s) p (length (ents w0)) wl w2)"
    unfolding newEntity_def Let_def w2_def w1_def fresh_def by (simp only: snd_conv)
  have r: "replay w2 (snd (newEntity (installed s) k nm par wl w0))"
    unfolding eq by (cases par) (simp_all add: replay_addChild)
  from replay_trans [OF r2 r] show "replay w0 (snd (newEntity (installed s) k nm par wl w0))" .
  assume u: "isUndoing (rm w0)"
  from allocated_replay [OF a2 r isUndoing_replay [OF r2 u]]
  show "allocated k (length (ents w0)) (snd (newEntity (installed s) k nm par wl w0))" .
qed

lemma replay_newEntity [replay_intros]:
  "replay w w0 \<Longrightarrow> replay w (snd (newEntity (installed s) k nm par wl w0))"
  by (erule replay_trans) (rule newEntity_replay)

lemma replay_newKeypoint [replay_intros]:
  "replay w w0 \<Longrightarrow> replay w (snd (newKeypoint (installed s) nm x y par w0))"
  by (simp add: newKeypoint_def case_prod_beta replay_intros)

lemma replay_newBone [replay_intros]:
  "replay w w0 \<Longrightarrow> replay w (snd (newBone (installed s) nm a b par w0))"
  by (simp add: newBone_def case_prod_beta replay_intros)

lemma replay_newLimb [replay_intros]:
  "replay w w0 \<Longrightarrow> replay w (snd (newLimb (installed s) nm par w0))"
  by (simp add: newLimb_def replay_intros)

lemma fst_newDrawable [simp]:
  "fst (newDrawable hk k nm cx cy width height par fmt wl w) = length (ents w)"
  by (simp add: newDrawable_def case_prod_beta)

lemma newDrawable_replay:
  "replay w0 (snd (newDrawable (installed s) k nm cx cy width height par fmt wl w0))"
  "isUndoing (rm w0) \<Longrightarrow>
     allocated k (length (ents w0)) (snd (newDrawable (installed s) k nm cx cy width height par fmt wl w0))"
proof -
  let ?w1 = "snd (newEntity (installed s) k nm par wl w0)"
  let ?w = "snd (newDrawable (installed s) k nm cx cy width height par fmt wl w0)"
  have r: "replay ?w1 ?w"
    by (simp add: newDrawable_def case_prod_beta replay_intros)
  from replay_trans [OF newEntity_replay(1) r] show "replay w0 ?w" .
  assume u: "isUndoing (rm w0)"
  from allocated_replay [OF newEntity_replay(2) [OF u] r isUndoing_replay [OF newEntity_replay(1) u]]
  show "allocated k (length (ents w0)) ?w" .
qed

lemma replay_buildKeypoint:
  "replay w (fst st) \<Longrightarrow> replay w (fst (buildKeypoint (installed s) e np st))"
  by (cases st; cases np)
    (auto simp: buildKeypoint_def case_prod_beta intro!: replay_intros split: option.split)

lemma replay_buildBone:
  "replay w w0 \<Longrightarrow> replay w (buildBone (installed s) e limbObj b w0)"
  by (auto simp: buildBone_def case_prod_beta intro!: replay_intros split: option.split)

lemma replay_buildLimb:
  "replay w w0 \<Longrightarrow> replay w (buildLimb (installed s) e lm w0)"
  unfolding buildLimb_def case_prod_beta
  by (intro replay_fold replay_buildBone replay_intros) simp_all

lemma replay_buildSkeleton [replay_intros]:
  "replay w w0 \<Longrightarrow> replay w (buildSkeleton (installed s) templates e cx cy width height personData w0)"
proof (cases "buildStructure templates (format (ent w0 e)) cx cy width height personData")
  case None
  assume "replay w w0"
  then show ?thesis by (simp add: buildSkeleton_def None)
next
  case (Some sk)
  assume r: "replay w w0"
  let ?st = "fold (buildKeypoint (installed s) e) (zip (s_names sk) (s_positions sk)) (w0, False)"
  have r1: "replay w (fst ?st)"
    by (rule replay_fold_fst [OF replay_buildKeypoint]) (simp_all add: r)
  have r2: "replay w (fold (buildLimb (installed s) e) (s_limbs sk) (fst ?st))"
    by (rule replay_fold [OF replay_buildLimb r1])
  show ?thesis
    by (simp add: buildSkeleton_def Some case_prod_beta r1 r2 replay_intros)
qed

lemma replay_resetPose [replay_intros]:
  "replay w w0 \<Longrightarrow> replay w (resetPose (installed s) templates e x y width height w0)"
  by (simp add: resetPose_def Let_def replay_intros)

lemma replay_loadImage [replay_intros]:
  "replay w w0 \<Longrightarrow> replay w (loadImage (installed s) templates imageSizes e w0)"
  by (auto simp: loadImage_def Let_def intro!: replay_intros split: option.split)

lemma fst_Person_create [simp]:
  "fst (Person_create hk templates nm cx cy width height par fmt personData w) = length (ents w)"
  by (simp add: Person_create_def case_prod_beta)

lemma Person_create_replay:
  "replay w0 (snd (Person_create (installed s) templates nm cx cy width height par fmt personData w0))"
  "isUndoing (rm w0) \<Longrightarrow>
     allocated Person (length (ents w0))
       (snd (Person_create (installed s) templates nm cx cy width height par fmt personData w0))"
proof -
  let ?w1 = "snd (newDrawable (installed s) Person nm cx cy width height par fmt True w0)"
  let ?w = "snd (Person_create (installed s) templates nm cx cy width height par fmt personData w0)"
  have r: "replay ?w1 ?w"
    by (simp add: Person_create_def case_prod_beta replay_intros)
  from replay_trans [OF newDrawable_replay(1) r] show "replay w0 ?w" .
  assume u: "isUndoing (rm w0)"
  from allocated_replay [OF newDrawable_replay(2) [OF u] r isUndoing_replay [OF newDrawable_replay(1) u]]
  show "allocated Person (length (ents w0)) ?w" .
qed

lemma fst_DistortableImage_create [simp]:
  "fst (DistortableImage_create hk templates imageSizes nm cx cy width height path par w) = length (ents w)"
  by (simp add: DistortableImage_create_def case_prod_beta Let_def)

lemma DistortableImage_create_replay:
  "replay w0 (snd (DistortableImage_create (installed s) templates imageSizes nm cx cy width height path par w0))"
  "isUndoing (rm w0) \<Longrightarrow>
     allocated DistortableImage (length (ents w0))
       (snd (DistortableImage_create (installed s) templates imageSizes nm cx cy width height path par w0))"
proof -
  let ?w1 = "snd (newDrawable (installed s) DistortableImage nm cx cy width height par ''IMAGE'' True w0)"
  let ?w = "snd (DistortableImage_create (installed s) templates imageSizes nm cx cy width height path par w0)"
  have r: "replay ?w1 ?w"
    by (simp add: DistortableImage_create_def case_prod_beta Let_def replay_intros)
  from replay_trans [OF newDrawable_replay(1) r] show "replay w0 ?w" .
  assume u: "isUndoing (rm w0)"
  from allocated_replay [OF newDrawable_replay(2) [OF u] r isUndoing_replay [OF newDrawable_replay(1) u]]
  show "allocated DistortableImage (length (ents w0)) ?w" .
qed

lemma lockStateChange_frame [simp]:
  "length (ents (lockStateChange e w)) = length (ents w)" "rm (lockStateChange e w) = rm w"
  by (simp_all add: lockStateChange_def Let_def)

lemma replay_lockStateChange_back: "replay (lockStateChange e w) w1 \<Longrightarrow> replay w w1"
  by (simp add: replay_def kept_def lockStateChange_def Let_def ent_def)

lemma fst_addPerson [simp]:
  "fst (addPerson hk templates scene box personData strokeCol fillCol fmt w) = length (ents w)"
  by (simp add: addPerson_def case_prod_beta Let_def)

lemma addPerson_replay:
  "replay w0 (snd (addPerson (installed s) templates scene box personData strokeCol fillCol fmt w0))"
  "isUndoing (rm w0) \<Longrightarrow>
     allocated Person (length (ents w0))
       (snd (addPerson (installed s) templates scene box personData strokeCol fillCol fmt w0))"
proof -
  let ?l = "lockStateChange scene w0"
  let ?c = "Person_create (installed s) templates (''Person'' @ showNat (length (persons w0 scene) + 1))
                (bbox_x box) (bbox_y box) (bbox_width box) (bbox_height box) (Some scene) fmt personData ?l"
  let ?w = "snd (addPerson (installed s) templates scene box personData strokeCol fillCol fmt w0)"
  have r: "replay (snd ?c) ?w"
    by (simp add: addPerson_def case_prod_beta Let_def replay_intros)
  have rc: "replay ?l (snd ?c)" by (rule Person_create_replay(1))
  from replay_lockStateChange_back [OF replay_trans [OF rc r]] show "replay w0 ?w" .
  assume u: "isUndoing (rm w0)"
  then have ul: "isUndoing (rm ?l)" by simp
  from allocated_replay [OF Person_create_replay(2) [OF ul] r isUndoing_replay [OF rc ul]]
  show "allocated Person (length (ents w0)) ?w" by simp
qed

lemma fst_addImage [simp]:
  "fst (addImage hk templates imageSizes scene box path strokeCol fillCol w) = length (ents w)"
  by (simp add: addImage_def case_prod_beta Let_def)

lemma addImage_replay:
  "replay w0 (snd (addImage (installed s) templates imageSizes scene box path strokeCol fillCol w0))"
  "isUndoing (rm w0) \<Longrightarrow>
     allocated DistortableImage (length (ents w0))
       (snd (addImage (installed s) templates imageSizes scene box path strokeCol fillCol w0))"
proof -
  let ?l = "lockStateChange scene w0"
  let ?c = "DistortableImage_create (installed s) templates imageSizes (''Image'' @ showNat (length (images w0 scene) + 1))
                (bbox_x box) (bbox_y box) (bbox_width box) (bbox_height box) path (Some scene) ?l"
  let ?w = "snd (addImage (installed s) templates imageSizes scene box path strokeCol fillCol w0)"
  have r: "replay (snd ?c) ?w"
    by (auto simp: addImage_def case_prod_beta Let_def intro!: replay_intros split: option.split)
  have rc: "replay ?l (snd ?c)" by (rule DistortableImage_create_replay(1))
  from replay_lockStateChange_back [OF replay_trans [OF rc r]] show "replay w0 ?w" .
  assume u: "isUndoing (rm w0)"
  then have ul: "isUndoing (rm ?l)" by simp
  from allocated_replay [OF DistortableImage_create_replay(2) [OF ul] r isUndoing_replay [OF rc ul]]
  show "allocated DistortableImage (length (ents w0)) ?w" by simp
qed

lemma steps_andThen:
  assumes "steps hk w (worldOf r)" and "\<And>w1. steps hk w w1 \<Longrightarrow> steps hk w (worldOf (f w1))"
  shows "steps hk w (worldOf (andThen r f))"
  using assms by (cases r) (simp_all add: andThen_def)

lemma steps_applyChildState:
  "steps hk w w0 \<Longrightarrow> steps hk w (worldOf (applyChildState hk cmap entry w0))"
  unfolding applyChildState_def
  by (cases "cmap (fst entry)"; cases "cs_position (snd entry)")
    (auto simp: Let_def intro!: steps_andThen steps_intros)

lemma steps_applyState:
  "steps hk w w0 \<Longrightarrow> steps hk w (worldOf (applyState hk drawable state w0))"
  unfolding applyState_def Let_def
  by (rule steps_forEach [OF steps_applyChildState]) (auto intro!: steps_intros)

lemma restored_after:
  assumes u: "isUndoing (rm w)"
    and r: "replay w w1" and a: "allocated (st_type state) (length (ents w)) w1"
  shows "restored w state
           (worldOf (applyState (installed s) (length (ents w)) state
              (upd (length (ents w)) (\<lambda>en. en\<lparr>uuid := st_uuid state, name := nm\<rparr>) w1)))"
proof -
  let ?d = "length (ents w)"
  let ?w2 = "upd ?d (\<lambda>en. en\<lparr>uuid := st_uuid state, name := nm\<rparr>) w1"
  let ?w3 = "worldOf (applyState (installed s) ?d state ?w2)"
  from r u have rm1: "rm w1 = rm w" by (simp add: replay_def kept_def)
  from a have d: "?d < length (ents w1)" "kind (ent w1 ?d) = st_type state"
    by (simp_all add: allocated_def)
  have w2: "uuid (ent ?w2 ?d) = st_uuid state" "kind (ent ?w2 ?d) = st_type state"
    "rm ?w2 = rm w" "length (ents ?w2) = length (ents w1)"
    using d by (simp_all add: ent_upd rm1)
  have "steps (installed s) ?w2 ?w3" by (rule steps_applyState [OF steps_refl])
  from steps_replaying [OF this] u w2(3)
  have rm3: "rm ?w3 = rm w" and sa: "sameAnatomy ?w2 ?w3" by simp_all
  from sa have an: "anatomy (ent ?w3 ?d) = anatomy (ent ?w2 ?d)" by (simp add: sameAnatomy_def)
  from sameAnatomy_fields(7) [OF sa] d(1) w2(4) have "?d < length (ents ?w3)" by simp
  with anatomy_fields(1,7) [OF an] w2(1,2) rm3 show ?thesis by (simp add: restored_def)
qed

lemma restoreDrawable_restored:
  assumes "isUndoing (rm w)" and "st_type state = Person \<or> st_type state = DistortableImage"
  shows "restored w state (worldOf (restoreDrawable (installed s) templates imageSizes state w))"
proof (cases "st_type state = Person")
  case True
  let ?a = "addPerson (installed s) templates (rm_scene (rm w)) (ca_originalBBox (st_constructionArgs state))
              None None (Some ''white'')
              (case ca_format (st_constructionArgs state) of None \<Rightarrow> ''BODY18'' | Some fmt \<Rightarrow> fmt) w"
  have eq: "restoreDrawable (installed s) templates imageSizes state w =
      applyState (installed s) (length (ents w)) state
        (upd (length (ents w))
           (\<lambda>en. en\<lparr>uuid := st_uuid state, name := ca_name (st_constructionArgs state)\<rparr>) (snd ?a))"
    by (simp add: restoreDrawable_def Let_def True case_prod_beta)
  show ?thesis
    unfolding eq
    by (rule restored_after [OF assms(1) addPerson_replay(1)])
      (use addPerson_replay(2) [OF assms(1)] True in simp)
next
  case False
  with assms(2) have img: "st_type state = DistortableImage" by simp
  let ?a = "addImage (installed s) templates imageSizes (rm_scene (rm w))
              (ca_originalBBox (st_constructionArgs state)) (ca_imagePath (st_constructionArgs state))
              None (Some ''white'') w"
  have eq: "restoreDrawable (installed s) templates imageSizes state w =
      applyState (installed s) (length (ents w)) state
        (upd (length (ents w))
           (\<lambda>en. en\<lparr>uuid := st_uuid state, name := ca_name (st_constructionArgs state)\<rparr>) (snd ?a))"
    by (simp add: restoreDrawable_def Let_def img case_prod_beta)
  show ?thesis
    unfolding eq
    by (rule restored_after [OF assms(1) addImage_replay(1)])
      (use addImage_replay(2) [OF assms(1)] img in simp)
qed

lemma restoreLive_restored:
  assumes "isUndoing (rm w)" and "st_type state = Person \<or> st_type state = DistortableImage"
  shows "restored w state (worldOf (restoreLive (installed s) templates imageSizes state w))"
proof -
  let ?r = "restoreDrawable (installed s) templates imageSizes state w"
  have i: "restored w state (layerStateInclude l u w1)" if "restored w state w1" for l u w1
    using that by (auto simp: restored_def layerStateInclude_def ent_def split: option.split)
  note d = restoreDrawable_restored [OF assms, of s templates imageSizes]
  show ?thesis
  proof (cases ?r)
    case (Returned w1)
    with d have "restored w state w1" by simp
    then show ?thesis by (simp add: restoreLive_def andThen_def Returned i split: option.split)
  next
    case (Threw msg w1)
    with d show ?thesis by (simp add: restoreLive_def andThen_def)
  qed
qed



end
